theory Spec2Isabelle
  imports Complex_Main
begin

section \<open>Tensors\<close>

text \<open>
  The notebook \<^verbatim>\<open>src/main.ipynb\<close> defines the class \<^verbatim>\<open>BPRMF\<close> on top of TensorFlow.
  Rank-2 float tensors are lists of rows over \<^typ>\<open>real\<close> (exact arithmetic: rounding of
  \<^verbatim>\<open>float32\<close> is not modelled, and nothing below states that two different computations
  give the same number), integer index arrays of shape \<open>(b, k)\<close> are lists of rows over
  \<^typ>\<open>int\<close>. A list of rows cannot tell the shapes \<open>(0, d)\<close> apart, so a matrix without
  rows stands for each of them.
\<close>

type_synonym vec = "real list"
type_synonym matrix = "real list list"
type_synonym ids = "int list list"

text \<open>
  Exceptions are values. \<open>IndexError\<close> is Python's own (a list indexed out of range),
  \<open>InvalidArgumentError\<close> is the one the tensor library raises for incompatible shapes
  and for a lookup index out of range (CPU kernels), \<open>NameError\<close> is Python's for a
  variable read before it is assigned, \<open>LibraryError\<close> is any other exception of a
  library call. A method that raises gives its error only: what the object looks like after
  an exception is not described.
\<close>

datatype error = IndexError | InvalidArgumentError | NameError | LibraryError nat

definition ebind :: "error + 'a \<Rightarrow> ('a \<Rightarrow> error + 'b) \<Rightarrow> error + 'b" where
  "ebind r f = (case r of Inl e \<Rightarrow> Inl e | Inr x \<Rightarrow> f x)"

fun emap :: "('a \<Rightarrow> error + 'b) \<Rightarrow> 'a list \<Rightarrow> error + 'b list" where
  "emap f [] = Inr []"
| "emap f (x # xs) = ebind (f x) (\<lambda>y. ebind (emap f xs) (\<lambda>ys. Inr (y # ys)))"

definition has_shape :: "nat \<Rightarrow> nat \<Rightarrow> 'a list list \<Rightarrow> bool" where
  "has_shape n d M = (length M = n \<and> list_all (\<lambda>r. length r = d) M)"

definition zeros :: "nat \<Rightarrow> nat \<Rightarrow> matrix" where
  "zeros n d = replicate n (replicate d 0)"

definition tf_constant :: "real \<Rightarrow> nat \<Rightarrow> nat \<Rightarrow> matrix" where
  "tf_constant c n d = replicate n (replicate d c)"

text \<open>
  Element-wise binary operators broadcast: along each axis the two extents are equal, or
  one of them is 1 and that operand is repeated; anything else raises.
\<close>

definition broadcast :: "('a \<Rightarrow> 'b \<Rightarrow> error + 'c) \<Rightarrow> 'a list \<Rightarrow> 'b list \<Rightarrow> error + 'c list" where
  "broadcast f xs ys =
     (if length xs = length ys then emap (\<lambda>(x, y). f x y) (zip xs ys)
      else if length xs = 1 then emap (\<lambda>y. f (hd xs) y) ys
      else if length ys = 1 then emap (\<lambda>x. f x (hd ys)) xs
      else Inl InvalidArgumentError)"

definition elementwise :: "(real \<Rightarrow> real \<Rightarrow> real) \<Rightarrow> matrix \<Rightarrow> matrix \<Rightarrow> error + matrix" where
  "elementwise f A B = broadcast (broadcast (\<lambda>x y. Inr (f x y))) A B"

definition add :: "matrix \<Rightarrow> matrix \<Rightarrow> error + matrix" where
  "add = elementwise (+)"

definition subtract :: "matrix \<Rightarrow> matrix \<Rightarrow> error + matrix" where
  "subtract = elementwise (-)"

definition multiply :: "matrix \<Rightarrow> matrix \<Rightarrow> error + matrix" where
  "multiply = elementwise (*)"

definition scale :: "matrix \<Rightarrow> real \<Rightarrow> matrix" where
  "scale A c = map (map (\<lambda>x. x * c)) A"

definition square :: "matrix \<Rightarrow> matrix" where
  "square A = map (map (\<lambda>x. x * x)) A"

definition dot :: "vec \<Rightarrow> vec \<Rightarrow> real" where
  "dot a b = sum_list (map2 (*) a b)"

text \<open>\<^verbatim>\<open>tf.matmul\<close>: the rows of the left operand are as long as the right operand has rows.\<close>

definition matmul :: "matrix \<Rightarrow> matrix \<Rightarrow> error + matrix" where
  "matmul A B =
     (if list_all (\<lambda>r. length r = length B) A
      then Inr (map (\<lambda>r. map (dot r) (transpose B)) A)
      else Inl InvalidArgumentError)"

text \<open>
  \<^verbatim>\<open>tf.nn.embedding_lookup(params, ids)\<close> gathers rows of \<open>params\<close>: for \<open>ids\<close> of shape
  \<open>(b, k)\<close> the result has shape \<open>(b, k, d)\<close>. An index outside \<open>[0, rows)\<close> raises.
\<close>

definition lookup_row :: "matrix \<Rightarrow> int \<Rightarrow> error + vec" where
  "lookup_row M i =
     (if 0 \<le> i \<and> i < int (length M) then Inr (M ! nat i) else Inl InvalidArgumentError)"

definition embedding_lookup :: "matrix \<Rightarrow> ids \<Rightarrow> error + matrix list" where
  "embedding_lookup M idx = emap (emap (lookup_row M)) idx"

text \<open>
  \<^verbatim>\<open>tf.reduce_sum(t, 1)\<close> on a rank-3 tensor of shape \<open>(b, k, d)\<close> adds the \<open>k\<close> gathered
  rows of every entry; for \<open>k = 0\<close> the sum is the zero row of width \<open>d\<close>. The width is
  that of the matrix the rows were gathered from (a matrix without rows, whose width a list
  of rows does not record, counts as of width 0).
\<close>

definition width :: "matrix \<Rightarrow> nat" where
  "width M = (case M of [] \<Rightarrow> 0 | r # _ \<Rightarrow> length r)"

definition reduce_sum_1 :: "nat \<Rightarrow> matrix list \<Rightarrow> matrix" where
  "reduce_sum_1 d T = map (\<lambda>rows. foldr (map2 (+)) rows (replicate d 0)) T"

definition reduce_sum :: "matrix \<Rightarrow> real" where
  "reduce_sum A = sum_list (map sum_list A)"

text \<open>
  \<^verbatim>\<open>tf.reduce_mean\<close> of a tensor without elements is \<open>nan\<close>, which is \<open>None\<close> here; a value
  computed from \<open>nan\<close> is \<open>nan\<close>.
\<close>

definition reduce_mean :: "matrix \<Rightarrow> real option" where
  "reduce_mean A =
     (if sum_list (map length A) = 0 then None
      else Some (reduce_sum A / real (sum_list (map length A))))"

text \<open>\<^verbatim>\<open>tf.clip_by_value(t, lo, hi)\<close> is \<open>maximum(minimum(t, hi), lo)\<close>.\<close>

definition clip_by_value :: "matrix \<Rightarrow> real \<Rightarrow> real \<Rightarrow> matrix" where
  "clip_by_value A lo hi = map (map (\<lambda>x. max (min x hi) lo)) A"

definition softplus :: "matrix \<Rightarrow> matrix" where
  "softplus A = map (map (\<lambda>x. ln (1 + exp x))) A"

definition negate :: "matrix \<Rightarrow> matrix" where
  "negate A = map (map uminus) A"

text \<open>
  \<^verbatim>\<open>tf.nn.l2_normalize(x, 1)\<close> with its default \<open>epsilon = 1e-12\<close>: every row is multiplied
  by \<open>rsqrt(max(sum(x ** 2), epsilon))\<close>.
\<close>

definition l2_normalize_row :: "vec \<Rightarrow> vec" where
  "l2_normalize_row r =
     map (\<lambda>x. x * (1 / sqrt (max (sum_list (map (\<lambda>y. y * y) r)) (1 / 10 ^ 12)))) r"

definition l2_normalize :: "matrix \<Rightarrow> matrix" where
  "l2_normalize A = map l2_normalize_row A"

text \<open>Python's \<^verbatim>\<open>xs[i]\<close> for an index that is not negative.\<close>

definition getitem :: "'a list \<Rightarrow> nat \<Rightarrow> error + 'a" where
  "getitem xs i = (if i < length xs then Inr (xs ! i) else Inl IndexError)"

section \<open>The model object and the libraries it calls\<close>

text \<open>
  The fields of a \<^verbatim>\<open>BPRMF\<close> object. \<open>data\<close>, \<open>num_users\<close> and \<open>num_items\<close> are the
  attributes of the base class \<^verbatim>\<open>RecommenderModel\<close> (not part of the notebook) that the
  methods below read, the two output paths are the other two arguments its constructor is
  given; the remaining fields are set in \<^verbatim>\<open>__init__\<close>. \<open>data\<close> is
  the data loader together with the state of the random generator its \<^verbatim>\<open>shuffle\<close> draws
  from, \<open>optimizer\<close> is the optimizer object with its accumulators. The attributes that only
  keep tensors of the last forward pass (\<^verbatim>\<open>self.output_pos\<close>, \<^verbatim>\<open>self.loss\<close>, ...) are local
  values here.
\<close>

record ('o, 'd) bprmf =
  data :: 'd
  num_users :: nat
  num_items :: nat
  path_output_rec_result :: string
  path_output_rec_weight :: string
  embedding_size :: nat
  learning_rate :: real
  reg :: real
  epochs :: int
  batch_size :: int
  verbose :: int
  embedding_P :: matrix
  embedding_Q :: matrix
  h :: matrix
  delta_P :: matrix
  delta_Q :: matrix
  optimizer :: 'o

text \<open>One batch list per column of the training triples (user, positive item, negative item).\<close>

type_synonym batches = "ids list \<times> ids list \<times> ids list"

text \<open>
  What the notebook takes from outside and this development leaves open:
  \<^item> \<open>truncated_normal r n d\<close>: \<^verbatim>\<open>tf.random.truncated_normal(shape=[n, d], ...)\<close> drawn from the
    generator state \<open>r\<close>;
  \<^item> \<open>adagrad lr\<close>: a fresh \<^verbatim>\<open>tf.keras.optimizers.Adagrad(learning_rate=lr)\<close>;
  \<^item> \<open>gradient f P Q\<close>: \<^verbatim>\<open>GradientTape.gradient\<close> of the recorded computation \<open>f\<close> (a
    loss, or \<open>nan\<close>) with respect to the two watched variables, at their values \<open>P\<close> and
    \<open>Q\<close>;
  \<^item> \<open>apply_gradients opt (gP, P) (gQ, Q)\<close>: one optimizer step on the two variables, giving
    the optimizer's new state and the variables' new values;
  \<^item> \<open>shuffle dl b\<close>: \<^verbatim>\<open>DataLoader.shuffle(b)\<close>, the reshuffled training triples cut in
    batches of \<open>b\<close>;
  \<^item> \<open>user_input_len dl\<close>: \<^verbatim>\<open>len(dl._user_input)\<close>;
  \<^item> \<open>data_num_users\<close>, \<open>data_num_items\<close>: \<^verbatim>\<open>dl.num_users\<close>, \<^verbatim>\<open>dl.num_items\<close>.
\<close>

record ('o, 'd, 'r) library =
  truncated_normal :: "'r \<Rightarrow> nat \<Rightarrow> nat \<Rightarrow> matrix \<times> 'r"
  adagrad :: "real \<Rightarrow> 'o"
  gradient ::
    "(matrix \<Rightarrow> matrix \<Rightarrow> error + real option) \<Rightarrow> matrix \<Rightarrow> matrix \<Rightarrow> error + (matrix \<times> matrix)"
  apply_gradients :: "'o \<Rightarrow> matrix \<times> matrix \<Rightarrow> matrix \<times> matrix \<Rightarrow> error + ('o \<times> matrix \<times> matrix)"
  shuffle :: "'d \<Rightarrow> int \<Rightarrow> error + (batches \<times> 'd)"
  user_input_len :: "'d \<Rightarrow> int"
  data_num_users :: "'d \<Rightarrow> nat"
  data_num_items :: "'d \<Rightarrow> nat"

section \<open>The methods of \<^verbatim>\<open>BPRMF\<close>\<close>

definition initialize_model_parameters ::
  "('o, 'd, 'r) library \<Rightarrow> 'r \<Rightarrow> ('o, 'd) bprmf \<Rightarrow> ('o, 'd) bprmf \<times> 'r" where
  "initialize_model_parameters lib r m =
     (let (P, r1) = truncated_normal lib r (num_users m) (embedding_size m);
          (Q, r2) = truncated_normal lib r1 (num_items m) (embedding_size m)
      in (m\<lparr>embedding_P := P, embedding_Q := Q, h := tf_constant 1 (embedding_size m) 1\<rparr>, r2))"

definition initialize_optimizer :: "('o, 'd, 'r) library \<Rightarrow> ('o, 'd) bprmf \<Rightarrow> ('o, 'd) bprmf" where
  "initialize_optimizer lib m = m\<lparr>optimizer := adagrad lib (learning_rate m)\<rparr>"

definition initialize_perturbations :: "('o, 'd) bprmf \<Rightarrow> ('o, 'd) bprmf" where
  "initialize_perturbations m =
     m\<lparr>delta_P := zeros (num_users m) (embedding_size m),
       delta_Q := zeros (num_items m) (embedding_size m)\<rparr>"

text \<open>
  \<^verbatim>\<open>__init__\<close>: the base class's constructor provides the first five fields, the rest is
  lines 112 to 122 of the notebook. The five tensors have no value before their
  \<^verbatim>\<open>initialize_\<close> method runs, and the record starts them empty; the optimizer field starts
  with the value \<open>initialize_optimizer\<close> gives it.
\<close>

definition BPRMF ::
  "('o, 'd, 'r) library \<Rightarrow> 'r \<Rightarrow> 'd \<Rightarrow> string \<Rightarrow> string \<Rightarrow> ('o, 'd) bprmf \<times> 'r" where
  "BPRMF lib r data_loader path_result path_weight =
     (let m0 = \<lparr>data = data_loader,
                 num_users = data_num_users lib data_loader,
                 num_items = data_num_items lib data_loader,
                 path_output_rec_result = path_result,
                 path_output_rec_weight = path_weight,
                 embedding_size = 64,
                 learning_rate = 5 / 100,
                 reg = 0,
                 epochs = 5,
                 batch_size = 512,
                 verbose = 1,
                 embedding_P = [], embedding_Q = [], h = [], delta_P = [], delta_Q = [],
                 optimizer = adagrad lib (5 / 100)\<rparr>;
          (m1, r1) = initialize_model_parameters lib r m0
      in (initialize_optimizer lib (initialize_perturbations m1), r1))"

text \<open>
  \<^verbatim>\<open>get_inference\<close> as a function of the tensors it reads, so that the same computation
  can be handed to \<open>gradient\<close> as a function of the two embedding matrices.
\<close>

definition inference ::
  "matrix \<Rightarrow> matrix \<Rightarrow> matrix \<Rightarrow> matrix \<Rightarrow> matrix \<Rightarrow> ids \<Rightarrow> ids \<Rightarrow> error + (matrix \<times> matrix \<times> matrix)" where
  "inference P Q dP dQ hh user_input item_input_pos =
     ebind (add P dP) (\<lambda>P'.
     ebind (embedding_lookup P' user_input) (\<lambda>lp.
     ebind (add Q dQ) (\<lambda>Q'.
     ebind (embedding_lookup Q' item_input_pos) (\<lambda>lq.
     let embedding_p = reduce_sum_1 (width P') lp; embedding_q = reduce_sum_1 (width Q') lq in
     ebind (multiply embedding_p embedding_q) (\<lambda>pq.
     ebind (matmul pq hh) (\<lambda>out. Inr (out, embedding_p, embedding_q)))))))"

definition get_inference ::
  "('o, 'd) bprmf \<Rightarrow> ids \<Rightarrow> ids \<Rightarrow> error + (matrix \<times> matrix \<times> matrix)" where
  "get_inference m user_input item_input_pos =
     inference (embedding_P m) (embedding_Q m) (delta_P m) (delta_Q m) (h m) user_input item_input_pos"

definition get_full_inference :: "('o, 'd) bprmf \<Rightarrow> error + matrix" where
  "get_full_inference m =
     ebind (add (embedding_P m) (delta_P m)) (\<lambda>P'.
     ebind (add (embedding_Q m) (delta_Q m)) (\<lambda>Q'.
     matmul P' (transpose Q')))"

text \<open>
  The pairwise ranking loss of batch \<open>batch_idx\<close>, lines 172 to 178 (and 209 to 215, 224
  to 228, 256 to 261): the batch's index arrays are read and the two forward passes run in
  the order of the source, then the score difference is clipped and the softplus summed.
  It also returns the user-side and the two item-side embeddings the regulariser needs.
\<close>

definition ranking_loss ::
  "matrix \<Rightarrow> matrix \<Rightarrow> matrix \<Rightarrow> batches \<Rightarrow> nat \<Rightarrow> matrix \<Rightarrow> matrix
     \<Rightarrow> error + (real \<times> matrix \<times> matrix \<times> matrix)" where
  "ranking_loss dP dQ hh bs batch_idx P Q =
     (case bs of (user_input, item_input_pos, item_input_neg) \<Rightarrow>
     ebind (getitem user_input batch_idx) (\<lambda>u.
     ebind (getitem item_input_pos batch_idx) (\<lambda>ip.
     ebind (inference P Q dP dQ hh u ip) (\<lambda>(output_pos, embed_p_pos, embed_q_pos).
     ebind (getitem user_input batch_idx) (\<lambda>u'.
     ebind (getitem item_input_neg batch_idx) (\<lambda>ineg.
     ebind (inference P Q dP dQ hh u' ineg) (\<lambda>(output_neg, embed_p_neg, embed_q_neg).
     ebind (subtract output_pos output_neg) (\<lambda>diff.
     let result = clip_by_value diff (- 80) (10 ^ 8)
     in Inr (reduce_sum (softplus (negate result)), embed_p_pos, embed_q_pos, embed_q_neg)))))))))"

text \<open>The regularisation component, lines 181 and 262 to 263.\<close>

definition reg_loss :: "real \<Rightarrow> matrix \<Rightarrow> matrix \<Rightarrow> matrix \<Rightarrow> error + real option" where
  "reg_loss rg embed_p_pos embed_q_pos embed_q_neg =
     ebind (add (square embed_p_pos) (square embed_q_pos)) (\<lambda>s.
     ebind (add s (square embed_q_neg)) (\<lambda>t. Inr (map_option (\<lambda>mean. rg * mean) (reduce_mean t))))"

text \<open>\<^verbatim>\<open>self.loss_opt\<close> of the training step, and the loss of the attack.\<close>

definition loss_opt ::
  "real \<Rightarrow> matrix \<Rightarrow> matrix \<Rightarrow> matrix \<Rightarrow> batches \<Rightarrow> nat \<Rightarrow> matrix \<Rightarrow> matrix
     \<Rightarrow> error + real option" where
  "loss_opt rg dP dQ hh bs batch_idx P Q =
     ebind (ranking_loss dP dQ hh bs batch_idx P Q)
       (\<lambda>(loss, embed_p_pos, embed_q_pos, embed_q_neg).
     ebind (reg_loss rg embed_p_pos embed_q_pos embed_q_neg)
       (\<lambda>rl. Inr (map_option (\<lambda>r. loss + r) rl)))"

text \<open>
  The body of the loop of \<^verbatim>\<open>_train_step\<close> for one \<open>batch_idx\<close>: the forward pass under the
  tape, the gradient with respect to the two embedding matrices, the optimizer step.
\<close>

definition train_batch ::
  "('o, 'd, 'r) library \<Rightarrow> batches \<Rightarrow> ('o, 'd) bprmf \<Rightarrow> nat \<Rightarrow> error + ('o, 'd) bprmf" where
  "train_batch lib bs m batch_idx =
     (let f = loss_opt (reg m) (delta_P m) (delta_Q m) (h m) bs batch_idx in
     ebind (f (embedding_P m) (embedding_Q m)) (\<lambda>l.
     ebind (gradient lib f (embedding_P m) (embedding_Q m)) (\<lambda>(gP, gQ).
     ebind (apply_gradients lib (optimizer m) (gP, embedding_P m) (gQ, embedding_Q m)) (\<lambda>(opt, P, Q).
     Inr (m\<lparr>embedding_P := P, embedding_Q := Q, optimizer := opt\<rparr>)))))"

text \<open>A \<^verbatim>\<open>for\<close> loop over a list of indices whose body may raise.\<close>

fun for_each :: "('s \<Rightarrow> nat \<Rightarrow> error + 's) \<Rightarrow> 's \<Rightarrow> nat list \<Rightarrow> error + 's" where
  "for_each body s [] = Inr s"
| "for_each body s (i # is) = ebind (body s i) (\<lambda>s'. for_each body s' is)"

definition train_step ::
  "('o, 'd, 'r) library \<Rightarrow> ('o, 'd) bprmf \<Rightarrow> batches \<Rightarrow> error + ('o, 'd) bprmf" where
  "train_step lib m bs = for_each (train_batch lib bs) m [0 ..< length (fst bs)]"

text \<open>\<^verbatim>\<open>train\<close>: every epoch reshuffles and runs one step (the printed line is left out).\<close>

definition train_epoch :: "('o, 'd, 'r) library \<Rightarrow> ('o, 'd) bprmf \<Rightarrow> nat \<Rightarrow> error + ('o, 'd) bprmf" where
  "train_epoch lib m epoch =
     ebind (shuffle lib (data m) (batch_size m)) (\<lambda>(bs, dl).
     train_step lib (m\<lparr>data := dl\<rparr>) bs)"

definition train :: "('o, 'd, 'r) library \<Rightarrow> ('o, 'd) bprmf \<Rightarrow> error + ('o, 'd) bprmf" where
  "train lib m = for_each (train_epoch lib) m [0 ..< nat (epochs m)]"

text \<open>
  \<^verbatim>\<open>execute_adversarial_attack\<close>: one batch holding the whole reshuffled training set, the
  perturbations reset, the gradient of the loss at the unperturbed embeddings, and the two
  perturbations built from it (\<^verbatim>\<open>tf.stop_gradient\<close> does not change a value).
\<close>

definition execute_adversarial_attack ::
  "('o, 'd, 'r) library \<Rightarrow> real \<Rightarrow> ('o, 'd) bprmf \<Rightarrow> error + ('o, 'd) bprmf" where
  "execute_adversarial_attack lib epsilon m =
     ebind (shuffle lib (data m) (user_input_len lib (data m))) (\<lambda>(bs, dl).
     let m1 = initialize_perturbations (m\<lparr>data := dl\<rparr>);
         f = loss_opt (reg m1) (delta_P m1) (delta_Q m1) (h m1) bs 0 in
     ebind (f (embedding_P m1) (embedding_Q m1)) (\<lambda>loss.
     ebind (gradient lib f (embedding_P m1) (embedding_Q m1)) (\<lambda>(grad_P, grad_Q).
     Inr (m1\<lparr>delta_P := scale (l2_normalize grad_P) epsilon,
              delta_Q := scale (l2_normalize grad_Q) epsilon\<rparr>))))"

text \<open>
  \<^verbatim>\<open>self.amf_loss\<close> as a function of the two embedding matrices: the loss with the
  perturbations \<open>(dP, dQ)\<close> the step found in place, plus \<open>adv_reg\<close> times the ranking loss
  with the perturbations \<open>(aP, aQ)\<close> of the attack, which the tape treats as constants.
\<close>

definition amf_loss ::
  "real \<Rightarrow> real \<Rightarrow> matrix \<Rightarrow> matrix \<Rightarrow> matrix \<Rightarrow> matrix \<Rightarrow> matrix \<Rightarrow> batches \<Rightarrow> nat
     \<Rightarrow> matrix \<Rightarrow> matrix \<Rightarrow> error + real option" where
  "amf_loss adv_reg rg dP dQ aP aQ hh bs batch_idx P Q =
     ebind (loss_opt rg dP dQ hh bs batch_idx P Q) (\<lambda>bprmf_loss.
     ebind (ranking_loss aP aQ hh bs batch_idx P Q) (\<lambda>(loss_adver, _).
     Inr (map_option (\<lambda>l. l + adv_reg * loss_adver) bprmf_loss)))"

text \<open>
  The body of the loop of \<^verbatim>\<open>_adversarial_train_step\<close> for one \<open>batch_idx\<close>: the loss of
  the model as it is, the attack, the loss of the attacked model, then the gradient of
  their sum and the optimizer step.
\<close>

definition adversarial_train_batch ::
  "('o, 'd, 'r) library \<Rightarrow> real \<Rightarrow> batches \<Rightarrow> ('o, 'd) bprmf \<Rightarrow> nat \<Rightarrow> error + ('o, 'd) bprmf" where
  "adversarial_train_batch lib epsilon bs m batch_idx =
     (let adv_reg = 1 in
     ebind (loss_opt (reg m) (delta_P m) (delta_Q m) (h m) bs batch_idx (embedding_P m) (embedding_Q m))
       (\<lambda>bprmf_loss.
     ebind (execute_adversarial_attack lib epsilon m) (\<lambda>m1.
     let f = amf_loss adv_reg (reg m) (delta_P m) (delta_Q m) (delta_P m1) (delta_Q m1) (h m1)
               bs batch_idx in
     ebind (f (embedding_P m1) (embedding_Q m1)) (\<lambda>l.
     ebind (gradient lib f (embedding_P m1) (embedding_Q m1)) (\<lambda>(gP, gQ).
     ebind (apply_gradients lib (optimizer m1) (gP, embedding_P m1) (gQ, embedding_Q m1)) (\<lambda>(opt, P, Q).
     Inr (m1\<lparr>embedding_P := P, embedding_Q := Q, optimizer := opt\<rparr>)))))))"

definition adversarial_train_step ::
  "('o, 'd, 'r) library \<Rightarrow> ('o, 'd) bprmf \<Rightarrow> batches \<Rightarrow> real \<Rightarrow> error + ('o, 'd) bprmf" where
  "adversarial_train_step lib m bs epsilon =
     ebind (for_each (adversarial_train_batch lib epsilon bs) m [0 ..< length (fst bs)])
       (\<lambda>m'. Inr (initialize_perturbations m'))"

definition adversarial_train_epoch ::
  "('o, 'd, 'r) library \<Rightarrow> real \<Rightarrow> ('o, 'd) bprmf \<Rightarrow> nat \<Rightarrow> error + ('o, 'd) bprmf" where
  "adversarial_train_epoch lib epsilon m epoch =
     ebind (shuffle lib (data m) (batch_size m)) (\<lambda>(bs, dl).
     adversarial_train_step lib (m\<lparr>data := dl\<rparr>) bs epsilon)"

definition adversarial_train ::
  "('o, 'd, 'r) library \<Rightarrow> int \<Rightarrow> real \<Rightarrow> ('o, 'd) bprmf \<Rightarrow> error + ('o, 'd) bprmf" where
  "adversarial_train lib adversarial_epochs epsilon m =
     for_each (adversarial_train_epoch lib epsilon) m [0 ..< nat adversarial_epochs]"

section \<open>The top level of the notebook\<close>

text \<open>
  Modelled from the spec: the modules \<^verbatim>\<open>src.dataset.dataset\<close> and
  \<^verbatim>\<open>src.recommender.Evaluator\<close> are not part of the notebook. The specification describes
  them as "dataset loading/parsing from TSV" and "the evaluator's top-K ranking metric
  computation", "simple I/O/aggregation wrappers", with "no persistence format beyond
  optional output file paths left unused in this flow". So \<open>new_data_loader\<close> makes a data
  loader from the two dataset paths, and \<open>evaluate\<close> computes the three metrics (HR, nDCG,
  AUC) for a cut-off from the two prediction methods of the model and the data loader;
  neither is given anything else.
\<close>

type_synonym metrics = "real \<times> real \<times> real"

record 'd surroundings =
  new_data_loader :: "string \<Rightarrow> string \<Rightarrow> error + 'd"
  evaluate ::
    "(ids \<Rightarrow> ids \<Rightarrow> error + (matrix \<times> matrix \<times> matrix)) \<Rightarrow> (error + matrix) \<Rightarrow> 'd \<Rightarrow> nat
       \<Rightarrow> error + metrics"

definition TOPK :: nat where
  "TOPK = 100"

text \<open>
  The statements of the code cells that act on the data or the model (imports, the class
  definition and the printed lines are left out), with their literal arguments.
\<close>

datatype stmt =
    New_DataLoader string string
  | New_BPRMF string string
  | Call_train
  | Assign_before_adv_evaluate
  | Assign_after_adv_evaluate
  | Assign_epsilon real
  | Call_execute_adversarial_attack
  | Call_adversarial_train int

text \<open>The global variables of the notebook, and the state of the tensor library's generator.\<close>

record ('o, 'd, 'r) session =
  random_state :: 'r
  data_var :: "'d option"
  recommender_model :: "('o, 'd) bprmf option"
  epsilon_var :: "real option"
  before_adv :: "metrics option"
  after_adv :: "metrics option"

definition evaluator_evaluate :: "'d surroundings \<Rightarrow> ('o, 'd) bprmf \<Rightarrow> error + metrics" where
  "evaluator_evaluate env m = evaluate env (get_inference m) (get_full_inference m) (data m) TOPK"

fun exec ::
  "('o, 'd, 'r) library \<Rightarrow> 'd surroundings \<Rightarrow> stmt \<Rightarrow> ('o, 'd, 'r) session
     \<Rightarrow> error + ('o, 'd, 'r) session" where
  "exec lib env (New_DataLoader path_train_data path_test_data) s =
     ebind (new_data_loader env path_train_data path_test_data) (\<lambda>dl. Inr (s\<lparr>data_var := Some dl\<rparr>))"
| "exec lib env (New_BPRMF path_result path_weight) s =
     (case data_var s of None \<Rightarrow> Inl NameError
      | Some dl \<Rightarrow>
          (case BPRMF lib (random_state s) dl path_result path_weight of (m, r) \<Rightarrow>
             Inr (s\<lparr>recommender_model := Some m, random_state := r\<rparr>)))"
| "exec lib env Call_train s =
     (case recommender_model s of None \<Rightarrow> Inl NameError
      | Some m \<Rightarrow> ebind (train lib m) (\<lambda>m'. Inr (s\<lparr>recommender_model := Some m'\<rparr>)))"
| "exec lib env Assign_before_adv_evaluate s =
     (case recommender_model s of None \<Rightarrow> Inl NameError
      | Some m \<Rightarrow> ebind (evaluator_evaluate env m) (\<lambda>r. Inr (s\<lparr>before_adv := Some r\<rparr>)))"
| "exec lib env Assign_after_adv_evaluate s =
     (case recommender_model s of None \<Rightarrow> Inl NameError
      | Some m \<Rightarrow> ebind (evaluator_evaluate env m) (\<lambda>r. Inr (s\<lparr>after_adv := Some r\<rparr>)))"
| "exec lib env (Assign_epsilon x) s = Inr (s\<lparr>epsilon_var := Some x\<rparr>)"
| "exec lib env Call_execute_adversarial_attack s =
     (case recommender_model s of None \<Rightarrow> Inl NameError
      | Some m \<Rightarrow>
          (case epsilon_var s of None \<Rightarrow> Inl NameError
           | Some epsilon \<Rightarrow>
               ebind (execute_adversarial_attack lib epsilon m)
                 (\<lambda>m'. Inr (s\<lparr>recommender_model := Some m'\<rparr>))))"
| "exec lib env (Call_adversarial_train adversarial_epochs) s =
     (case recommender_model s of None \<Rightarrow> Inl NameError
      | Some m \<Rightarrow>
          (case epsilon_var s of None \<Rightarrow> Inl NameError
           | Some epsilon \<Rightarrow>
               ebind (adversarial_train lib adversarial_epochs epsilon m)
                 (\<lambda>m'. Inr (s\<lparr>recommender_model := Some m'\<rparr>))))"

fun run ::
  "('o, 'd, 'r) library \<Rightarrow> 'd surroundings \<Rightarrow> stmt list \<Rightarrow> ('o, 'd, 'r) session
     \<Rightarrow> error + ('o, 'd, 'r) session" where
  "run lib env [] s = Inr s"
| "run lib env (c # cs) s = ebind (exec lib env c s) (run lib env cs)"

text \<open>
  The code cells in their order, as functions of the two output paths given to the
  constructor; the notebook has them at \<^verbatim>\<open>'../rec_result/'\<close> and \<^verbatim>\<open>'../rec_weights/'\<close>.
\<close>

definition notebook_cells :: "string \<Rightarrow> string \<Rightarrow> stmt list list" where
  "notebook_cells path_result path_weight =
     [[],
      [New_DataLoader ''./data/movielens-500/trainingset.tsv'' ''./data/movielens-500/testset.tsv''],
      [],
      [New_BPRMF path_result path_weight, Call_train],
      [Assign_before_adv_evaluate],
      [Assign_epsilon (1 / 2), Call_execute_adversarial_attack],
      [Assign_after_adv_evaluate],
      [Call_adversarial_train 1],
      [Assign_before_adv_evaluate],
      [Call_execute_adversarial_attack],
      [Assign_after_adv_evaluate]]"

definition notebook :: "stmt list" where
  "notebook = concat (notebook_cells ''../rec_result/'' ''../rec_weights/'')"

definition fresh_session :: "'r \<Rightarrow> ('o, 'd, 'r) session" where
  "fresh_session r =
     \<lparr>random_state = r, data_var = None, recommender_model = None, epsilon_var = None,
      before_adv = None, after_adv = None\<rparr>"

text \<open>The steps the specification names, and the step a statement performs, if any.\<close>

datatype step = Load_data | Construct_model | Train | Evaluate | Perturb | Adversarially_train

fun step_of :: "stmt \<Rightarrow> step option" where
  "step_of (New_DataLoader a b) = Some Load_data"
| "step_of (New_BPRMF a b) = Some Construct_model"
| "step_of Call_train = Some Train"
| "step_of Assign_before_adv_evaluate = Some Evaluate"
| "step_of Assign_after_adv_evaluate = Some Evaluate"
| "step_of (Assign_epsilon x) = None"
| "step_of Call_execute_adversarial_attack = Some Perturb"
| "step_of (Call_adversarial_train n) = Some Adversarially_train"

definition steps :: "stmt list \<Rightarrow> step list" where
  "steps cs = List.map_filter step_of cs"

text \<open>
  Follows the specification's words, not the code: "load data, construct model, train,
  evaluate, perturb, evaluate, adversarially train, evaluate".
\<close>

definition spec_steps :: "step list" where
  "spec_steps =
     [Load_data, Construct_model, Train, Evaluate, Perturb, Evaluate, Adversarially_train, Evaluate]"

text \<open>The same model object with other output paths, and a session whose model is so changed.\<close>

definition with_paths :: "string \<Rightarrow> string \<Rightarrow> ('o, 'd) bprmf \<Rightarrow> ('o, 'd) bprmf" where
  "with_paths path_result path_weight m =
     m\<lparr>path_output_rec_result := path_result, path_output_rec_weight := path_weight\<rparr>"

definition session_with_paths ::
  "string \<Rightarrow> string \<Rightarrow> ('o, 'd, 'r) session \<Rightarrow> ('o, 'd, 'r) session" where
  "session_with_paths path_result path_weight s =
     s\<lparr>recommender_model := map_option (with_paths path_result path_weight) (recommender_model s)\<rparr>"

section \<open>Shapes\<close>

text \<open>
  The shape invariant of a model object: each embedding matrix and its perturbation have
  one row per user (per item) and \<open>embedding_size\<close> columns.
\<close>

definition shapes_consistent :: "('o, 'd) bprmf \<Rightarrow> bool" where
  "shapes_consistent m =
     (has_shape (num_users m) (embedding_size m) (embedding_P m) \<and>
      has_shape (num_users m) (embedding_size m) (delta_P m) \<and>
      has_shape (num_items m) (embedding_size m) (embedding_Q m) \<and>
      has_shape (num_items m) (embedding_size m) (delta_Q m))"

text \<open>A model object as the constructor leaves its fixed parts: a positive width and \<open>h\<close> all ones.\<close>

definition inference_ready :: "('o, 'd) bprmf \<Rightarrow> bool" where
  "inference_ready m =
     (0 < embedding_size m \<and> shapes_consistent m \<and> h m = tf_constant 1 (embedding_size m) 1)"

definition same_shape :: "matrix \<Rightarrow> matrix \<Rightarrow> bool" where
  "same_shape A B = (map length A = map length B)"

text \<open>
  What the tensor library promises about shapes: a random tensor has the shape asked for,
  a gradient has the shape of its variable, and an optimizer step keeps a variable's shape.
\<close>

definition shape_preserving :: "('o, 'd, 'r) library \<Rightarrow> bool" where
  "shape_preserving lib =
     ((\<forall>r n d. has_shape n d (fst (truncated_normal lib r n d))) \<and>
      (\<forall>f P Q gP gQ. gradient lib f P Q = Inr (gP, gQ) \<longrightarrow> same_shape gP P \<and> same_shape gQ Q) \<and>
      (\<forall>opt gP P gQ Q opt' P' Q'.
          apply_gradients lib opt (gP, P) (gQ, Q) = Inr (opt', P', Q') \<longrightarrow>
          same_shape P' P \<and> same_shape Q' Q))"

text \<open>
  Well-formed index arrays and batches: every index array is a column (shape \<open>(b, 1)\<close>)
  of row numbers of its embedding matrix, and the three arrays of a batch are equally long.
\<close>

definition ids_ok :: "nat \<Rightarrow> ids \<Rightarrow> bool" where
  "ids_ok n idx = list_all (\<lambda>r. length r = 1 \<and> 0 \<le> hd r \<and> hd r < int n) idx"

definition batches_ok :: "nat \<Rightarrow> nat \<Rightarrow> batches \<Rightarrow> bool" where
  "batches_ok n k bs =
     (case bs of (user_input, item_input_pos, item_input_neg) \<Rightarrow>
        length item_input_pos = length user_input \<and> length item_input_neg = length user_input \<and>
        list_all (\<lambda>(u, ip, ineg). ids_ok n u \<and> ids_ok k ip \<and> ids_ok k ineg \<and>
                     length ip = length u \<and> length ineg = length u)
          (zip user_input (zip item_input_pos item_input_neg)))"

text \<open>
  Frames. \<open>only_parameters_changed\<close>: nothing but the two embedding matrices and the
  optimizer's state differs. \<open>configuration_kept\<close>: nothing but these, the two
  perturbations and the data loader's state differs.
\<close>

definition only_parameters_changed :: "('o, 'd) bprmf \<Rightarrow> ('o, 'd) bprmf \<Rightarrow> bool" where
  "only_parameters_changed m m' =
     (m' = m\<lparr>embedding_P := embedding_P m', embedding_Q := embedding_Q m', optimizer := optimizer m'\<rparr>)"

definition configuration_kept :: "('o, 'd) bprmf \<Rightarrow> ('o, 'd) bprmf \<Rightarrow> bool" where
  "configuration_kept m m' =
     (m' = m\<lparr>data := data m', embedding_P := embedding_P m', embedding_Q := embedding_Q m',
             delta_P := delta_P m', delta_Q := delta_Q m', optimizer := optimizer m'\<rparr>)"

text \<open>
  A library that does not raise on a model with \<open>n\<close> users, \<open>k\<close> items and width \<open>d\<close>:
  gradients of variables of these shapes exist, an optimizer step with gradients shaped as
  their variables goes through, and a shuffle gives at least one batch, all well formed.
\<close>

definition library_succeeds :: "('o, 'd, 'r) library \<Rightarrow> nat \<Rightarrow> nat \<Rightarrow> nat \<Rightarrow> bool" where
  "library_succeeds lib n k d =
     ((\<forall>f P Q. has_shape n d P \<and> has_shape k d Q \<longrightarrow> (\<exists>g. gradient lib f P Q = Inr g)) \<and>
      (\<forall>opt gP P gQ Q. same_shape gP P \<and> same_shape gQ Q \<longrightarrow>
          (\<exists>r. apply_gradients lib opt (gP, P) (gQ, Q) = Inr r)) \<and>
      (\<forall>dl b. \<exists>bs dl'. shuffle lib dl b = Inr (bs, dl') \<and> batches_ok n k bs \<and> fst bs \<noteq> []))"

text \<open>Entry-wise combination of two matrices of one shape, and a perturbed embedding row.\<close>

definition pointwise :: "(real \<Rightarrow> real \<Rightarrow> real) \<Rightarrow> matrix \<Rightarrow> matrix \<Rightarrow> matrix" where
  "pointwise f A B = map2 (map2 f) A B"

definition perturbed_row :: "matrix \<Rightarrow> matrix \<Rightarrow> nat \<Rightarrow> vec" where
  "perturbed_row M D k = map2 (+) (M ! k) (D ! k)"

section \<open>A concrete library and model\<close>

text \<open>
  One user and two items. The data loader's state counts its shuffles and every shuffle
  gives one batch with the one triple (user 0, item 0, item 1); the random generator's
  state counts its draws; the optimizer's state counts its steps and a step is plain
  gradient descent. The first draw gives the user embedding \<open>0.01 e\<^sub>0\<close>, the second the
  item embeddings \<open>0.01 e\<^sub>1\<close> and \<open>0\<close>. With these the score difference of the triple is 0,
  where the derivative of the loss by the difference is \<open>- 1 / 2\<close>, so the gradient of
  the loss is \<open>- (Q\<^sub>0 - Q\<^sub>1) / 2\<close> for the user row and \<open>- P\<^sub>0 / 2\<close>, \<open>P\<^sub>0 / 2\<close> for the two
  item rows: \<open>example_grad_P\<close> and \<open>example_grad_Q\<close>, which the gradient of this library
  returns for variables of that shape.
\<close>

definition example_P :: matrix where
  "example_P = [(1 / 100) # replicate 63 0]"

definition example_Q :: matrix where
  "example_Q = [0 # (1 / 100) # replicate 62 0, replicate 64 0]"

definition example_grad_P :: matrix where
  "example_grad_P = [0 # (- 1 / 200) # replicate 62 0]"

definition example_grad_Q :: matrix where
  "example_grad_Q = [(- 1 / 200) # replicate 63 0, (1 / 200) # replicate 63 0]"

definition example_batches :: batches where
  "example_batches = ([[[0]]], [[[0]]], [[[1]]])"

definition example_library :: "(nat, nat, nat) library" where
  "example_library =
     \<lparr>truncated_normal = (\<lambda>r n d.
         (if r = 0 then replicate n (take d ((1 / 100) # replicate d 0))
          else take n (take d (0 # (1 / 100) # replicate d 0) # replicate n (replicate d 0)),
          Suc r)),
      adagrad = (\<lambda>lr. 0),
      gradient = (\<lambda>f P Q.
         if same_shape P example_P \<and> same_shape Q example_Q
         then Inr (example_grad_P, example_grad_Q) else Inl InvalidArgumentError),
      apply_gradients = (\<lambda>opt (gP, P) (gQ, Q).
         if same_shape gP P \<and> same_shape gQ Q
         then Inr (Suc opt, pointwise (\<lambda>x g. x - g / 20) P gP, pointwise (\<lambda>x g. x - g / 20) Q gQ)
         else Inl InvalidArgumentError),
      shuffle = (\<lambda>dl b. Inr (example_batches, Suc dl)),
      user_input_len = (\<lambda>dl. 1),
      data_num_users = (\<lambda>dl. 1),
      data_num_items = (\<lambda>dl. 2)\<rparr>"

definition example_model :: "(nat, nat) bprmf" where
  "example_model = fst (BPRMF example_library 0 0 ''../rec_result/'' ''../rec_weights/'')"

text \<open>
  The example model after \<^verbatim>\<open>execute_adversarial_attack(epsilon=0.5)\<close>: the data loader has
  shuffled once and the perturbations are the normalised gradients times \<open>1 / 2\<close>.
\<close>

definition example_attacked :: "(nat, nat) bprmf" where
  "example_attacked =
     example_model\<lparr>data := 1,
                   delta_P := [0 # (- 1 / 2) # replicate 62 0],
                   delta_Q := [(- 1 / 2) # replicate 63 0, (1 / 2) # replicate 63 0]\<rparr>"

section \<open>Notions the claims use\<close>

text \<open>The state \<^verbatim>\<open>initialize_perturbations\<close> leaves: both perturbations are zero matrices.\<close>

definition perturbations_reset :: "('o, 'd) bprmf \<Rightarrow> bool" where
  "perturbations_reset m =
     (delta_P m = zeros (num_users m) (embedding_size m) \<and>
      delta_Q m = zeros (num_items m) (embedding_size m))"

text \<open>
  Follows the specification's words, not the code: the perturbation as "L2-normalize
  gradient, scale by epsilon, clip, add", the sum with the embedding matrix \<open>E\<close> being what
  is stored, for clipping bounds \<open>lo\<close> and \<open>hi\<close>. It is compared below with what
  \<open>execute_adversarial_attack\<close> stores.
\<close>

definition spec_perturbation :: "real \<Rightarrow> real \<Rightarrow> matrix \<Rightarrow> matrix \<Rightarrow> real \<Rightarrow> matrix" where
  "spec_perturbation lo hi E g epsilon =
     pointwise (+) E (clip_by_value (scale (l2_normalize g) epsilon) lo hi)"

text \<open>
  An error a method can only have got from a call it makes: Python's own for a list index,
  the tensor operations' for shapes and indices, or one that the data loader's shuffle, the
  gradient or the optimizer step returns for some arguments.
\<close>

definition raised_by_a_call :: "('o, 'd, 'r) library \<Rightarrow> error \<Rightarrow> bool" where
  "raised_by_a_call lib e =
     (e = IndexError \<or> e = InvalidArgumentError \<or>
      (\<exists>dl b. shuffle lib dl b = Inl e) \<or>
      (\<exists>f P Q. gradient lib f P Q = Inl e) \<or>
      (\<exists>opt g1 g2. apply_gradients lib opt g1 g2 = Inl e))"

text \<open>The statement that constructs the model, and the statements that read no other variable than the model and \<open>epsilon\<close>.\<close>

fun is_constructor :: "stmt \<Rightarrow> bool" where
  "is_constructor (New_BPRMF a b) = True"
| "is_constructor c = False"

fun needs_only_model_and_epsilon :: "stmt \<Rightarrow> bool" where
  "needs_only_model_and_epsilon (New_DataLoader a b) = False"
| "needs_only_model_and_epsilon (New_BPRMF a b) = False"
| "needs_only_model_and_epsilon c = True"

text \<open>
  The two prediction methods with the perturbations left out: \<^verbatim>\<open>get_inference\<close> and
  \<^verbatim>\<open>get_full_inference\<close> as they would read without \<^verbatim>\<open>+ self.delta_P\<close> and
  \<^verbatim>\<open>+ self.delta_Q\<close>. A session is reset when its model, if there is one, has zero
  perturbations.
\<close>

definition plain_inference ::
  "matrix \<Rightarrow> matrix \<Rightarrow> matrix \<Rightarrow> ids \<Rightarrow> ids \<Rightarrow> error + (matrix \<times> matrix \<times> matrix)" where
  "plain_inference P Q hh user_input item_input =
     ebind (embedding_lookup P user_input) (\<lambda>lp.
     ebind (embedding_lookup Q item_input) (\<lambda>lq.
     let embedding_p = reduce_sum_1 (width P) lp; embedding_q = reduce_sum_1 (width Q) lq in
     ebind (multiply embedding_p embedding_q) (\<lambda>pq.
     ebind (matmul pq hh) (\<lambda>out. Inr (out, embedding_p, embedding_q)))))"

definition plain_full_inference :: "matrix \<Rightarrow> matrix \<Rightarrow> error + matrix" where
  "plain_full_inference P Q = matmul P (transpose Q)"

definition model_reset :: "('o, 'd, 'r) session \<Rightarrow> bool" where
  "model_reset s = (case recommender_model s of None \<Rightarrow> True | Some m \<Rightarrow> perturbations_reset m)"

section \<open>Concrete surroundings and faulty libraries\<close>

text \<open>
  A data loader that loads at once, and an evaluator that asks for the full prediction
  matrix and reports fixed metrics; the example library with a shuffle that raises from its
  second call on, with a gradient that raises, and with an optimizer step that raises;
  models of the example's size; sessions that hold one and a value for \<open>epsilon\<close>.
\<close>

definition example_surroundings :: "nat surroundings" where
  "example_surroundings =
     \<lparr>new_data_loader = (\<lambda>path_train_data path_test_data. Inr 0),
      evaluate = (\<lambda>inference full_inference dl k. ebind full_inference (\<lambda>F. Inr (1 / 2, 1 / 4, 3 / 4)))\<rparr>"

definition second_shuffle_fails :: "(nat, nat, nat) library" where
  "second_shuffle_fails =
     example_library\<lparr>shuffle := (\<lambda>dl b. if dl = 0 then Inr (example_batches, Suc dl)
                                          else Inl (LibraryError 4))\<rparr>"

definition gradient_fails :: "(nat, nat, nat) library" where
  "gradient_fails = example_library\<lparr>gradient := (\<lambda>f P Q. Inl (LibraryError 2))\<rparr>"

definition optimizer_fails :: "(nat, nat, nat) library" where
  "optimizer_fails = example_library\<lparr>apply_gradients := (\<lambda>opt g1 g2. Inl (LibraryError 3))\<rparr>"

definition example_sized :: "(nat, nat) bprmf \<Rightarrow> bool" where
  "example_sized m =
     (inference_ready m \<and> num_users m = Suc 0 \<and> num_items m = 2 \<and> embedding_size m = 64)"

definition session_ok :: "(nat, nat, nat) session \<Rightarrow> bool" where
  "session_ok s = ((\<exists>m. recommender_model s = Some m \<and> example_sized m) \<and> epsilon_var s \<noteq> None)"

text \<open>A session that holds the example model.\<close>

definition example_session :: "(nat, nat, nat) session" where
  "example_session = (fresh_session 1)\<lparr>data_var := Some 0, recommender_model := Some example_model\<rparr>"
section \<open>Basic facts\<close>

lemma ebind_Inr [simp]: "ebind (Inr x) f = f x" by (simp add: ebind_def)
lemma ebind_Inl [simp]: "ebind (Inl e) f = Inl e" by (simp add: ebind_def)

lemma emap_all_Inr: "(\<And>x. x \<in> set xs \<Longrightarrow> f x = Inr (g x)) \<Longrightarrow> emap f xs = Inr (map g xs)"
  by (induction xs) auto

lemma broadcast_same_length:
  "length xs = length ys \<Longrightarrow> (\<And>x y. (x, y) \<in> set (zip xs ys) \<Longrightarrow> f x y = Inr (g x y))
     \<Longrightarrow> broadcast f xs ys = Inr (map2 g xs ys)"
  by (simp add: broadcast_def) (rule emap_all_Inr, auto)

lemma elementwise_same_shape:
  assumes "has_shape n d A" "has_shape n d B"
  shows "elementwise f A B = Inr (pointwise f A B)"
proof -
  have len: "length A = length B" using assms by (simp add: has_shape_def)
  have rows: "\<And>a b. (a, b) \<in> set (zip A B) \<Longrightarrow> broadcast (\<lambda>x y. Inr (f x y)) a b = Inr (map2 f a b)"
  proof -
    fix a b assume ab: "(a, b) \<in> set (zip A B)"
    then have "a \<in> set A" "b \<in> set B" by (auto dest: set_zip_leftD set_zip_rightD)
    then have "length a = length b" using assms by (simp add: has_shape_def list_all_iff)
    then show "broadcast (\<lambda>x y. Inr (f x y)) a b = Inr (map2 f a b)"
      by (rule broadcast_same_length) simp
  qed
  show ?thesis unfolding elementwise_def pointwise_def by (rule broadcast_same_length[OF len rows])
qed

lemma has_shape_pointwise:
  "has_shape n d A \<Longrightarrow> has_shape n d B \<Longrightarrow> has_shape n d (pointwise f A B)"
  by (auto simp: pointwise_def has_shape_def list_all_iff in_set_zip)

lemma pointwise_nth:
  "has_shape n d A \<Longrightarrow> has_shape n d B \<Longrightarrow> k < n \<Longrightarrow> pointwise f A B ! k = map2 f (A ! k) (B ! k)"
  by (simp add: pointwise_def has_shape_def)

lemma transpose_singleton: "transpose [v] = map (\<lambda>x. [x]) v"
  by (induction v) auto

lemma rect_sorted: "has_shape n d M \<Longrightarrow> sorted (rev (map length M))"
proof -
  assume "has_shape n d M"
  then have "map length M = replicate n d"
    by (auto simp: has_shape_def list_all_iff intro!: replicate_eqI)
  then show ?thesis by (simp add: sorted_replicate)
qed

lemma rect_transpose_transpose:
  assumes "has_shape n d M" "0 < d"
  shows "transpose (transpose M) = M"
proof -
  have "\<forall>r \<in> set M. r \<noteq> []" using assms by (auto simp: has_shape_def list_all_iff)
  then have "takeWhile (\<lambda>x. x \<noteq> []) M = M" by (simp add: takeWhile_eq_all_conv)
  then show ?thesis using transpose_transpose[OF rect_sorted[OF assms(1)]] by simp
qed

lemma pointwise_single: "pointwise f [a] [b] = [map2 f a b]"
  by (simp add: pointwise_def)

lemma transpose_ones: "0 < d \<Longrightarrow> transpose (tf_constant c d (Suc 0)) = [replicate d c]"
proof -
  assume d: "0 < d"
  have "has_shape 1 d [replicate d c]" by (simp add: has_shape_def)
  from rect_transpose_transpose[OF this d] show ?thesis
    by (simp add: transpose_singleton tf_constant_def)
qed

lemma rect_length_transpose:
  assumes "has_shape n d M" "0 < n"
  shows "length (transpose M) = d"
  using assms length_transpose_sorted[OF rect_sorted[OF assms(1)]]
  by (cases M) (auto simp: has_shape_def)

lemma dot_ones: "length v = d \<Longrightarrow> dot v (replicate d 1) = sum_list v"
proof (induction v arbitrary: d)
  case Nil then show ?case by (simp add: dot_def)
next
  case (Cons x v)
  then obtain d' where d: "d = Suc d'" by (cases d) auto
  with Cons.prems have "length v = d'" by simp
  from Cons.IH[OF this] show ?case by (simp add: d dot_def)
qed

lemma lookup_row_ok: "0 \<le> i \<Longrightarrow> i < int (length M) \<Longrightarrow> lookup_row M i = Inr (M ! nat i)"
  by (simp add: lookup_row_def)

lemma has_shape_nth: "has_shape n d M \<Longrightarrow> k < n \<Longrightarrow> length (M ! k) = d"
  by (auto simp: has_shape_def list_all_iff)

lemma full_inference_entry:
  assumes P: "has_shape n d P" "has_shape n d dP" and Q: "has_shape k d Q" "has_shape k d dQ"
    and d: "0 < d" and u: "u < n" and i: "i < k"
  shows "\<exists>F. ebind (add P dP) (\<lambda>P'. ebind (add Q dQ) (\<lambda>Q'. matmul P' (transpose Q'))) = Inr F \<and>
             F ! u ! i = dot (perturbed_row P dP u) (perturbed_row Q dQ i)"
proof -
  let ?P = "pointwise (+) P dP" and ?Q = "pointwise (+) Q dQ"
  have aP: "add P dP = Inr ?P" and aQ: "add Q dQ = Inr ?Q"
    using P Q by (simp_all add: add_def elementwise_same_shape)
  have sP: "has_shape n d ?P" and sQ: "has_shape k d ?Q"
    using P Q by (simp_all add: has_shape_pointwise)
  have lt: "length (transpose ?Q) = d" using rect_length_transpose[OF sQ] i by simp
  have ok: "list_all (\<lambda>r. length r = length (transpose ?Q)) ?P"
    using sP by (simp add: lt has_shape_def)
  have tt: "transpose (transpose ?Q) = ?Q" by (rule rect_transpose_transpose[OF sQ d])
  have lenP: "length ?P = n" and lenQ: "length ?Q = k" using sP sQ by (simp_all add: has_shape_def)
  have "matmul ?P (transpose ?Q) = Inr (map (\<lambda>r. map (dot r) ?Q) ?P)"
    using ok by (simp add: matmul_def tt)
  moreover have "map (\<lambda>r. map (dot r) ?Q) ?P ! u ! i = dot (?P ! u) (?Q ! i)"
    using u i lenP lenQ by simp
  ultimately show ?thesis
    using pointwise_nth[OF P u] pointwise_nth[OF Q i]
    by (simp add: aP aQ perturbed_row_def)
qed

lemma example_model_eq:
  "example_model =
     \<lparr>data = 0, num_users = 1, num_items = 2,
      path_output_rec_result = ''../rec_result/'', path_output_rec_weight = ''../rec_weights/'',
      embedding_size = 64, learning_rate = 5 / 100, reg = 0, epochs = 5, batch_size = 512,
      verbose = 1, embedding_P = example_P, embedding_Q = example_Q,
      h = tf_constant 1 64 1, delta_P = zeros 1 64, delta_Q = zeros 2 64, optimizer = 0\<rparr>"
  by (simp add: example_model_def BPRMF_def example_library_def initialize_model_parameters_def
      initialize_optimizer_def initialize_perturbations_def example_P_def example_Q_def)

lemma example_shapes:
  "has_shape (Suc 0) 64 example_P" "has_shape 2 64 example_Q"
  "has_shape (Suc 0) 64 example_grad_P" "has_shape 2 64 example_grad_Q"
  by (simp_all add: has_shape_def example_P_def example_Q_def example_grad_P_def example_grad_Q_def)

lemma has_shape_zeros: "has_shape n d (zeros n d)"
  by (simp add: has_shape_def zeros_def list_all_iff)

lemma example_model_ready: "inference_ready example_model"
  by (simp add: inference_ready_def shapes_consistent_def example_model_eq example_shapes
      has_shape_zeros)

lemma ebind_eq_Inr: "ebind r f = Inr y \<longleftrightarrow> (\<exists>x. r = Inr x \<and> f x = Inr y)"
  by (cases r) simp_all

lemma ebind_eq_Inl: "ebind r f = Inl e \<longleftrightarrow> r = Inl e \<or> (\<exists>x. r = Inr x \<and> f x = Inl e)"
  by (cases r) simp_all

lemma for_each_invariant:
  assumes "for_each body s is = Inr s'" "I s"
    and "\<And>t i t'. I t \<Longrightarrow> body t i = Inr t' \<Longrightarrow> I t'"
  shows "I s'"
  using assms(1,2)
proof (induction "is" arbitrary: s)
  case Nil
  then show ?case by simp
next
  case (Cons i "is")
  from Cons.prems(1) obtain t where t: "body s i = Inr t" "for_each body t is = Inr s'"
    by (auto simp: ebind_eq_Inr)
  from assms(3)[OF Cons.prems(2) t(1)] have "I t" .
  from Cons.IH[OF t(2) this] show ?case .
qed

lemma only_parameters_changed_refl: "only_parameters_changed m m"
  by (simp add: only_parameters_changed_def)

lemma only_parameters_changed_trans:
  "only_parameters_changed a b \<Longrightarrow> only_parameters_changed b c \<Longrightarrow> only_parameters_changed a c"
  unfolding only_parameters_changed_def
  by (cases a, cases b, cases c) simp

lemma train_batch_frame:
  assumes "train_batch lib bs m i = Inr m'"
  shows "only_parameters_changed m m'"
proof -
  obtain us ps ns where bs: "bs = (us, ps, ns)" by (cases bs) auto
  from assms obtain opt P Q where "m' = m\<lparr>embedding_P := P, embedding_Q := Q, optimizer := opt\<rparr>"
    unfolding train_batch_def bs by (auto simp: ebind_eq_Inr Let_def)
  then show ?thesis by (simp add: only_parameters_changed_def)
qed

lemma has_shape_square: "has_shape n d A \<Longrightarrow> has_shape n d (square A)"
  by (simp add: has_shape_def square_def list_all_iff)

lemma embedding_lookup_ok:
  assumes "ids_ok (length M) idx"
  shows "embedding_lookup M idx = Inr (map (\<lambda>r. [M ! nat (hd r)]) idx)"
  unfolding embedding_lookup_def
proof (rule emap_all_Inr)
  fix r assume "r \<in> set idx"
  with assms have "length r = 1" "0 \<le> hd r" "hd r < int (length M)"
    by (simp_all add: ids_ok_def list_all_iff)
  then obtain i where "r = [i]" "0 \<le> i" "i < int (length M)"
    by (cases r) auto
  then show "emap (lookup_row M) r = Inr [M ! nat (hd r)]" by (simp add: lookup_row_ok)
qed

lemma width_has_shape: "has_shape n d M \<Longrightarrow> 0 < n \<Longrightarrow> width M = d"
  by (cases M) (auto simp: has_shape_def width_def)

lemma map2_add_zeros: "length v = d \<Longrightarrow> map2 (+) v (replicate d (0::real)) = v"
  by (intro nth_equalityI) simp_all

lemma reduce_sum_1_singles:
  assumes "\<And>r. r \<in> set idx \<Longrightarrow> length (f r) = d"
  shows "reduce_sum_1 d (map (\<lambda>r. [f r]) idx) = map f idx"
  using assms by (simp add: reduce_sum_1_def map2_add_zeros)

lemma reduce_sum_1_gather:
  assumes "has_shape n d M" "ids_ok n idx"
  shows "reduce_sum_1 (width M) (map (\<lambda>r. [M ! nat (hd r)]) idx) = map (\<lambda>r. M ! nat (hd r)) idx"
proof (rule reduce_sum_1_singles)
  fix r assume "r \<in> set idx"
  with assms(2) have "0 \<le> hd r" "hd r < int n" by (simp_all add: ids_ok_def list_all_iff)
  then have k: "nat (hd r) < n" by simp
  then have "0 < n" by simp
  from width_has_shape[OF assms(1) this] has_shape_nth[OF assms(1) k]
  show "length (M ! nat (hd r)) = width M" by simp
qed

lemma has_shape_gather:
  assumes "has_shape n d M" "ids_ok n idx"
  shows "has_shape (length idx) d (map (\<lambda>r. M ! nat (hd r)) idx)"
proof -
  have "\<And>r. r \<in> set idx \<Longrightarrow> length (M ! nat (hd r)) = d"
  proof -
    fix r assume "r \<in> set idx"
    with assms(2) have "0 \<le> hd r" "hd r < int n" by (simp_all add: ids_ok_def list_all_iff)
    then have "nat (hd r) < n" by simp
    then show "length (M ! nat (hd r)) = d" by (rule has_shape_nth[OF assms(1)])
  qed
  then show ?thesis by (simp add: has_shape_def list_all_iff)
qed

lemma matmul_ones_rows:
  assumes "has_shape b d A" "0 < d"
  shows "matmul A (tf_constant 1 d (Suc 0)) = Inr (map (\<lambda>r. [sum_list r]) A)"
proof -
  have len: "length (tf_constant 1 d (Suc 0)) = d" by (simp add: tf_constant_def)
  have "\<And>r. r \<in> set A \<Longrightarrow> map (dot r) [replicate d 1] = [sum_list r]"
    using assms(1) by (simp add: has_shape_def list_all_iff dot_ones)
  then show ?thesis using assms
    by (simp add: matmul_def len transpose_ones has_shape_def)
qed

lemma inference_ok:
  assumes P: "has_shape n d P" "has_shape n d dP" and Q: "has_shape k d Q" "has_shape k d dQ"
    and d: "0 < d" and u: "ids_ok n us" and i: "ids_ok k is" and len: "length is = length us"
  shows "\<exists>out p q. inference P Q dP dQ (tf_constant 1 d (Suc 0)) us is = Inr (out, p, q) \<and>
           has_shape (length us) 1 out \<and> has_shape (length us) d p \<and> has_shape (length us) d q"
proof -
  let ?P = "pointwise (+) P dP" and ?Q = "pointwise (+) Q dQ"
  let ?p = "map (\<lambda>r. ?P ! nat (hd r)) us" and ?q = "map (\<lambda>r. ?Q ! nat (hd r)) is"
  have aP: "add P dP = Inr ?P" and aQ: "add Q dQ = Inr ?Q"
    using P Q by (simp_all add: add_def elementwise_same_shape)
  have sP: "has_shape n d ?P" and sQ: "has_shape k d ?Q"
    using P Q by (simp_all add: has_shape_pointwise)
  then have lP: "length ?P = n" and lQ: "length ?Q = k" by (simp_all add: has_shape_def)
  have eP: "embedding_lookup ?P us = Inr (map (\<lambda>r. [?P ! nat (hd r)]) us)"
    using embedding_lookup_ok[of ?P us] u lP by simp
  have eQ: "embedding_lookup ?Q is = Inr (map (\<lambda>r. [?Q ! nat (hd r)]) is)"
    using embedding_lookup_ok[of ?Q "is"] i lQ by simp
  have sp: "has_shape (length us) d ?p" by (rule has_shape_gather[OF sP u])
  have sq: "has_shape (length us) d ?q" using has_shape_gather[OF sQ i] len by simp
  have mul: "multiply ?p ?q = Inr (pointwise (*) ?p ?q)"
    using sp sq by (simp add: multiply_def elementwise_same_shape)
  have spq: "has_shape (length us) d (pointwise (*) ?p ?q)"
    using sp sq by (rule has_shape_pointwise)
  have mm: "matmul (pointwise (*) ?p ?q) (tf_constant 1 d (Suc 0)) =
              Inr (map (\<lambda>r. [sum_list r]) (pointwise (*) ?p ?q))"
    by (rule matmul_ones_rows[OF spq d])
  have so: "has_shape (length us) 1 (map (\<lambda>r. [sum_list r]) (pointwise (*) ?p ?q))"
    using spq by (simp add: has_shape_def list_all_iff)
  have "inference P Q dP dQ (tf_constant 1 d (Suc 0)) us is =
          Inr (map (\<lambda>r. [sum_list r]) (pointwise (*) ?p ?q), ?p, ?q)"
    by (simp add: inference_def aP aQ eP eQ reduce_sum_1_gather[OF sP u]
        reduce_sum_1_gather[OF sQ i] mul mm Let_def)
  with so sp sq show ?thesis by blast
qed

lemma loss_opt_ok:
  assumes P: "has_shape n d P" "has_shape n d dP" and Q: "has_shape k d Q" "has_shape k d dQ"
    and d: "0 < d"
    and gu: "getitem us i = Inr u" and gp: "getitem ps i = Inr ip" and gn: "getitem ns i = Inr ineg"
    and u: "ids_ok n u" and i: "ids_ok k ip" and j: "ids_ok k ineg"
    and len: "length ip = length u" "length ineg = length u"
  shows "\<exists>v. loss_opt rg dP dQ (tf_constant 1 d (Suc 0)) (us, ps, ns) i P Q = Inr v"
    and "\<exists>v. ranking_loss dP dQ (tf_constant 1 d (Suc 0)) (us, ps, ns) i P Q = Inr v"
proof -
  from inference_ok[OF P Q d u i len(1)] obtain o1 p1 q1 where
    1: "inference P Q dP dQ (tf_constant 1 d (Suc 0)) u ip = Inr (o1, p1, q1)"
       "has_shape (length u) 1 o1" "has_shape (length u) d p1" "has_shape (length u) d q1"
    by blast
  from inference_ok[OF P Q d u j len(2)] obtain o2 p2 q2 where
    2: "inference P Q dP dQ (tf_constant 1 d (Suc 0)) u ineg = Inr (o2, p2, q2)"
       "has_shape (length u) 1 o2" "has_shape (length u) d p2" "has_shape (length u) d q2"
    by blast
  have sub: "subtract o1 o2 = Inr (pointwise (-) o1 o2)"
    using 1(2) 2(2) by (simp add: subtract_def elementwise_same_shape)
  have rl: "ranking_loss dP dQ (tf_constant 1 d (Suc 0)) (us, ps, ns) i P Q =
      Inr (reduce_sum (softplus (negate (clip_by_value (pointwise (-) o1 o2) (- 80) (10 ^ 8)))), p1, q1, q2)"
    by (simp add: ranking_loss_def gu gp gn 1(1) 2(1) sub)
  have a1: "add (square p1) (square q1) = Inr (pointwise (+) (square p1) (square q1))"
    using 1(3,4) by (simp add: add_def elementwise_same_shape[OF has_shape_square has_shape_square])
  have "has_shape (length u) d (pointwise (+) (square p1) (square q1))"
    using 1(3,4) by (simp add: has_shape_pointwise has_shape_square)
  then have a2: "add (pointwise (+) (square p1) (square q1)) (square q2) =
      Inr (pointwise (+) (pointwise (+) (square p1) (square q1)) (square q2))"
    using 2(4) by (simp add: add_def elementwise_same_shape[OF _ has_shape_square])
  show "\<exists>v. ranking_loss dP dQ (tf_constant 1 d (Suc 0)) (us, ps, ns) i P Q = Inr v"
    using rl by simp
  show "\<exists>v. loss_opt rg dP dQ (tf_constant 1 d (Suc 0)) (us, ps, ns) i P Q = Inr v"
    by (simp add: loss_opt_def rl reg_loss_def a1 a2)
qed

lemma has_shape_iff: "has_shape n d M \<longleftrightarrow> map length M = replicate n d"
proof
  assume "has_shape n d M"
  then show "map length M = replicate n d"
    by (auto simp: has_shape_def list_all_iff intro!: replicate_eqI)
next
  assume a: "map length M = replicate n d"
  then have "length (map length M) = n" by simp
  moreover have "\<And>r. r \<in> set M \<Longrightarrow> length r = d"
  proof -
    fix r assume "r \<in> set M"
    then have "length r \<in> set (map length M)" by simp
    then show "length r = d" unfolding a by simp
  qed
  ultimately show "has_shape n d M" by (simp add: has_shape_def list_all_iff)
qed

lemma same_shape_has_shape: "same_shape A B \<Longrightarrow> has_shape n d B \<Longrightarrow> has_shape n d A"
  by (simp add: has_shape_iff same_shape_def)

lemma has_shape_scale: "has_shape n d A \<Longrightarrow> has_shape n d (scale A c)"
  by (simp add: has_shape_iff scale_def comp_def)

lemma has_shape_l2_normalize: "has_shape n d A \<Longrightarrow> has_shape n d (l2_normalize A)"
  by (simp add: has_shape_iff l2_normalize_def l2_normalize_row_def comp_def)

lemma configuration_kept_refl: "configuration_kept m m"
  by (simp add: configuration_kept_def)

lemma configuration_kept_trans:
  "configuration_kept a b \<Longrightarrow> configuration_kept b c \<Longrightarrow> configuration_kept a c"
  unfolding configuration_kept_def by (cases a, cases b, cases c) simp

lemma configuration_keptD:
  assumes "configuration_kept m m'"
  shows "num_users m' = num_users m" "num_items m' = num_items m"
    "embedding_size m' = embedding_size m" "h m' = h m" "reg m' = reg m"
    "batch_size m' = batch_size m" "epochs m' = epochs m"
    "path_output_rec_result m' = path_output_rec_result m"
    "path_output_rec_weight m' = path_output_rec_weight m"
  using assms unfolding configuration_kept_def by (cases m, cases m', simp)+

lemma only_parameters_changedD:
  assumes "only_parameters_changed m m'"
  shows "delta_P m' = delta_P m" "delta_Q m' = delta_Q m" "data m' = data m"
  using assms unfolding only_parameters_changed_def by (cases m, cases m', simp)+

lemma only_parameters_changed_kept: "only_parameters_changed m m' \<Longrightarrow> configuration_kept m m'"
  unfolding only_parameters_changed_def configuration_kept_def by (cases m, cases m', simp)

lemma initialize_perturbations_kept: "configuration_kept m (initialize_perturbations m)"
  by (simp add: configuration_kept_def initialize_perturbations_def)

lemma execute_adversarial_attack_result:
  assumes "execute_adversarial_attack lib epsilon m = Inr m'"
  shows "\<exists>bs dl grad_P grad_Q.
           shuffle lib (data m) (user_input_len lib (data m)) = Inr (bs, dl) \<and>
           gradient lib
             (loss_opt (reg m) (zeros (num_users m) (embedding_size m))
                (zeros (num_items m) (embedding_size m)) (h m) bs 0)
             (embedding_P m) (embedding_Q m) = Inr (grad_P, grad_Q) \<and>
           m' = m\<lparr>data := dl,
                  delta_P := scale (l2_normalize grad_P) epsilon,
                  delta_Q := scale (l2_normalize grad_Q) epsilon\<rparr>"
  using assms unfolding execute_adversarial_attack_def
  by (auto simp: ebind_eq_Inr Let_def initialize_perturbations_def)

lemma shape_preservingD:
  assumes "shape_preserving lib"
  shows "has_shape n d (fst (truncated_normal lib r n d))"
    and "gradient lib f P Q = Inr (gP, gQ) \<Longrightarrow> same_shape gP P \<and> same_shape gQ Q"
    and "apply_gradients lib opt (gP, P) (gQ, Q) = Inr (opt', P', Q') \<Longrightarrow>
           same_shape P' P \<and> same_shape Q' Q"
  using assms unfolding shape_preserving_def by blast+

lemma execute_adversarial_attack_shapes:
  assumes lib: "shape_preserving lib" and m: "shapes_consistent m"
    and run: "execute_adversarial_attack lib epsilon m = Inr m'"
  shows "shapes_consistent m'" and "configuration_kept m m'"
    and "embedding_P m' = embedding_P m" and "embedding_Q m' = embedding_Q m"
    and "optimizer m' = optimizer m"
proof -
  from execute_adversarial_attack_result[OF run] obtain dl f grad_P grad_Q where
    g: "gradient lib f (embedding_P m) (embedding_Q m) = Inr (grad_P, grad_Q)" and
    m': "m' = m\<lparr>data := dl, delta_P := scale (l2_normalize grad_P) epsilon,
                 delta_Q := scale (l2_normalize grad_Q) epsilon\<rparr>"
    by blast
  from shape_preservingD(2)[OF lib g] m
  have "has_shape (num_users m) (embedding_size m) grad_P"
       "has_shape (num_items m) (embedding_size m) grad_Q"
    by (auto simp: shapes_consistent_def intro: same_shape_has_shape)
  then show "shapes_consistent m'" using m
    by (simp add: m' shapes_consistent_def has_shape_scale has_shape_l2_normalize)
  show "configuration_kept m m'" by (simp add: m' configuration_kept_def)
  show "embedding_P m' = embedding_P m" "embedding_Q m' = embedding_Q m"
    "optimizer m' = optimizer m" by (simp_all add: m')
qed

lemma train_batch_shapes:
  assumes lib: "shape_preserving lib" and m: "shapes_consistent m"
    and run: "train_batch lib bs m i = Inr m'"
  shows "shapes_consistent m'"
proof -
  obtain us ps ns where bs: "bs = (us, ps, ns)" by (cases bs) auto
  from run obtain f gP gQ opt P Q where
    a: "apply_gradients lib (optimizer m) (gP, embedding_P m) (gQ, embedding_Q m) = Inr (opt, P, Q)"
    and m': "m' = m\<lparr>embedding_P := P, embedding_Q := Q, optimizer := opt\<rparr>"
    unfolding train_batch_def bs by (auto simp: ebind_eq_Inr Let_def)
  from shape_preservingD(3)[OF lib a] m show ?thesis
    by (auto simp: m' shapes_consistent_def intro: same_shape_has_shape)
qed

lemma train_step_shapes:
  assumes "shape_preserving lib" "shapes_consistent m" "train_step lib m bs = Inr m'"
  shows "shapes_consistent m'"
  using assms(3,2) unfolding train_step_def
  by (rule for_each_invariant) (rule train_batch_shapes[OF assms(1)])

lemma adversarial_train_batch_shapes:
  assumes lib: "shape_preserving lib" and m: "shapes_consistent m"
    and run: "adversarial_train_batch lib epsilon bs m i = Inr m'"
  shows "shapes_consistent m'" and "configuration_kept m m'"
proof -
  obtain us ps ns where bs: "bs = (us, ps, ns)" by (cases bs) auto
  from run obtain m1 f gP gQ opt P Q where
    att: "execute_adversarial_attack lib epsilon m = Inr m1" and
    a: "apply_gradients lib (optimizer m1) (gP, embedding_P m1) (gQ, embedding_Q m1) = Inr (opt, P, Q)"
    and m': "m' = m1\<lparr>embedding_P := P, embedding_Q := Q, optimizer := opt\<rparr>"
    unfolding adversarial_train_batch_def bs by (auto simp: ebind_eq_Inr Let_def)
  note s1 = execute_adversarial_attack_shapes[OF lib m att]
  from shape_preservingD(3)[OF lib a] s1(1) show "shapes_consistent m'"
    by (auto simp: m' shapes_consistent_def intro: same_shape_has_shape)
  have "configuration_kept m1 m'" by (simp add: m' configuration_kept_def)
  with s1(2) show "configuration_kept m m'" by (rule configuration_kept_trans)
qed

lemma initialize_perturbations_shapes:
  "shapes_consistent m \<Longrightarrow> shapes_consistent (initialize_perturbations m)"
  by (simp add: shapes_consistent_def initialize_perturbations_def has_shape_zeros)

lemma adversarial_train_step_shapes:
  assumes "shape_preserving lib" "shapes_consistent m"
    "adversarial_train_step lib m bs epsilon = Inr m'"
  shows "shapes_consistent m'"
proof -
  from assms(3) obtain m1 where
    l: "for_each (adversarial_train_batch lib epsilon bs) m [0 ..< length (fst bs)] = Inr m1"
    and m': "m' = initialize_perturbations m1"
    unfolding adversarial_train_step_def by (auto simp: ebind_eq_Inr)
  from l assms(2) have "shapes_consistent m1"
    by (rule for_each_invariant) (rule adversarial_train_batch_shapes(1)[OF assms(1)])
  then show ?thesis unfolding m' by (rule initialize_perturbations_shapes)
qed

lemma BPRMF_shapes:
  assumes "shape_preserving lib"
  shows "shapes_consistent (fst (BPRMF lib r dl p1 p2))"
proof -
  obtain P r1 where P: "truncated_normal lib r (data_num_users lib dl) 64 = (P, r1)"
    by (cases "truncated_normal lib r (data_num_users lib dl) 64") auto
  obtain Q r2 where Q: "truncated_normal lib r1 (data_num_items lib dl) 64 = (Q, r2)"
    by (cases "truncated_normal lib r1 (data_num_items lib dl) 64") auto
  from shape_preservingD(1)[OF assms, of "data_num_users lib dl" 64 r] P
  have sP: "has_shape (data_num_users lib dl) 64 P" by simp
  from shape_preservingD(1)[OF assms, of "data_num_items lib dl" 64 r1] Q
  have sQ: "has_shape (data_num_items lib dl) 64 Q" by simp
  show ?thesis
    by (simp add: BPRMF_def initialize_model_parameters_def initialize_optimizer_def
        initialize_perturbations_def P Q shapes_consistent_def sP sQ has_shape_zeros)
qed

lemma train_epoch_shapes:
  assumes lib: "shape_preserving lib" and m: "shapes_consistent m"
    and run: "train_epoch lib m epoch = Inr m'"
  shows "shapes_consistent m'"
proof -
  from run obtain bs dl where "train_step lib (m\<lparr>data := dl\<rparr>) bs = Inr m'"
    unfolding train_epoch_def by (auto simp: ebind_eq_Inr)
  moreover have "shapes_consistent (m\<lparr>data := dl\<rparr>)" using m by (simp add: shapes_consistent_def)
  ultimately show ?thesis by (rule train_step_shapes[OF lib, rotated])
qed

lemma adversarial_train_epoch_shapes:
  assumes lib: "shape_preserving lib" and m: "shapes_consistent m"
    and run: "adversarial_train_epoch lib epsilon m epoch = Inr m'"
  shows "shapes_consistent m'"
proof -
  from run obtain bs dl where "adversarial_train_step lib (m\<lparr>data := dl\<rparr>) bs epsilon = Inr m'"
    unfolding adversarial_train_epoch_def by (auto simp: ebind_eq_Inr)
  moreover have "shapes_consistent (m\<lparr>data := dl\<rparr>)" using m by (simp add: shapes_consistent_def)
  ultimately show ?thesis by (rule adversarial_train_step_shapes[OF lib, rotated])
qed

lemma library_succeedsD:
  assumes "library_succeeds lib n k d"
  shows "has_shape n d P \<Longrightarrow> has_shape k d Q \<Longrightarrow> \<exists>gP gQ. gradient lib f P Q = Inr (gP, gQ)"
    and "same_shape gP P \<Longrightarrow> same_shape gQ Q \<Longrightarrow>
           \<exists>opt' P' Q'. apply_gradients lib opt (gP, P) (gQ, Q) = Inr (opt', P', Q')"
    and "\<exists>us ps ns dl'. shuffle lib dl b = Inr ((us, ps, ns), dl') \<and> batches_ok n k (us, ps, ns) \<and> us \<noteq> []"
proof -
  show "has_shape n d P \<Longrightarrow> has_shape k d Q \<Longrightarrow> \<exists>gP gQ. gradient lib f P Q = Inr (gP, gQ)"
    using assms unfolding library_succeeds_def by (metis surj_pair)
  show "same_shape gP P \<Longrightarrow> same_shape gQ Q \<Longrightarrow>
           \<exists>opt' P' Q'. apply_gradients lib opt (gP, P) (gQ, Q) = Inr (opt', P', Q')"
    using assms unfolding library_succeeds_def by (metis surj_pair)
  from assms obtain bs dl' where "shuffle lib dl b = Inr (bs, dl')" "batches_ok n k bs" "fst bs \<noteq> []"
    unfolding library_succeeds_def by blast
  then show "\<exists>us ps ns dl'. shuffle lib dl b = Inr ((us, ps, ns), dl') \<and> batches_ok n k (us, ps, ns) \<and> us \<noteq> []"
    by (cases bs) auto
qed

lemma batches_okD:
  assumes "batches_ok n k (us, ps, ns)" "i < length us"
  shows "getitem us i = Inr (us ! i)" "getitem ps i = Inr (ps ! i)" "getitem ns i = Inr (ns ! i)"
    "ids_ok n (us ! i)" "ids_ok k (ps ! i)" "ids_ok k (ns ! i)"
    "length (ps ! i) = length (us ! i)" "length (ns ! i) = length (us ! i)"
proof -
  from assms(1) have len: "length ps = length us" "length ns = length us"
    and all: "list_all (\<lambda>(u, ip, ineg). ids_ok n u \<and> ids_ok k ip \<and> ids_ok k ineg \<and>
                     length ip = length u \<and> length ineg = length u) (zip us (zip ps ns))"
    by (simp_all add: batches_ok_def)
  from len assms(2) have "i < length (zip us (zip ps ns))" by simp
  with all have "(\<lambda>(u, ip, ineg). ids_ok n u \<and> ids_ok k ip \<and> ids_ok k ineg \<and>
                     length ip = length u \<and> length ineg = length u) (zip us (zip ps ns) ! i)"
    by (simp only: list_all_length)
  then show "ids_ok n (us ! i)" "ids_ok k (ps ! i)" "ids_ok k (ns ! i)"
    "length (ps ! i) = length (us ! i)" "length (ns ! i) = length (us ! i)"
    using len assms(2) by simp_all
  show "getitem us i = Inr (us ! i)" "getitem ps i = Inr (ps ! i)" "getitem ns i = Inr (ns ! i)"
    using len assms(2) by (simp_all add: getitem_def)
qed

lemma for_each_progress:
  assumes "I s" and "\<And>t i. I t \<Longrightarrow> i \<in> set is \<Longrightarrow> \<exists>t'. body t i = Inr t' \<and> I t'"
  shows "\<exists>s'. for_each body s is = Inr s' \<and> I s'"
  using assms
proof (induction "is" arbitrary: s)
  case Nil
  then show ?case by simp
next
  case (Cons i "is")
  from Cons.prems(2)[OF Cons.prems(1), of i] obtain t where t: "body s i = Inr t" "I t" by auto
  from Cons.IH[OF t(2)] Cons.prems(2) obtain s' where "for_each body t is = Inr s'" "I s'"
    by (metis list.set_intros(2))
  with t show ?case by simp
qed

lemma inference_ready_kept:
  "inference_ready m \<Longrightarrow> configuration_kept m m' \<Longrightarrow> shapes_consistent m' \<Longrightarrow> inference_ready m'"
  by (simp add: inference_ready_def configuration_keptD)

lemma loss_opt_model_ok:
  assumes ready: "inference_ready m" and bs: "batches_ok (num_users m) (num_items m) (us, ps, ns)"
    and i: "i < length us"
  shows "\<exists>v. loss_opt rg (delta_P m) (delta_Q m) (h m) (us, ps, ns) i
               (embedding_P m) (embedding_Q m) = Inr v"
    and "\<exists>v. ranking_loss (delta_P m) (delta_Q m) (h m) (us, ps, ns) i
               (embedding_P m) (embedding_Q m) = Inr v"
proof -
  from ready have r: "0 < embedding_size m"
    "has_shape (num_users m) (embedding_size m) (embedding_P m)"
    "has_shape (num_users m) (embedding_size m) (delta_P m)"
    "has_shape (num_items m) (embedding_size m) (embedding_Q m)"
    "has_shape (num_items m) (embedding_size m) (delta_Q m)"
    "h m = tf_constant 1 (embedding_size m) (Suc 0)"
    by (simp_all add: inference_ready_def shapes_consistent_def)
  note b = batches_okD[OF bs i]
  show "\<exists>v. loss_opt rg (delta_P m) (delta_Q m) (h m) (us, ps, ns) i
               (embedding_P m) (embedding_Q m) = Inr v"
    unfolding r(6)
    by (rule loss_opt_ok(1)[OF r(2) r(3) r(4) r(5) r(1) b(1) b(2) b(3) b(4) b(5) b(6) b(7) b(8)])
  show "\<exists>v. ranking_loss (delta_P m) (delta_Q m) (h m) (us, ps, ns) i
               (embedding_P m) (embedding_Q m) = Inr v"
    unfolding r(6)
    by (rule loss_opt_ok(2)[OF r(2) r(3) r(4) r(5) r(1) b(1) b(2) b(3) b(4) b(5) b(6) b(7) b(8)])
qed

lemma train_batch_progress:
  assumes ready: "inference_ready m" and lib: "shape_preserving lib"
    and ok: "library_succeeds lib (num_users m) (num_items m) (embedding_size m)"
    and bs: "batches_ok (num_users m) (num_items m) bs" and i: "i < length (fst bs)"
  shows "\<exists>m'. train_batch lib bs m i = Inr m'"
proof -
  obtain us ps ns where bsd: "bs = (us, ps, ns)" by (cases bs) auto
  from i have i': "i < length us" by (simp add: bsd)
  from loss_opt_model_ok(1)[OF ready bs[unfolded bsd] i'] obtain v where
    v: "loss_opt (reg m) (delta_P m) (delta_Q m) (h m) bs i
          (embedding_P m) (embedding_Q m) = Inr v" unfolding bsd by blast
  from ready have sh: "has_shape (num_users m) (embedding_size m) (embedding_P m)"
    "has_shape (num_items m) (embedding_size m) (embedding_Q m)"
    by (simp_all add: inference_ready_def shapes_consistent_def)
  from library_succeedsD(1)[OF ok sh] obtain gP gQ where
    g: "gradient lib (loss_opt (reg m) (delta_P m) (delta_Q m) (h m) bs i)
          (embedding_P m) (embedding_Q m) = Inr (gP, gQ)" by blast
  from shape_preservingD(2)[OF lib g] have "same_shape gP (embedding_P m)" "same_shape gQ (embedding_Q m)"
    by simp_all
  from library_succeedsD(2)[OF ok this] obtain opt P Q where
    "apply_gradients lib (optimizer m) (gP, embedding_P m) (gQ, embedding_Q m) = Inr (opt, P, Q)"
    by blast
  with v g show ?thesis
    by (simp add: train_batch_def Let_def)
qed

lemma train_batch_ready:
  assumes "shape_preserving lib" "inference_ready m" "train_batch lib bs m i = Inr m'"
  shows "inference_ready m'" "configuration_kept m m'"
proof -
  show k: "configuration_kept m m'"
    by (rule only_parameters_changed_kept[OF train_batch_frame[OF assms(3)]])
  from assms(2) have "shapes_consistent m" by (simp add: inference_ready_def)
  from train_batch_shapes[OF assms(1) this assms(3)] show "inference_ready m'"
    by (rule inference_ready_kept[OF assms(2) k])
qed

lemma train_step_progress:
  assumes ready: "inference_ready m" and lib: "shape_preserving lib"
    and ok: "library_succeeds lib (num_users m) (num_items m) (embedding_size m)"
    and bs: "batches_ok (num_users m) (num_items m) bs"
  shows "\<exists>m'. train_step lib m bs = Inr m' \<and> inference_ready m' \<and> configuration_kept m m'"
  unfolding train_step_def
proof (rule for_each_progress[where I = "\<lambda>t. inference_ready t \<and> configuration_kept m t"])
  show "inference_ready m \<and> configuration_kept m m" using ready by (simp add: configuration_kept_refl)
next
  fix t i assume t: "inference_ready t \<and> configuration_kept m t" and i: "i \<in> set [0 ..< length (fst bs)]"
  note k = configuration_keptD[OF conjunct2[OF t]]
  have "\<exists>t'. train_batch lib bs t i = Inr t'"
    by (rule train_batch_progress[OF conjunct1[OF t] lib]) (use ok bs i k in simp_all)
  then obtain t' where t': "train_batch lib bs t i = Inr t'" by blast
  from train_batch_ready[OF lib conjunct1[OF t] t'] t
  show "\<exists>t'. train_batch lib bs t i = Inr t' \<and> inference_ready t' \<and> configuration_kept m t'"
    using t' by (blast intro: configuration_kept_trans)
qed

lemma data_update_ready: "inference_ready m \<Longrightarrow> inference_ready (m\<lparr>data := dl\<rparr>)"
  by (simp add: inference_ready_def shapes_consistent_def)

lemma data_update_kept: "configuration_kept m (m\<lparr>data := dl\<rparr>)"
  by (simp add: configuration_kept_def)

lemma train_progress:
  assumes ready: "inference_ready m" and lib: "shape_preserving lib"
    and ok: "library_succeeds lib (num_users m) (num_items m) (embedding_size m)"
  shows "\<exists>m'. train lib m = Inr m' \<and> inference_ready m' \<and> configuration_kept m m'"
  unfolding train_def
proof (rule for_each_progress[where I = "\<lambda>t. inference_ready t \<and> configuration_kept m t"])
  show "inference_ready m \<and> configuration_kept m m" using ready by (simp add: configuration_kept_refl)
next
  fix t epoch assume t: "inference_ready t \<and> configuration_kept m t"
  note k = configuration_keptD[OF conjunct2[OF t]]
  from library_succeedsD(3)[OF ok, of "data t" "batch_size t"] obtain us ps ns dl where
    sh: "shuffle lib (data t) (batch_size t) = Inr ((us, ps, ns), dl)"
    and b: "batches_ok (num_users m) (num_items m) (us, ps, ns)" by blast
  let ?t = "t\<lparr>data := dl\<rparr>"
  have "\<exists>t'. train_step lib ?t (us, ps, ns) = Inr t' \<and> inference_ready t' \<and> configuration_kept ?t t'"
    by (rule train_step_progress[OF data_update_ready[OF conjunct1[OF t]] lib])
       (use ok b k in simp_all)
  then obtain t' where t': "train_step lib ?t (us, ps, ns) = Inr t'" "inference_ready t'"
    "configuration_kept ?t t'" by blast
  have "configuration_kept m t'"
    using t t'(3) data_update_kept[of t dl] by (blast intro: configuration_kept_trans)
  with t' sh show "\<exists>t'. train_epoch lib t epoch = Inr t' \<and> inference_ready t' \<and> configuration_kept m t'"
    by (simp add: train_epoch_def)
qed

lemma initialize_perturbations_ready:
  "inference_ready m \<Longrightarrow> inference_ready (initialize_perturbations m)"
  by (rule inference_ready_kept[OF _ initialize_perturbations_kept])
     (simp_all add: inference_ready_def initialize_perturbations_shapes)

lemma execute_adversarial_attack_progress:
  assumes ready: "inference_ready m" and lib: "shape_preserving lib"
    and ok: "library_succeeds lib (num_users m) (num_items m) (embedding_size m)"
  shows "\<exists>m'. execute_adversarial_attack lib epsilon m = Inr m'"
proof -
  from library_succeedsD(3)[OF ok, of "data m" "user_input_len lib (data m)"] obtain us ps ns dl where
    sh: "shuffle lib (data m) (user_input_len lib (data m)) = Inr ((us, ps, ns), dl)"
    and b: "batches_ok (num_users m) (num_items m) (us, ps, ns)" and ne: "us \<noteq> []" by blast
  let ?m = "initialize_perturbations (m\<lparr>data := dl\<rparr>)"
  have r1: "inference_ready ?m"
    by (rule initialize_perturbations_ready[OF data_update_ready[OF ready]])
  have dims: "num_users ?m = num_users m" "num_items ?m = num_items m"
    "embedding_size ?m = embedding_size m"
    by (simp_all add: initialize_perturbations_def)
  from ne have i: "0 < length us" by simp
  from loss_opt_model_ok(1)[OF r1 b[folded dims(1,2)] i] obtain v where
    v: "loss_opt (reg ?m) (delta_P ?m) (delta_Q ?m) (h ?m) (us, ps, ns) 0
          (embedding_P ?m) (embedding_Q ?m) = Inr v" by blast
  from r1 have sh1: "has_shape (num_users m) (embedding_size m) (embedding_P ?m)"
    "has_shape (num_items m) (embedding_size m) (embedding_Q ?m)"
    by (simp_all add: inference_ready_def shapes_consistent_def dims)
  from library_succeedsD(1)[OF ok sh1] obtain gP gQ where
    "gradient lib (loss_opt (reg ?m) (delta_P ?m) (delta_Q ?m) (h ?m) (us, ps, ns) 0)
          (embedding_P ?m) (embedding_Q ?m) = Inr (gP, gQ)" by blast
  with sh v show ?thesis
    by (simp add: execute_adversarial_attack_def Let_def)
qed

lemma execute_adversarial_attack_ready:
  assumes "shape_preserving lib" "inference_ready m" "execute_adversarial_attack lib epsilon m = Inr m'"
  shows "inference_ready m'"
proof -
  from assms(2) have s: "shapes_consistent m" by (simp add: inference_ready_def)
  note a = execute_adversarial_attack_shapes[OF assms(1) s assms(3)]
  show ?thesis by (rule inference_ready_kept[OF assms(2) a(2) a(1)])
qed

lemma adversarial_train_batch_progress:
  assumes ready: "inference_ready m" and lib: "shape_preserving lib"
    and ok: "library_succeeds lib (num_users m) (num_items m) (embedding_size m)"
    and bs: "batches_ok (num_users m) (num_items m) bs" and i: "i < length (fst bs)"
  shows "\<exists>m'. adversarial_train_batch lib epsilon bs m i = Inr m'"
proof -
  obtain us ps ns where bsd: "bs = (us, ps, ns)" by (cases bs) auto
  from i have i': "i < length us" by (simp add: bsd)
  from loss_opt_model_ok(1)[OF ready bs[unfolded bsd] i'] obtain v where
    v: "loss_opt (reg m) (delta_P m) (delta_Q m) (h m) bs i
          (embedding_P m) (embedding_Q m) = Inr v" unfolding bsd by blast
  from execute_adversarial_attack_progress[OF ready lib ok] obtain m1 where
    att: "execute_adversarial_attack lib epsilon m = Inr m1" by blast
  from ready have s: "shapes_consistent m" by (simp add: inference_ready_def)
  note a = execute_adversarial_attack_shapes[OF lib s att]
  note k = configuration_keptD[OF a(2)]
  have r1: "inference_ready m1" by (rule execute_adversarial_attack_ready[OF lib ready att])
  from r1 have sh: "has_shape (num_users m) (embedding_size m) (embedding_P m1)"
    "has_shape (num_items m) (embedding_size m) (embedding_Q m1)"
    by (simp_all add: inference_ready_def shapes_consistent_def k)
  have b1: "batches_ok (num_users m1) (num_items m1) (us, ps, ns)"
    using bs by (simp add: bsd k)
  from loss_opt_model_ok(2)[OF r1 b1 i'] obtain w where
    w: "ranking_loss (delta_P m1) (delta_Q m1) (h m1) bs i
          (embedding_P m1) (embedding_Q m1) = Inr w" unfolding bsd by blast
  let ?f = "amf_loss 1 (reg m) (delta_P m) (delta_Q m) (delta_P m1) (delta_Q m1) (h m1) bs i"
  have f: "\<exists>l. ?f (embedding_P m1) (embedding_Q m1) = Inr l"
    using v w by (cases w) (simp add: amf_loss_def a(3) a(4) k(4))
  from library_succeedsD(1)[OF ok sh] obtain gP gQ where
    g: "gradient lib ?f (embedding_P m1) (embedding_Q m1) = Inr (gP, gQ)" by blast
  from shape_preservingD(2)[OF lib g]
  have "same_shape gP (embedding_P m1)" "same_shape gQ (embedding_Q m1)" by simp_all
  from library_succeedsD(2)[OF ok this] obtain opt P Q where
    "apply_gradients lib (optimizer m1) (gP, embedding_P m1) (gQ, embedding_Q m1) = Inr (opt, P, Q)"
    by blast
  with v att f g show ?thesis
    by (auto simp: adversarial_train_batch_def Let_def)
qed

lemma adversarial_train_batch_ready:
  assumes "shape_preserving lib" "inference_ready m" "adversarial_train_batch lib epsilon bs m i = Inr m'"
  shows "inference_ready m'" "configuration_kept m m'"
proof -
  from assms(2) have s: "shapes_consistent m" by (simp add: inference_ready_def)
  note a = adversarial_train_batch_shapes[OF assms(1) s assms(3)]
  show "configuration_kept m m'" by (rule a(2))
  show "inference_ready m'" by (rule inference_ready_kept[OF assms(2) a(2) a(1)])
qed

lemma adversarial_train_step_progress:
  assumes ready: "inference_ready m" and lib: "shape_preserving lib"
    and ok: "library_succeeds lib (num_users m) (num_items m) (embedding_size m)"
    and bs: "batches_ok (num_users m) (num_items m) bs"
  shows "\<exists>m'. adversarial_train_step lib m bs epsilon = Inr m' \<and> inference_ready m' \<and>
           configuration_kept m m'"
proof -
  have "\<exists>m1. for_each (adversarial_train_batch lib epsilon bs) m [0 ..< length (fst bs)] = Inr m1 \<and>
          (inference_ready m1 \<and> configuration_kept m m1)"
  proof (rule for_each_progress[where I = "\<lambda>t. inference_ready t \<and> configuration_kept m t"])
    show "inference_ready m \<and> configuration_kept m m" using ready by (simp add: configuration_kept_refl)
  next
    fix t i assume t: "inference_ready t \<and> configuration_kept m t" and i: "i \<in> set [0 ..< length (fst bs)]"
    note k = configuration_keptD[OF conjunct2[OF t]]
    have "\<exists>t'. adversarial_train_batch lib epsilon bs t i = Inr t'"
      by (rule adversarial_train_batch_progress[OF conjunct1[OF t] lib]) (use ok bs i k in simp_all)
    then obtain t' where t': "adversarial_train_batch lib epsilon bs t i = Inr t'" by blast
    from adversarial_train_batch_ready[OF lib conjunct1[OF t] t'] t
    show "\<exists>t'. adversarial_train_batch lib epsilon bs t i = Inr t' \<and> inference_ready t' \<and> configuration_kept m t'"
      using t' by (blast intro: configuration_kept_trans)
  qed
  then obtain m1 where m1: "for_each (adversarial_train_batch lib epsilon bs) m [0 ..< length (fst bs)] = Inr m1"
    "inference_ready m1" "configuration_kept m m1" by blast
  have "configuration_kept m (initialize_perturbations m1)"
    using m1(3) initialize_perturbations_kept by (rule configuration_kept_trans)
  with m1 initialize_perturbations_ready[OF m1(2)] show ?thesis
    by (simp add: adversarial_train_step_def)
qed

lemma adversarial_train_progress:
  assumes ready: "inference_ready m" and lib: "shape_preserving lib"
    and ok: "library_succeeds lib (num_users m) (num_items m) (embedding_size m)"
  shows "\<exists>m'. adversarial_train lib adversarial_epochs epsilon m = Inr m' \<and> inference_ready m' \<and>
           configuration_kept m m'"
  unfolding adversarial_train_def
proof (rule for_each_progress[where I = "\<lambda>t. inference_ready t \<and> configuration_kept m t"])
  show "inference_ready m \<and> configuration_kept m m" using ready by (simp add: configuration_kept_refl)
next
  fix t epoch assume t: "inference_ready t \<and> configuration_kept m t"
  note k = configuration_keptD[OF conjunct2[OF t]]
  from library_succeedsD(3)[OF ok, of "data t" "batch_size t"] obtain us ps ns dl where
    sh: "shuffle lib (data t) (batch_size t) = Inr ((us, ps, ns), dl)"
    and b: "batches_ok (num_users m) (num_items m) (us, ps, ns)" by blast
  let ?t = "t\<lparr>data := dl\<rparr>"
  have "\<exists>t'. adversarial_train_step lib ?t (us, ps, ns) epsilon = Inr t' \<and> inference_ready t' \<and>
          configuration_kept ?t t'"
    by (rule adversarial_train_step_progress[OF data_update_ready[OF conjunct1[OF t]] lib])
       (use ok b k in simp_all)
  then obtain t' where t': "adversarial_train_step lib ?t (us, ps, ns) epsilon = Inr t'"
    "inference_ready t'" "configuration_kept ?t t'" by blast
  have "configuration_kept m t'"
    using t t'(3) data_update_kept[of t dl] by (blast intro: configuration_kept_trans)
  with t' sh show "\<exists>t'. adversarial_train_epoch lib epsilon t epoch = Inr t' \<and> inference_ready t' \<and>
      configuration_kept m t'"
    by (simp add: adversarial_train_epoch_def)
qed

lemma example_library_shape_preserving: "shape_preserving example_library"
  unfolding shape_preserving_def
proof (intro conjI allI impI)
  fix r n d
  show "has_shape n d (fst (truncated_normal example_library r n d))"
    by (auto simp: example_library_def has_shape_def list_all_iff dest!: in_set_takeD)
next
  fix f P Q gP gQ assume "gradient example_library f P Q = Inr (gP, gQ)"
  then have "same_shape P example_P \<and> same_shape Q example_Q \<and> gP = example_grad_P \<and> gQ = example_grad_Q"
    by (auto simp: example_library_def split: if_splits)
  then show "same_shape gP P" "same_shape gQ Q"
    by (simp_all add: same_shape_def example_P_def example_Q_def example_grad_P_def example_grad_Q_def)
next
  fix opt gP P gQ Q opt' P' Q'
  assume "apply_gradients example_library opt (gP, P) (gQ, Q) = Inr (opt', P', Q')"
  then have a: "same_shape gP P" "same_shape gQ Q" "P' = pointwise (\<lambda>x g. x - g / 20) P gP"
    "Q' = pointwise (\<lambda>x g. x - g / 20) Q gQ"
    by (auto simp: example_library_def split: if_splits)
  have *: "same_shape (pointwise f A B) A" if "same_shape B A" for f A B
  proof -
    from that have "length B = length A" unfolding same_shape_def by (metis length_map)
    moreover from that have "\<And>i. i < length A \<Longrightarrow> length (B ! i) = length (A ! i)"
      unfolding same_shape_def by (metis length_map nth_map)
    ultimately show ?thesis unfolding same_shape_def pointwise_def
      by (intro nth_equalityI) simp_all
  qed
  show "same_shape P' P" "same_shape Q' Q" using a by (simp_all add: *)
qed

lemma example_batches_ok: "batches_ok (Suc 0) 2 example_batches"
  by (simp add: batches_ok_def example_batches_def ids_ok_def)

lemma example_library_succeeds: "library_succeeds example_library (Suc 0) 2 64"
  unfolding library_succeeds_def
proof (intro conjI allI impI)
  fix f and P Q :: matrix assume "has_shape (Suc 0) 64 P \<and> has_shape 2 64 Q"
  then have "same_shape P example_P" "same_shape Q example_Q"
    using example_shapes by (simp_all add: has_shape_iff same_shape_def)
  then show "\<exists>g. gradient example_library f P Q = Inr g" by (simp add: example_library_def)
next
  fix opt :: nat and gP P gQ Q :: matrix assume "same_shape gP P \<and> same_shape gQ Q"
  then show "\<exists>r. apply_gradients example_library opt (gP, P) (gQ, Q) = Inr r"
    by (simp add: example_library_def)
next
  fix dl :: nat and b :: int
  show "\<exists>bs dl'. shuffle example_library dl b = Inr (bs, dl') \<and> batches_ok (Suc 0) 2 bs \<and> fst bs \<noteq> []"
    using example_batches_ok by (simp add: example_library_def) (simp add: example_batches_def)
qed

lemma example_dims:
  "num_users example_model = Suc 0" "num_items example_model = 2" "embedding_size example_model = 64"
  by (simp_all add: example_model_eq)

lemma sqrt_example: "sqrt (1 / 40000) = 1 / 200"
  by (rule real_sqrt_unique) (simp_all add: power2_eq_square)

lemma l2_normalize_example_grad:
  "scale (l2_normalize example_grad_P) (1 / 2) = [0 # (- 1 / 2) # replicate 62 0]"
  "scale (l2_normalize example_grad_Q) (1 / 2) = [(- 1 / 2) # replicate 63 0, (1 / 2) # replicate 63 0]"
  by (simp_all add: scale_def l2_normalize_def l2_normalize_row_def example_grad_P_def
      example_grad_Q_def sqrt_example sum_list_replicate)

lemma example_model_loss_ok:
  "\<exists>v. loss_opt 0 (zeros (Suc 0) 64) (zeros 2 64) (tf_constant 1 64 (Suc 0)) example_batches 0
         example_P example_Q = Inr v"
  unfolding example_batches_def
  by (rule loss_opt_ok(1)[OF example_shapes(1) has_shape_zeros example_shapes(2) has_shape_zeros,
        where u = "[[0]]" and ip = "[[0]]" and ineg = "[[1]]"])
     (simp_all add: ids_ok_def getitem_def)

lemma example_attack:
  "execute_adversarial_attack example_library (1 / 2) example_model = Inr example_attacked"
proof -
  from example_model_loss_ok obtain v where
    v: "loss_opt 0 (zeros (Suc 0) 64) (zeros 2 64) (tf_constant 1 64 (Suc 0)) example_batches 0
         example_P example_Q = Inr v" by blast
  have g: "gradient example_library f example_P example_Q = Inr (example_grad_P, example_grad_Q)" for f
    by (simp add: example_library_def same_shape_def)
  have s: "shuffle example_library dl b = Inr (example_batches, Suc dl)"
    "user_input_len example_library dl = 1" for dl b
    by (simp_all add: example_library_def)
  show ?thesis
    unfolding execute_adversarial_attack_def
    by (simp add: s Let_def initialize_perturbations_def
        example_model_eq v g l2_normalize_example_grad example_attacked_def)
qed

lemma replicate_62: "replicate 62 (0::real) = 0 # replicate 61 0"
proof -
  have "(62::nat) = Suc 61" by simp
  then show ?thesis by (simp only: replicate_Suc)
qed

lemma replicate_63: "replicate 63 (0::real) = 0 # 0 # replicate 61 0"
proof -
  have "(63::nat) = Suc (Suc 61)" by simp
  then show ?thesis by (simp only: replicate_Suc)
qed

lemma initialize_perturbations_reset: "perturbations_reset (initialize_perturbations m)"
  by (simp add: perturbations_reset_def initialize_perturbations_def)

lemma adversarial_train_step_reset:
  "adversarial_train_step lib m bs epsilon = Inr m' \<Longrightarrow> perturbations_reset m'"
  unfolding adversarial_train_step_def
  by (auto simp: ebind_eq_Inr initialize_perturbations_reset)

lemma adversarial_train_epoch_reset:
  "adversarial_train_epoch lib epsilon m epoch = Inr m' \<Longrightarrow> perturbations_reset m'"
  unfolding adversarial_train_epoch_def
  by (auto simp: ebind_eq_Inr dest: adversarial_train_step_reset)

lemma for_each_last:
  assumes "for_each body s is = Inr s'" "is \<noteq> []"
  shows "\<exists>t. body t (last is) = Inr s'"
  using assms
proof (induction "is" arbitrary: s)
  case Nil
  then show ?case by simp
next
  case (Cons i "is")
  from Cons.prems(1) obtain t where t: "body s i = Inr t" "for_each body t is = Inr s'"
    by (auto simp: ebind_eq_Inr)
  show ?case
  proof (cases "is = []")
    case True
    with t show ?thesis by auto
  next
    case False
    from Cons.IH[OF t(2) False] show ?thesis using False by simp
  qed
qed

lemma pointwise_add_zeros:
  assumes "has_shape n d A"
  shows "pointwise (+) A (zeros n d) = A"
proof -
  have len: "length A = n" and rows: "\<And>i. i < n \<Longrightarrow> length (A ! i) = d"
    using assms by (simp_all add: has_shape_def list_all_length)
  have "map2 (+) r (replicate d 0) = r" if "length r = d" for r :: vec
    using that by (intro nth_equalityI) simp_all
  then show ?thesis
    unfolding pointwise_def zeros_def using len rows
    by (intro nth_equalityI) simp_all
qed

lemma add_zeros: "has_shape n d A \<Longrightarrow> add A (zeros n d) = Inr A"
  by (simp add: add_def elementwise_same_shape[OF _ has_shape_zeros] pointwise_add_zeros)

lemma get_full_inference_reset:
  assumes "perturbations_reset m" "shapes_consistent m"
  shows "get_full_inference m = matmul (embedding_P m) (transpose (embedding_Q m))"
  using assms
  by (simp add: get_full_inference_def perturbations_reset_def shapes_consistent_def add_zeros)

lemma example_attacked_ready: "inference_ready example_attacked"
  using execute_adversarial_attack_ready[OF example_library_shape_preserving example_model_ready example_attack] .

lemma example_attacked_dims:
  "num_users example_attacked = Suc 0" "num_items example_attacked = 2"
  "embedding_size example_attacked = 64"
  by (simp_all add: example_attacked_def example_model_eq)

lemma example_model_succeeds:
  "library_succeeds example_library (num_users example_model) (num_items example_model)
     (embedding_size example_model)"
  "batches_ok (num_users example_model) (num_items example_model) example_batches"
  by (simp_all add: example_dims example_library_succeeds example_batches_ok)

lemma map_sum_ebind:
  "map_sum id g (ebind r f) = ebind r (\<lambda>x. map_sum id g (f x))"
  by (cases r) simp_all

lemma for_each_commute:
  assumes "\<And>s i. body (g s) i = map_sum id g (body s i)"
  shows "for_each body (g s) is = map_sum id g (for_each body s is)"
proof (induction "is" arbitrary: s)
  case Nil
  then show ?case by simp
next
  case (Cons i "is")
  show ?case
  proof (cases "body s i")
    case (Inl e)
    then show ?thesis by (simp add: assms)
  next
    case (Inr t)
    then show ?thesis by (simp add: assms Cons.IH)
  qed
qed

lemma with_paths_fields [simp]:
  "data (with_paths a b m) = data m" "num_users (with_paths a b m) = num_users m"
  "num_items (with_paths a b m) = num_items m" "embedding_size (with_paths a b m) = embedding_size m"
  "reg (with_paths a b m) = reg m" "epochs (with_paths a b m) = epochs m"
  "batch_size (with_paths a b m) = batch_size m" "embedding_P (with_paths a b m) = embedding_P m"
  "embedding_Q (with_paths a b m) = embedding_Q m" "h (with_paths a b m) = h m"
  "delta_P (with_paths a b m) = delta_P m" "delta_Q (with_paths a b m) = delta_Q m"
  "optimizer (with_paths a b m) = optimizer m"
  "path_output_rec_result (with_paths a b m) = a" "path_output_rec_weight (with_paths a b m) = b"
  by (simp_all add: with_paths_def)

lemma with_paths_updates [simp]:
  "with_paths a b m\<lparr>data := dl\<rparr> = with_paths a b (m\<lparr>data := dl\<rparr>)"
  "with_paths a b m\<lparr>embedding_P := P\<rparr> = with_paths a b (m\<lparr>embedding_P := P\<rparr>)"
  "with_paths a b m\<lparr>embedding_Q := Q\<rparr> = with_paths a b (m\<lparr>embedding_Q := Q\<rparr>)"
  "with_paths a b m\<lparr>delta_P := dP\<rparr> = with_paths a b (m\<lparr>delta_P := dP\<rparr>)"
  "with_paths a b m\<lparr>delta_Q := dQ\<rparr> = with_paths a b (m\<lparr>delta_Q := dQ\<rparr>)"
  "with_paths a b m\<lparr>optimizer := opt\<rparr> = with_paths a b (m\<lparr>optimizer := opt\<rparr>)"
  by (simp_all add: with_paths_def)

lemma train_batch_paths:
  "train_batch lib bs (with_paths a b m) i = map_sum id (with_paths a b) (train_batch lib bs m i)"
  unfolding train_batch_def
  by (cases bs) (simp add: map_sum_ebind Let_def split_def)

lemma train_step_paths:
  "train_step lib (with_paths a b m) bs = map_sum id (with_paths a b) (train_step lib m bs)"
  unfolding train_step_def by (rule for_each_commute) (rule train_batch_paths)

lemma train_epoch_paths:
  "train_epoch lib (with_paths a b m) epoch = map_sum id (with_paths a b) (train_epoch lib m epoch)"
  unfolding train_epoch_def
  by (simp add: map_sum_ebind split_def train_step_paths)

lemma train_paths:
  "train lib (with_paths a b m) = map_sum id (with_paths a b) (train lib m)"
proof -
  have "for_each (train_epoch lib) (with_paths a b m) [0..<nat (epochs m)] =
      map_sum id (with_paths a b) (for_each (train_epoch lib) m [0..<nat (epochs m)])"
    by (rule for_each_commute) (rule train_epoch_paths)
  then show ?thesis unfolding train_def by simp
qed

lemma initialize_perturbations_paths:
  "initialize_perturbations (with_paths a b m) = with_paths a b (initialize_perturbations m)"
  by (simp add: initialize_perturbations_def)

lemma execute_adversarial_attack_paths:
  "execute_adversarial_attack lib epsilon (with_paths a b m) =
     map_sum id (with_paths a b) (execute_adversarial_attack lib epsilon m)"
  unfolding execute_adversarial_attack_def
  by (simp add: map_sum_ebind Let_def split_def initialize_perturbations_paths)

lemma adversarial_train_batch_paths:
  "adversarial_train_batch lib epsilon bs (with_paths a b m) i =
     map_sum id (with_paths a b) (adversarial_train_batch lib epsilon bs m i)"
proof -
  obtain us ps ns where bs: "bs = (us, ps, ns)" by (cases bs) auto
  show ?thesis
  proof (cases "execute_adversarial_attack lib epsilon m")
    case (Inl e)
    then show ?thesis
      unfolding adversarial_train_batch_def bs
      by (simp add: map_sum_ebind Let_def split_def execute_adversarial_attack_paths)
  next
    case (Inr m1)
    then show ?thesis
      unfolding adversarial_train_batch_def bs
      by (simp add: map_sum_ebind Let_def split_def execute_adversarial_attack_paths)
  qed
qed

lemma adversarial_train_step_paths:
  "adversarial_train_step lib (with_paths a b m) bs epsilon =
     map_sum id (with_paths a b) (adversarial_train_step lib m bs epsilon)"
proof -
  have "for_each (adversarial_train_batch lib epsilon bs) (with_paths a b m) [0..<length (fst bs)] =
      map_sum id (with_paths a b)
        (for_each (adversarial_train_batch lib epsilon bs) m [0..<length (fst bs)])"
    by (rule for_each_commute) (rule adversarial_train_batch_paths)
  then show ?thesis
    unfolding adversarial_train_step_def
    by (cases "for_each (adversarial_train_batch lib epsilon bs) m [0..<length (fst bs)]")
       (simp_all add: initialize_perturbations_paths)
qed

lemma adversarial_train_epoch_paths:
  "adversarial_train_epoch lib epsilon (with_paths a b m) epoch =
     map_sum id (with_paths a b) (adversarial_train_epoch lib epsilon m epoch)"
  unfolding adversarial_train_epoch_def
  by (simp add: map_sum_ebind split_def adversarial_train_step_paths)

lemma adversarial_train_paths:
  "adversarial_train lib n epsilon (with_paths a b m) =
     map_sum id (with_paths a b) (adversarial_train lib n epsilon m)"
  unfolding adversarial_train_def by (rule for_each_commute) (rule adversarial_train_epoch_paths)

lemma get_inference_paths: "get_inference (with_paths a b m) = get_inference m"
  by (intro ext) (simp add: get_inference_def)

lemma get_full_inference_paths: "get_full_inference (with_paths a b m) = get_full_inference m"
  by (simp add: get_full_inference_def)

lemma evaluator_evaluate_paths: "evaluator_evaluate env (with_paths a b m) = evaluator_evaluate env m"
  by (simp add: evaluator_evaluate_def get_inference_paths get_full_inference_paths)

lemma BPRMF_paths:
  "BPRMF lib r dl a b = (with_paths a b (fst (BPRMF lib r dl c d)), snd (BPRMF lib r dl c d))"
  by (simp add: BPRMF_def initialize_model_parameters_def initialize_optimizer_def
      initialize_perturbations_def with_paths_def split_def Let_def)

lemma session_with_paths_simps [simp]:
  "recommender_model (session_with_paths a b s) = map_option (with_paths a b) (recommender_model s)"
  "data_var (session_with_paths a b s) = data_var s"
  "epsilon_var (session_with_paths a b s) = epsilon_var s"
  "random_state (session_with_paths a b s) = random_state s"
  by (simp_all add: session_with_paths_def)

lemma session_with_paths_model:
  "session_with_paths a b s\<lparr>recommender_model := Some (with_paths a b m)\<rparr> =
     session_with_paths a b (s\<lparr>recommender_model := Some m\<rparr>)"
  by (simp add: session_with_paths_def)

lemma session_with_paths_other:
  "session_with_paths a b s\<lparr>data_var := dv\<rparr> = session_with_paths a b (s\<lparr>data_var := dv\<rparr>)"
  "session_with_paths a b s\<lparr>epsilon_var := ev\<rparr> = session_with_paths a b (s\<lparr>epsilon_var := ev\<rparr>)"
  "session_with_paths a b s\<lparr>before_adv := x\<rparr> = session_with_paths a b (s\<lparr>before_adv := x\<rparr>)"
  "session_with_paths a b s\<lparr>after_adv := x\<rparr> = session_with_paths a b (s\<lparr>after_adv := x\<rparr>)"
  by (simp_all add: session_with_paths_def)

lemma map_sum_ebind_left:
  "ebind (map_sum id g r) f = ebind r (\<lambda>x. f (g x))"
  by (cases r) simp_all

lemma exec_paths:
  assumes "\<not> is_constructor c"
  shows "exec lib env c (session_with_paths a b s) =
           map_sum id (session_with_paths a b) (exec lib env c s)"
proof (cases c)
  case (New_DataLoader x y)
  then show ?thesis by (simp add: map_sum_ebind session_with_paths_other)
next
  case (New_BPRMF x y)
  with assms show ?thesis by simp
next
  case Call_train
  then show ?thesis
    by (cases "recommender_model s")
       (simp_all add: train_paths map_sum_ebind map_sum_ebind_left session_with_paths_model)
next
  case Assign_before_adv_evaluate
  then show ?thesis
    by (cases "recommender_model s")
       (simp_all add: evaluator_evaluate_paths map_sum_ebind session_with_paths_other)
next
  case Assign_after_adv_evaluate
  then show ?thesis
    by (cases "recommender_model s")
       (simp_all add: evaluator_evaluate_paths map_sum_ebind session_with_paths_other)
next
  case (Assign_epsilon x)
  then show ?thesis by (simp add: session_with_paths_other)
next
  case Call_execute_adversarial_attack
  then show ?thesis
    by (cases "recommender_model s"; cases "epsilon_var s")
       (simp_all add: execute_adversarial_attack_paths map_sum_ebind map_sum_ebind_left
          session_with_paths_model)
next
  case (Call_adversarial_train n)
  then show ?thesis
    by (cases "recommender_model s"; cases "epsilon_var s")
       (simp_all add: adversarial_train_paths map_sum_ebind map_sum_ebind_left
          session_with_paths_model)
qed

lemma run_paths:
  assumes "list_all (\<lambda>c. \<not> is_constructor c) cs"
  shows "run lib env cs (session_with_paths a b s) =
           map_sum id (session_with_paths a b) (run lib env cs s)"
  using assms
proof (induction cs arbitrary: s)
  case Nil
  then show ?case by simp
next
  case (Cons c cs)
  then have c: "\<not> is_constructor c" and cs: "list_all (\<lambda>c. \<not> is_constructor c) cs" by simp_all
  show ?case
    by (cases "exec lib env c s") (simp_all add: exec_paths[OF c] Cons.IH[OF cs])
qed

lemma exec_constructor_paths:
  "exec lib env (New_BPRMF a b) s =
     map_sum id (session_with_paths a b) (exec lib env (New_BPRMF c d) s)"
proof (cases "data_var s")
  case None
  then show ?thesis by simp
next
  case (Some dl)
  show ?thesis
    using BPRMF_paths[of lib "random_state s" dl a b c d]
    by (simp add: Some split_def session_with_paths_def)
qed

lemma run_notebook_paths:
  "run lib env (concat (notebook_cells a b)) (fresh_session r) =
     map_sum id (session_with_paths a b) (run lib env notebook (fresh_session r))"
proof -
  let ?load = "New_DataLoader ''./data/movielens-500/trainingset.tsv'' ''./data/movielens-500/testset.tsv''"
  let ?rest = "[Call_train, Assign_before_adv_evaluate, Assign_epsilon (1 / 2),
      Call_execute_adversarial_attack, Assign_after_adv_evaluate, Call_adversarial_train 1,
      Assign_before_adv_evaluate, Call_execute_adversarial_attack, Assign_after_adv_evaluate]"
  have nb: "concat (notebook_cells x y) = ?load # New_BPRMF x y # ?rest" for x y
    by (simp add: notebook_cells_def)
  have rest: "run lib env ?rest (session_with_paths a b s) =
           map_sum id (session_with_paths a b) (run lib env ?rest s)" for s :: "('a, 'b, 'c) session"
    by (rule run_paths) simp
  show ?thesis
  proof (cases "exec lib env ?load (fresh_session r)")
    case (Inl e)
    then show ?thesis unfolding notebook_def nb by (simp del: exec.simps)
  next
    case (Inr s1)
    show ?thesis
    proof (cases "exec lib env (New_BPRMF ''../rec_result/'' ''../rec_weights/'') s1")
      case (Inl e)
      with Inr exec_constructor_paths[of lib env a b s1 "''../rec_result/''" "''../rec_weights/''"]
      show ?thesis unfolding notebook_def nb by (simp del: exec.simps)
    next
      case s2: (Inr s2)
      with Inr exec_constructor_paths[of lib env a b s1 "''../rec_result/''" "''../rec_weights/''"]
      show ?thesis unfolding notebook_def nb using rest[of s2]
        by (simp del: exec.simps run.simps add: run.simps(2)[of lib env ?load] run.simps(2)[of lib env "New_BPRMF x y" for x y])
    qed
  qed
qed

lemma emap_Inl: "emap f xs = Inl e \<Longrightarrow> \<exists>x \<in> set xs. f x = Inl e"
  by (induction xs) (auto simp: ebind_eq_Inl)

lemma broadcast_Inl:
  "broadcast f xs ys = Inl e \<Longrightarrow> e = InvalidArgumentError \<or> (\<exists>x y. f x y = Inl e)"
  unfolding broadcast_def by (auto split: if_splits dest!: emap_Inl)

lemma elementwise_Inl: "elementwise f A B = Inl e \<Longrightarrow> e = InvalidArgumentError"
  unfolding elementwise_def
  by (drule broadcast_Inl) (auto dest!: broadcast_Inl)

lemma tensor_Inl:
  "add A B = Inl e \<Longrightarrow> e = InvalidArgumentError"
  "subtract A B = Inl e \<Longrightarrow> e = InvalidArgumentError"
  "multiply A B = Inl e \<Longrightarrow> e = InvalidArgumentError"
  "matmul A B = Inl e \<Longrightarrow> e = InvalidArgumentError"
  "embedding_lookup A idx = Inl e \<Longrightarrow> e = InvalidArgumentError"
  by (auto simp: add_def subtract_def multiply_def matmul_def embedding_lookup_def lookup_row_def
      dest: elementwise_Inl dest!: emap_Inl split: if_splits)

lemma inference_Inl: "inference P Q dP dQ hh us is = Inl e \<Longrightarrow> e = InvalidArgumentError"
  unfolding inference_def by (auto simp: ebind_eq_Inl Let_def dest: tensor_Inl)

lemma getitem_Inl: "getitem xs i = Inl e \<Longrightarrow> e = IndexError"
  by (simp add: getitem_def split: if_splits)

lemma ranking_loss_Inl:
  "ranking_loss dP dQ hh bs i P Q = Inl e \<Longrightarrow> e = IndexError \<or> e = InvalidArgumentError"
  unfolding ranking_loss_def
  by (cases bs) (auto simp: ebind_eq_Inl Let_def dest: tensor_Inl inference_Inl getitem_Inl)

lemma reg_loss_Inl: "reg_loss rg a b c = Inl e \<Longrightarrow> e = InvalidArgumentError"
  unfolding reg_loss_def by (auto simp: ebind_eq_Inl dest: tensor_Inl)

lemma loss_opt_Inl:
  "loss_opt rg dP dQ hh bs i P Q = Inl e \<Longrightarrow> e = IndexError \<or> e = InvalidArgumentError"
  unfolding loss_opt_def by (auto simp: ebind_eq_Inl dest: ranking_loss_Inl reg_loss_Inl)

lemma amf_loss_Inl:
  "amf_loss ar rg dP dQ aP aQ hh bs i P Q = Inl e \<Longrightarrow> e = IndexError \<or> e = InvalidArgumentError"
  unfolding amf_loss_def by (auto simp: ebind_eq_Inl dest: ranking_loss_Inl loss_opt_Inl)

lemma get_full_inference_Inl: "get_full_inference m = Inl e \<Longrightarrow> e = InvalidArgumentError"
  unfolding get_full_inference_def by (auto simp: ebind_eq_Inl dest: tensor_Inl)

lemma for_each_Inl: "for_each body s is = Inl e \<Longrightarrow> \<exists>t i. body t i = Inl e"
  by (induction "is" arbitrary: s) (auto simp: ebind_eq_Inl)

lemma train_batch_Inl: "train_batch lib bs m i = Inl e \<Longrightarrow> raised_by_a_call lib e"
  unfolding train_batch_def raised_by_a_call_def
  by (auto simp: ebind_eq_Inl Let_def dest: loss_opt_Inl)

lemma train_Inl: "train lib m = Inl e \<Longrightarrow> raised_by_a_call lib e"
proof -
  assume "train lib m = Inl e"
  then obtain t ep where "train_epoch lib t ep = Inl e"
    unfolding train_def by (blast dest: for_each_Inl)
  then have "(\<exists>dl b. shuffle lib dl b = Inl e) \<or> (\<exists>t bs. train_step lib t bs = Inl e)"
    unfolding train_epoch_def by (auto simp: ebind_eq_Inl)
  then show ?thesis
  proof
    assume "\<exists>dl b. shuffle lib dl b = Inl e"
    then show ?thesis by (auto simp: raised_by_a_call_def)
  next
    assume "\<exists>t bs. train_step lib t bs = Inl e"
    then show ?thesis unfolding train_step_def by (blast dest: for_each_Inl train_batch_Inl)
  qed
qed

lemma execute_adversarial_attack_Inl:
  "execute_adversarial_attack lib epsilon m = Inl e \<Longrightarrow> raised_by_a_call lib e"
  unfolding execute_adversarial_attack_def raised_by_a_call_def
  by (auto simp: ebind_eq_Inl Let_def dest: loss_opt_Inl)

lemma adversarial_train_batch_Inl:
  "adversarial_train_batch lib epsilon bs m i = Inl e \<Longrightarrow> raised_by_a_call lib e"
proof -
  assume "adversarial_train_batch lib epsilon bs m i = Inl e"
  then have "e = IndexError \<or> e = InvalidArgumentError \<or>
      execute_adversarial_attack lib epsilon m = Inl e \<or>
      (\<exists>f P Q. gradient lib f P Q = Inl e) \<or> (\<exists>opt g1 g2. apply_gradients lib opt g1 g2 = Inl e)"
    unfolding adversarial_train_batch_def
    by (auto simp: ebind_eq_Inl Let_def dest: loss_opt_Inl amf_loss_Inl)
  then show ?thesis
    by (auto simp: raised_by_a_call_def dest: execute_adversarial_attack_Inl)
qed

lemma adversarial_train_Inl:
  "adversarial_train lib n epsilon m = Inl e \<Longrightarrow> raised_by_a_call lib e"
proof -
  assume "adversarial_train lib n epsilon m = Inl e"
  then obtain t ep where "adversarial_train_epoch lib epsilon t ep = Inl e"
    unfolding adversarial_train_def by (blast dest: for_each_Inl)
  then have "(\<exists>dl b. shuffle lib dl b = Inl e) \<or> (\<exists>t bs. adversarial_train_step lib t bs epsilon = Inl e)"
    unfolding adversarial_train_epoch_def by (auto simp: ebind_eq_Inl)
  then show ?thesis
  proof
    assume "\<exists>dl b. shuffle lib dl b = Inl e"
    then show ?thesis by (auto simp: raised_by_a_call_def)
  next
    assume "\<exists>t bs. adversarial_train_step lib t bs epsilon = Inl e"
    then obtain t bs where
      "for_each (adversarial_train_batch lib epsilon bs) t [0 ..< length (fst bs)] = Inl e"
      unfolding adversarial_train_step_def by (auto simp: ebind_eq_Inl)
    then show ?thesis by (blast dest: for_each_Inl adversarial_train_batch_Inl)
  qed
qed

subsection \<open>The first call that raises\<close>

lemma for_each_Inl_iff:
  "for_each body s is = Inl e \<longleftrightarrow>
     (\<exists>j t. j < length is \<and> for_each body s (take j is) = Inr t \<and> body t (is ! j) = Inl e)"
proof (induction "is" arbitrary: s)
  case Nil
  then show ?case by simp
next
  case (Cons i "is")
  show ?case
  proof
    assume "for_each body s (i # is) = Inl e"
    then consider "body s i = Inl e" | s' where "body s i = Inr s'" "for_each body s' is = Inl e"
      by (auto simp: ebind_eq_Inl)
    then show "\<exists>j t. j < length (i # is) \<and> for_each body s (take j (i # is)) = Inr t \<and>
                 body t ((i # is) ! j) = Inl e"
    proof cases
      case 1
      then have "0 < length (i # is) \<and> for_each body s (take 0 (i # is)) = Inr s \<and>
                 body s ((i # is) ! 0) = Inl e" by simp
      then show ?thesis by blast
    next
      case 2
      from 2(2) Cons.IH[of s'] obtain j t where
        "j < length is" "for_each body s' (take j is) = Inr t" "body t (is ! j) = Inl e" by blast
      with 2(1) have "Suc j < length (i # is) \<and> for_each body s (take (Suc j) (i # is)) = Inr t \<and>
                 body t ((i # is) ! Suc j) = Inl e" by simp
      then show ?thesis by blast
    qed
  next
    assume "\<exists>j t. j < length (i # is) \<and> for_each body s (take j (i # is)) = Inr t \<and>
                 body t ((i # is) ! j) = Inl e"
    then obtain j t where j: "j < length (i # is)" "for_each body s (take j (i # is)) = Inr t"
      "body t ((i # is) ! j) = Inl e" by blast
    show "for_each body s (i # is) = Inl e"
    proof (cases j)
      case 0
      with j show ?thesis by simp
    next
      case (Suc k)
      with j(2) obtain s' where s': "body s i = Inr s'" "for_each body s' (take k is) = Inr t"
        by (auto simp: ebind_eq_Inr)
      from j(1,3) Suc have "k < length is" "body t (is ! k) = Inl e" by simp_all
      with s'(2) Cons.IH[of s'] have "for_each body s' is = Inl e" by blast
      with s'(1) show ?thesis by simp
    qed
  qed
qed

lemma for_each_upt_Inl_iff:
  "for_each body s [0 ..< n] = Inl e \<longleftrightarrow>
     (\<exists>j t. j < n \<and> for_each body s [0 ..< j] = Inr t \<and> body t j = Inl e)"
proof -
  have "(\<exists>j t. j < length [0 ..< n] \<and> for_each body s (take j [0 ..< n]) = Inr t \<and>
            body t ([0 ..< n] ! j) = Inl e) \<longleftrightarrow>
        (\<exists>j t. j < n \<and> for_each body s [0 ..< j] = Inr t \<and> body t j = Inl e)"
    by (intro ex_cong1 iffI; clarsimp simp: take_upt min_def)
  then show ?thesis by (simp only: for_each_Inl_iff)
qed

lemma train_Inl_iff:
  "train lib m = Inl e \<longleftrightarrow>
     (\<exists>epoch t. epoch < nat (epochs m) \<and> for_each (train_epoch lib) m [0 ..< epoch] = Inr t \<and>
        train_epoch lib t epoch = Inl e)"
  unfolding train_def by (rule for_each_upt_Inl_iff)

lemma train_epoch_Inl_iff:
  "train_epoch lib m epoch = Inl e \<longleftrightarrow>
     shuffle lib (data m) (batch_size m) = Inl e \<or>
     (\<exists>bs dl. shuffle lib (data m) (batch_size m) = Inr (bs, dl) \<and>
        train_step lib (m\<lparr>data := dl\<rparr>) bs = Inl e)"
  by (simp add: train_epoch_def ebind_eq_Inl)

lemma train_step_Inl_iff:
  "train_step lib m bs = Inl e \<longleftrightarrow>
     (\<exists>batch_idx t. batch_idx < length (fst bs) \<and>
        for_each (train_batch lib bs) m [0 ..< batch_idx] = Inr t \<and>
        train_batch lib bs t batch_idx = Inl e)"
  unfolding train_step_def by (rule for_each_upt_Inl_iff)

lemma train_batch_Inl_iff:
  "train_batch lib bs m batch_idx = Inl e \<longleftrightarrow>
     (let f = loss_opt (reg m) (delta_P m) (delta_Q m) (h m) bs batch_idx in
      f (embedding_P m) (embedding_Q m) = Inl e \<or>
      (\<exists>l. f (embedding_P m) (embedding_Q m) = Inr l \<and>
         (gradient lib f (embedding_P m) (embedding_Q m) = Inl e \<or>
          (\<exists>gP gQ. gradient lib f (embedding_P m) (embedding_Q m) = Inr (gP, gQ) \<and>
             apply_gradients lib (optimizer m) (gP, embedding_P m) (gQ, embedding_Q m) = Inl e))))"
  by (simp add: train_batch_def ebind_eq_Inl Let_def split_def)

lemma execute_adversarial_attack_Inl_iff:
  "execute_adversarial_attack lib epsilon m = Inl e \<longleftrightarrow>
     shuffle lib (data m) (user_input_len lib (data m)) = Inl e \<or>
     (\<exists>bs dl. shuffle lib (data m) (user_input_len lib (data m)) = Inr (bs, dl) \<and>
        (let f = loss_opt (reg m) (zeros (num_users m) (embedding_size m))
                   (zeros (num_items m) (embedding_size m)) (h m) bs 0 in
         f (embedding_P m) (embedding_Q m) = Inl e \<or>
         (\<exists>l. f (embedding_P m) (embedding_Q m) = Inr l \<and>
            gradient lib f (embedding_P m) (embedding_Q m) = Inl e)))"
  by (simp add: execute_adversarial_attack_def initialize_perturbations_def ebind_eq_Inl Let_def
      split_def)

lemma adversarial_train_Inl_iff:
  "adversarial_train lib adversarial_epochs epsilon m = Inl e \<longleftrightarrow>
     (\<exists>epoch t. epoch < nat adversarial_epochs \<and>
        for_each (adversarial_train_epoch lib epsilon) m [0 ..< epoch] = Inr t \<and>
        adversarial_train_epoch lib epsilon t epoch = Inl e)"
  unfolding adversarial_train_def by (rule for_each_upt_Inl_iff)

lemma adversarial_train_epoch_Inl_iff:
  "adversarial_train_epoch lib epsilon m epoch = Inl e \<longleftrightarrow>
     shuffle lib (data m) (batch_size m) = Inl e \<or>
     (\<exists>bs dl. shuffle lib (data m) (batch_size m) = Inr (bs, dl) \<and>
        adversarial_train_step lib (m\<lparr>data := dl\<rparr>) bs epsilon = Inl e)"
  by (simp add: adversarial_train_epoch_def ebind_eq_Inl)

lemma adversarial_train_step_Inl_iff:
  "adversarial_train_step lib m bs epsilon = Inl e \<longleftrightarrow>
     (\<exists>batch_idx t. batch_idx < length (fst bs) \<and>
        for_each (adversarial_train_batch lib epsilon bs) m [0 ..< batch_idx] = Inr t \<and>
        adversarial_train_batch lib epsilon bs t batch_idx = Inl e)"
  by (simp add: adversarial_train_step_def ebind_eq_Inl for_each_upt_Inl_iff)

lemma adversarial_train_batch_Inl_iff:
  "adversarial_train_batch lib epsilon bs m batch_idx = Inl e \<longleftrightarrow>
     loss_opt (reg m) (delta_P m) (delta_Q m) (h m) bs batch_idx (embedding_P m) (embedding_Q m) = Inl e \<or>
     (\<exists>bprmf_loss.
        loss_opt (reg m) (delta_P m) (delta_Q m) (h m) bs batch_idx (embedding_P m) (embedding_Q m) =
          Inr bprmf_loss \<and>
        (execute_adversarial_attack lib epsilon m = Inl e \<or>
         (\<exists>m1. execute_adversarial_attack lib epsilon m = Inr m1 \<and>
            (let f = amf_loss 1 (reg m) (delta_P m) (delta_Q m) (delta_P m1) (delta_Q m1) (h m1)
                       bs batch_idx in
             f (embedding_P m1) (embedding_Q m1) = Inl e \<or>
             (\<exists>l. f (embedding_P m1) (embedding_Q m1) = Inr l \<and>
                (gradient lib f (embedding_P m1) (embedding_Q m1) = Inl e \<or>
                 (\<exists>gP gQ. gradient lib f (embedding_P m1) (embedding_Q m1) = Inr (gP, gQ) \<and>
                    apply_gradients lib (optimizer m1) (gP, embedding_P m1) (gQ, embedding_Q m1) =
                      Inl e)))))))"
  by (simp add: adversarial_train_batch_def ebind_eq_Inl Let_def split_def)

lemma inference_Inl_iff:
  "inference P Q dP dQ hh user_input item_input = Inl e \<longleftrightarrow>
     add P dP = Inl e \<or>
     (\<exists>P'. add P dP = Inr P' \<and>
        (embedding_lookup P' user_input = Inl e \<or>
         (\<exists>lp. embedding_lookup P' user_input = Inr lp \<and>
            (add Q dQ = Inl e \<or>
             (\<exists>Q'. add Q dQ = Inr Q' \<and>
                (embedding_lookup Q' item_input = Inl e \<or>
                 (\<exists>lq. embedding_lookup Q' item_input = Inr lq \<and>
                    (multiply (reduce_sum_1 (width P') lp) (reduce_sum_1 (width Q') lq) = Inl e \<or>
                     (\<exists>pq. multiply (reduce_sum_1 (width P') lp) (reduce_sum_1 (width Q') lq) = Inr pq \<and>
                        matmul pq hh = Inl e)))))))))"
  by (simp add: inference_def ebind_eq_Inl Let_def)

lemma get_full_inference_Inl_iff:
  "get_full_inference m = Inl e \<longleftrightarrow>
     add (embedding_P m) (delta_P m) = Inl e \<or>
     (\<exists>P'. add (embedding_P m) (delta_P m) = Inr P' \<and>
        (add (embedding_Q m) (delta_Q m) = Inl e \<or>
         (\<exists>Q'. add (embedding_Q m) (delta_Q m) = Inr Q' \<and> matmul P' (transpose Q') = Inl e)))"
  by (simp add: get_full_inference_def ebind_eq_Inl)

lemma ranking_loss_Inl_iff:
  "ranking_loss dP dQ hh (user_input, item_input_pos, item_input_neg) batch_idx P Q = Inl e \<longleftrightarrow>
     getitem user_input batch_idx = Inl e \<or>
     (\<exists>u. getitem user_input batch_idx = Inr u \<and>
        (getitem item_input_pos batch_idx = Inl e \<or>
         (\<exists>ip. getitem item_input_pos batch_idx = Inr ip \<and>
            (inference P Q dP dQ hh u ip = Inl e \<or>
             (\<exists>output_pos embed_p_pos embed_q_pos.
                inference P Q dP dQ hh u ip = Inr (output_pos, embed_p_pos, embed_q_pos) \<and>
                (getitem item_input_neg batch_idx = Inl e \<or>
                 (\<exists>ineg. getitem item_input_neg batch_idx = Inr ineg \<and>
                    (inference P Q dP dQ hh u ineg = Inl e \<or>
                     (\<exists>output_neg embed_p_neg embed_q_neg.
                        inference P Q dP dQ hh u ineg = Inr (output_neg, embed_p_neg, embed_q_neg) \<and>
                        subtract output_pos output_neg = Inl e)))))))))"
  by (auto simp add: ranking_loss_def ebind_eq_Inl Let_def split_def)

lemma reg_loss_Inl_iff:
  "reg_loss rg embed_p_pos embed_q_pos embed_q_neg = Inl e \<longleftrightarrow>
     add (square embed_p_pos) (square embed_q_pos) = Inl e \<or>
     (\<exists>s. add (square embed_p_pos) (square embed_q_pos) = Inr s \<and> add s (square embed_q_neg) = Inl e)"
  by (simp add: reg_loss_def ebind_eq_Inl)

lemma loss_opt_Inl_iff:
  "loss_opt rg dP dQ hh bs batch_idx P Q = Inl e \<longleftrightarrow>
     ranking_loss dP dQ hh bs batch_idx P Q = Inl e \<or>
     (\<exists>loss embed_p_pos embed_q_pos embed_q_neg.
        ranking_loss dP dQ hh bs batch_idx P Q = Inr (loss, embed_p_pos, embed_q_pos, embed_q_neg) \<and>
        reg_loss rg embed_p_pos embed_q_pos embed_q_neg = Inl e)"
  by (simp add: loss_opt_def ebind_eq_Inl split_def)

lemma amf_loss_Inl_iff:
  "amf_loss adv_reg rg dP dQ aP aQ hh bs batch_idx P Q = Inl e \<longleftrightarrow>
     loss_opt rg dP dQ hh bs batch_idx P Q = Inl e \<or>
     (\<exists>bprmf_loss. loss_opt rg dP dQ hh bs batch_idx P Q = Inr bprmf_loss \<and>
        ranking_loss aP aQ hh bs batch_idx P Q = Inl e)"
  by (simp add: amf_loss_def ebind_eq_Inl split_def)

lemma get_inference_Inl_iff:
  "get_inference m user_input item_input = Inl e \<longleftrightarrow>
     inference (embedding_P m) (embedding_Q m) (delta_P m) (delta_Q m) (h m) user_input item_input = Inl e"
  by (simp add: get_inference_def)

lemma methods_Inl_origin:
  "(train lib m = Inl e \<or> adversarial_train lib adversarial_epochs epsilon m = Inl e \<or>
     execute_adversarial_attack lib epsilon m = Inl e \<or>
     get_inference m user_input item_input = Inl e \<or>
     get_full_inference m = Inl e) \<longrightarrow> raised_by_a_call lib e"
  by (auto dest: train_Inl adversarial_train_Inl execute_adversarial_attack_Inl
        inference_Inl get_full_inference_Inl simp: get_inference_def raised_by_a_call_def)

lemma methods_progress:
  "inference_ready m \<and> shape_preserving lib \<and>
    library_succeeds lib (num_users m) (num_items m) (embedding_size m) \<longrightarrow>
      (\<exists>m'. train lib m = Inr m') \<and>
      (\<exists>m'. adversarial_train lib adversarial_epochs epsilon m = Inr m') \<and>
      (\<exists>m'. execute_adversarial_attack lib epsilon m = Inr m')"
proof (intro impI conjI)
  assume h: "inference_ready m \<and> shape_preserving lib \<and>
    library_succeeds lib (num_users m) (num_items m) (embedding_size m)"
  then have r: "inference_ready m" "shape_preserving lib"
    "library_succeeds lib (num_users m) (num_items m) (embedding_size m)" by simp_all
  show "\<exists>m'. train lib m = Inr m'" using train_progress[OF r] by blast
  show "\<exists>m'. adversarial_train lib adversarial_epochs epsilon m = Inr m'"
    using adversarial_train_progress[OF r] by blast
  show "\<exists>m'. execute_adversarial_attack lib epsilon m = Inr m'"
    by (rule execute_adversarial_attack_progress[OF r])
qed

lemma train_step_frame:
  assumes "train_step lib m bs = Inr m'"
  shows "only_parameters_changed m m'"
  using assms unfolding train_step_def
  by (rule for_each_invariant[where I = "only_parameters_changed m"])
     (auto intro: only_parameters_changed_refl only_parameters_changed_trans train_batch_frame)

lemma train_step_shuffle_update:
  "train_step (lib\<lparr>shuffle := f\<rparr>) m bs = train_step lib m bs"
proof -
  have "train_batch (lib\<lparr>shuffle := f\<rparr>) bs = train_batch lib bs"
    by (intro ext) (simp add: train_batch_def)
  then show ?thesis by (simp add: train_step_def)
qed

lemma example_first_epoch:
  "\<exists>t. train_epoch second_shuffle_fails example_model 0 = Inr t \<and> data t = Suc 0 \<and> batch_size t = 512"
proof -
  let ?m = "example_model\<lparr>data := Suc 0\<rparr>"
  have r: "inference_ready ?m" by (rule data_update_ready[OF example_model_ready])
  have ok: "library_succeeds example_library (num_users ?m) (num_items ?m) (embedding_size ?m)"
    "batches_ok (num_users ?m) (num_items ?m) example_batches"
    using example_model_succeeds by simp_all
  from train_step_progress[OF r example_library_shape_preserving ok]
  obtain t where t: "train_step example_library ?m example_batches = Inr t" by blast
  note f = train_step_frame[OF t]
  have "data t = Suc 0" "batch_size t = 512"
    using only_parameters_changedD(3)[OF f]
      configuration_keptD(6)[OF only_parameters_changed_kept[OF f]]
    by (simp_all add: example_model_eq)
  moreover have "train_epoch second_shuffle_fails example_model 0 = Inr t"
    using t by (simp add: train_epoch_def second_shuffle_fails_def train_step_shuffle_update
        example_model_eq)
  ultimately show ?thesis by blast
qed

lemma example_loss_at:
  "\<exists>v. loss_opt (reg example_model) (delta_P example_model) (delta_Q example_model)
         (h example_model) example_batches 0 (embedding_P example_model) (embedding_Q example_model) =
       Inr v"
  using example_model_loss_ok by (simp add: example_model_eq)

subsection \<open>Sessions of the example's size\<close>

lemma example_sized_kept:
  "example_sized m \<Longrightarrow> inference_ready m' \<Longrightarrow> configuration_kept m m' \<Longrightarrow> example_sized m'"
  by (simp add: example_sized_def configuration_keptD)

lemma example_sized_succeeds:
  "example_sized m \<Longrightarrow>
     library_succeeds example_library (num_users m) (num_items m) (embedding_size m)"
  by (simp add: example_sized_def example_library_succeeds)

lemma example_sized_train:
  assumes "example_sized m"
  shows "\<exists>m'. train example_library m = Inr m' \<and> example_sized m'"
proof -
  from assms have r: "inference_ready m" by (simp add: example_sized_def)
  from train_progress[OF r example_library_shape_preserving example_sized_succeeds[OF assms]]
  show ?thesis using example_sized_kept[OF assms] by blast
qed

lemma example_sized_adversarial_train:
  assumes "example_sized m"
  shows "\<exists>m'. adversarial_train example_library n epsilon m = Inr m' \<and> example_sized m'"
proof -
  from assms have r: "inference_ready m" by (simp add: example_sized_def)
  from adversarial_train_progress[OF r example_library_shape_preserving example_sized_succeeds[OF assms]]
  show ?thesis using example_sized_kept[OF assms] by blast
qed

lemma example_sized_attack:
  assumes "example_sized m"
  shows "\<exists>m'. execute_adversarial_attack example_library epsilon m = Inr m' \<and> example_sized m'"
proof -
  from assms have r: "inference_ready m" by (simp add: example_sized_def)
  then have s: "shapes_consistent m" by (simp add: inference_ready_def)
  from execute_adversarial_attack_progress[OF r example_library_shape_preserving
      example_sized_succeeds[OF assms]]
  obtain m' where m': "execute_adversarial_attack example_library epsilon m = Inr m'" by blast
  note k = execute_adversarial_attack_shapes(2)[OF example_library_shape_preserving s m']
  note r' = execute_adversarial_attack_ready[OF example_library_shape_preserving r m']
  from example_sized_kept[OF assms r' k] m' show ?thesis by blast
qed

lemma example_sized_evaluate:
  assumes "example_sized m"
  shows "evaluator_evaluate example_surroundings m = Inr (1 / 2, 1 / 4, 3 / 4)"
proof -
  from assms have r: "has_shape (Suc 0) 64 (embedding_P m)" "has_shape (Suc 0) 64 (delta_P m)"
    "has_shape 2 64 (embedding_Q m)" "has_shape 2 64 (delta_Q m)"
    by (auto simp: example_sized_def inference_ready_def shapes_consistent_def)
  from full_inference_entry[OF r, of 0 0] obtain F where "get_full_inference m = Inr F"
    by (auto simp: get_full_inference_def)
  then show ?thesis by (simp add: evaluator_evaluate_def example_surroundings_def)
qed

lemma exec_session_ok:
  assumes "session_ok s" "needs_only_model_and_epsilon c"
  shows "\<exists>s'. exec example_library example_surroundings c s = Inr s' \<and> session_ok s'"
proof -
  from assms(1) obtain m x where m: "recommender_model s = Some m" "example_sized m"
    and x: "epsilon_var s = Some x" by (auto simp: session_ok_def)
  show ?thesis
  proof (cases c)
    case (New_DataLoader a b)
    with assms(2) show ?thesis by simp
  next
    case (New_BPRMF a b)
    with assms(2) show ?thesis by simp
  next
    case Call_train
    from example_sized_train[OF m(2)] obtain m' where
      "train example_library m = Inr m'" "example_sized m'" by blast
    then show ?thesis using m x by (simp add: Call_train session_ok_def)
  next
    case Assign_before_adv_evaluate
    then show ?thesis using m x example_sized_evaluate[OF m(2)] by (simp add: session_ok_def)
  next
    case Assign_after_adv_evaluate
    then show ?thesis using m x example_sized_evaluate[OF m(2)] by (simp add: session_ok_def)
  next
    case (Assign_epsilon y)
    then show ?thesis using m by (simp add: session_ok_def)
  next
    case Call_execute_adversarial_attack
    from example_sized_attack[OF m(2), of x] obtain m' where
      "execute_adversarial_attack example_library x m = Inr m'" "example_sized m'" by blast
    then show ?thesis using m x by (simp add: Call_execute_adversarial_attack session_ok_def)
  next
    case (Call_adversarial_train n)
    from example_sized_adversarial_train[OF m(2), of n x] obtain m' where
      "adversarial_train example_library n x m = Inr m'" "example_sized m'" by blast
    then show ?thesis using m x by (simp add: Call_adversarial_train session_ok_def)
  qed
qed

lemma run_session_ok:
  assumes "session_ok s" "list_all needs_only_model_and_epsilon cs"
  shows "\<exists>s'. run example_library example_surroundings cs s = Inr s' \<and> session_ok s'"
  using assms
proof (induction cs arbitrary: s)
  case Nil
  then show ?case by simp
next
  case (Cons c cs)
  then have c: "needs_only_model_and_epsilon c" and cs: "list_all needs_only_model_and_epsilon cs"
    by simp_all
  from exec_session_ok[OF Cons.prems(1) c] obtain t where
    t: "exec example_library example_surroundings c s = Inr t" "session_ok t" by blast
  from Cons.IH[OF t(2) cs] t(1) show ?case by simp
qed

lemma example_model_sized: "example_sized example_model"
  by (simp add: example_sized_def example_model_ready example_dims)

lemma run_append:
  "run lib env (xs @ ys) s = ebind (run lib env xs s) (run lib env ys)"
  by (induction xs arbitrary: s) (simp_all add: ebind_def split: sum.splits)

lemma example_notebook_runs:
  "\<exists>s. run example_library example_surroundings notebook (fresh_session 0) = Inr s"
proof -
  let ?load = "New_DataLoader ''./data/movielens-500/trainingset.tsv'' ''./data/movielens-500/testset.tsv''"
  let ?new = "New_BPRMF ''../rec_result/'' ''../rec_weights/''"
  let ?rest = "[Call_execute_adversarial_attack, Assign_after_adv_evaluate, Call_adversarial_train 1,
      Assign_before_adv_evaluate, Call_execute_adversarial_attack, Assign_after_adv_evaluate]"
  have nb: "notebook = [?load, ?new, Call_train, Assign_before_adv_evaluate, Assign_epsilon (1 / 2)] @ ?rest"
    by (simp add: notebook_def notebook_cells_def)
  obtain r where r: "BPRMF example_library 0 0 ''../rec_result/'' ''../rec_weights/'' = (example_model, r)"
    by (cases "BPRMF example_library 0 0 ''../rec_result/'' ''../rec_weights/''")
       (simp add: example_model_def)
  from example_sized_train[OF example_model_sized] obtain m1 where
    m1: "train example_library example_model = Inr m1" "example_sized m1" by blast
  let ?s = "(fresh_session 0 :: (nat, nat, nat) session)\<lparr>data_var := Some 0, recommender_model := Some m1,
     random_state := r, before_adv := Some (1 / 2, 1 / 4, 3 / 4), epsilon_var := Some (1 / 2)\<rparr>"
  have start: "run example_library example_surroundings
      [?load, ?new, Call_train, Assign_before_adv_evaluate, Assign_epsilon (1 / 2)] (fresh_session 0) = Inr ?s"
    by (simp add: example_surroundings_def fresh_session_def r m1(1)
        example_sized_evaluate[OF m1(2), unfolded example_surroundings_def])
  have "session_ok ?s" using m1(2) by (simp add: session_ok_def)
  from run_session_ok[OF this, of ?rest] obtain s' where
    rest: "run example_library example_surroundings ?rest ?s = Inr s'" by auto
  have "run example_library example_surroundings notebook (fresh_session 0) =
      ebind (run example_library example_surroundings
               [?load, ?new, Call_train, Assign_before_adv_evaluate, Assign_epsilon (1 / 2)]
               (fresh_session 0))
        (run example_library example_surroundings ?rest)"
    unfolding nb by (rule run_append)
  also have "\<dots> = run example_library example_surroundings ?rest ?s"
    by (simp only: start ebind_Inr)
  also have "\<dots> = Inr s'" by (rule rest)
  finally show ?thesis by blast
qed

subsection \<open>Zero perturbations\<close>

lemma inference_zeros:
  assumes "has_shape n d P" "has_shape k d Q"
  shows "inference P Q (zeros n d) (zeros k d) hh us is = plain_inference P Q hh us is"
  by (simp add: inference_def plain_inference_def add_zeros[OF assms(1)] add_zeros[OF assms(2)])

lemma get_inference_reset:
  assumes "perturbations_reset m" "shapes_consistent m"
  shows "get_inference m us is = plain_inference (embedding_P m) (embedding_Q m) (h m) us is"
  using assms
  by (simp add: get_inference_def perturbations_reset_def shapes_consistent_def inference_zeros)

lemma evaluator_evaluate_reset:
  assumes "perturbations_reset m" "shapes_consistent m"
  shows "evaluator_evaluate env m =
           evaluate env (plain_inference (embedding_P m) (embedding_Q m) (h m))
             (plain_full_inference (embedding_P m) (embedding_Q m)) (data m) TOPK"
proof -
  have "get_inference m = plain_inference (embedding_P m) (embedding_Q m) (h m)"
    by (intro ext) (rule get_inference_reset[OF assms])
  then show ?thesis
    by (simp add: evaluator_evaluate_def get_full_inference_reset[OF assms] plain_full_inference_def)
qed

lemma adversarial_train_no_epochs:
  "adversarial_epochs \<le> 0 \<Longrightarrow> adversarial_train lib adversarial_epochs epsilon m = Inr m"
  by (simp add: adversarial_train_def)

lemma perturbations_reset_frame:
  "perturbations_reset m \<Longrightarrow> only_parameters_changed m m' \<Longrightarrow> perturbations_reset m'"
  unfolding perturbations_reset_def only_parameters_changed_def
  by (cases m, cases m') simp

lemma train_step_keeps_reset:
  assumes "perturbations_reset m" "train_step lib m bs = Inr m'"
  shows "perturbations_reset m'"
proof -
  have "only_parameters_changed m m'"
    using assms(2) unfolding train_step_def
    by (rule for_each_invariant[where I = "only_parameters_changed m"])
       (auto intro: only_parameters_changed_refl only_parameters_changed_trans train_batch_frame)
  with assms(1) show ?thesis by (rule perturbations_reset_frame)
qed

lemma train_epoch_keeps_reset:
  assumes "perturbations_reset m" "train_epoch lib m epoch = Inr m'"
  shows "perturbations_reset m'"
proof -
  from assms(2) obtain bs dl where "train_step lib (m\<lparr>data := dl\<rparr>) bs = Inr m'"
    unfolding train_epoch_def by (auto simp: ebind_eq_Inr)
  moreover have "perturbations_reset (m\<lparr>data := dl\<rparr>)"
    using assms(1) by (simp add: perturbations_reset_def)
  ultimately show ?thesis by (rule train_step_keeps_reset[rotated])
qed

lemma train_keeps_reset:
  assumes "perturbations_reset m" "train lib m = Inr m'"
  shows "perturbations_reset m'"
  using assms(2,1) unfolding train_def
  by (rule for_each_invariant) (rule train_epoch_keeps_reset)

lemma adversarial_train_keeps_reset:
  assumes "perturbations_reset m" "adversarial_train lib n epsilon m = Inr m'"
  shows "perturbations_reset m'"
  using assms(2,1) unfolding adversarial_train_def
  by (rule for_each_invariant) (rule adversarial_train_epoch_reset)

lemma BPRMF_reset: "perturbations_reset (fst (BPRMF lib r dl a b))"
  by (simp add: BPRMF_def initialize_model_parameters_def initialize_optimizer_def
      initialize_perturbations_def perturbations_reset_def split_def Let_def)

lemma exec_keeps_reset:
  assumes "c \<noteq> Call_execute_adversarial_attack" "model_reset s" "exec lib env c s = Inr s'"
  shows "model_reset s'"
proof (cases c)
  case (New_DataLoader a b)
  with assms show ?thesis by (auto simp: model_reset_def ebind_eq_Inr)
next
  case (New_BPRMF a b)
  with assms(3) obtain dl where dl: "data_var s = Some dl"
    and s': "s' = s\<lparr>recommender_model := Some (fst (BPRMF lib (random_state s) dl a b)),
                     random_state := snd (BPRMF lib (random_state s) dl a b)\<rparr>"
    by (auto split: option.splits prod.splits)
  show ?thesis by (simp add: s' model_reset_def BPRMF_reset)
next
  case Call_train
  with assms show ?thesis
    by (auto simp: model_reset_def ebind_eq_Inr split: option.splits dest: train_keeps_reset)
next
  case Assign_before_adv_evaluate
  with assms show ?thesis
    by (auto simp: model_reset_def ebind_eq_Inr split: option.splits)
next
  case Assign_after_adv_evaluate
  with assms show ?thesis
    by (auto simp: model_reset_def ebind_eq_Inr split: option.splits)
next
  case (Assign_epsilon x)
  with assms show ?thesis by (auto simp: model_reset_def)
next
  case Call_execute_adversarial_attack
  with assms(1) show ?thesis by simp
next
  case (Call_adversarial_train n)
  with assms show ?thesis
    by (auto simp: model_reset_def ebind_eq_Inr split: option.splits
        dest: adversarial_train_keeps_reset)
qed

lemma example_model_reset: "perturbations_reset example_model"
  by (simp add: perturbations_reset_def example_model_eq)
section \<open>The adversarial perturbation\<close>

text \<open>
  Claim C1 as stated fails. At the example model with \<open>epsilon = 1 / 2\<close> the attack stores
  the normalised gradient times \<open>epsilon\<close>; whatever the clipping bounds, this is not the
  clipped perturbation added to the user embeddings (the first column would have to be
  \<open>0.01\<close> more than the third).
\<close>

theorem attack_does_not_store_clipped_sum:
  "execute_adversarial_attack example_library (1 / 2) example_model = Inr example_attacked \<and>
   delta_P example_attacked = scale (l2_normalize example_grad_P) (1 / 2) \<and>
   \<not> (\<exists>lo hi. delta_P example_attacked =
          spec_perturbation lo hi (embedding_P example_model) example_grad_P (1 / 2))"
proof -
  have "delta_P example_attacked \<noteq>
          spec_perturbation lo hi (embedding_P example_model) example_grad_P (1 / 2)" for lo hi
  proof
    assume "delta_P example_attacked =
          spec_perturbation lo hi (embedding_P example_model) example_grad_P (1 / 2)"
    then show False
      by (clarsimp simp: spec_perturbation_def l2_normalize_example_grad example_attacked_def
          example_model_eq example_P_def pointwise_def clip_by_value_def replicate_62 replicate_63)
  qed
  then show ?thesis
    using example_attack by (simp add: l2_normalize_example_grad example_attacked_def)
qed

text \<open>
  Claim C1, amended. Whenever \<^verbatim>\<open>execute_adversarial_attack\<close> returns, it has taken the
  first batch of a full-size shuffle, and the gradient of \<open>loss_opt\<close> for that batch at zero
  perturbations with respect to the two embedding matrices, where \<open>loss_opt\<close> is the sum
  of the softplus of the negated \<open>result\<close>, \<open>result\<close> being the score difference
  \<open>output_pos - output_neg\<close> clipped to \<open>[-80, 1e8]\<close>, plus \<open>reg\<close> times the mean of the
  squared embeddings. \<open>delta_P\<close> and \<open>delta_Q\<close> are exactly the row-wise L2-normalised
  gradients times \<open>epsilon\<close> (the gradients are not clipped, and the embeddings are not
  added to them), and the embedding matrices are as before.
\<close>

theorem execute_adversarial_attack_builds_perturbations:
  assumes "execute_adversarial_attack lib epsilon m = Inr m'"
  shows "\<exists>bs dl grad_P grad_Q.
           shuffle lib (data m) (user_input_len lib (data m)) = Inr (bs, dl) \<and>
           gradient lib
             (loss_opt (reg m) (zeros (num_users m) (embedding_size m))
                (zeros (num_items m) (embedding_size m)) (h m) bs 0)
             (embedding_P m) (embedding_Q m) = Inr (grad_P, grad_Q) \<and>
           delta_P m' = scale (l2_normalize grad_P) epsilon \<and>
           delta_Q m' = scale (l2_normalize grad_Q) epsilon \<and>
           embedding_P m' = embedding_P m \<and> embedding_Q m' = embedding_Q m"
proof -
  from execute_adversarial_attack_result[OF assms]
  obtain bs dl grad_P grad_Q where
    r: "shuffle lib (data m) (user_input_len lib (data m)) = Inr (bs, dl)"
       "gradient lib
             (loss_opt (reg m) (zeros (num_users m) (embedding_size m))
                (zeros (num_items m) (embedding_size m)) (h m) bs 0)
             (embedding_P m) (embedding_Q m) = Inr (grad_P, grad_Q)"
       "m' = m\<lparr>data := dl,
                  delta_P := scale (l2_normalize grad_P) epsilon,
                  delta_Q := scale (l2_normalize grad_Q) epsilon\<rparr>"
    by blast
  from r(3) have "delta_P m' = scale (l2_normalize grad_P) epsilon"
    "delta_Q m' = scale (l2_normalize grad_Q) epsilon"
    "embedding_P m' = embedding_P m" "embedding_Q m' = embedding_Q m" by simp_all
  with r(1,2) show ?thesis by blast
qed

text \<open>Claim C1, amended, at the example model with \<open>epsilon = 1 / 2\<close>.\<close>

theorem execute_adversarial_attack_builds_perturbations_witness:
  "execute_adversarial_attack example_library (1 / 2) example_model = Inr example_attacked \<and>
   (\<exists>bs dl grad_P grad_Q.
           shuffle example_library (data example_model)
              (user_input_len example_library (data example_model)) = Inr (bs, dl) \<and>
           gradient example_library
             (loss_opt (reg example_model)
                (zeros (num_users example_model) (embedding_size example_model))
                (zeros (num_items example_model) (embedding_size example_model))
                (h example_model) bs 0)
             (embedding_P example_model) (embedding_Q example_model) = Inr (grad_P, grad_Q) \<and>
           delta_P example_attacked = scale (l2_normalize grad_P) (1 / 2) \<and>
           delta_Q example_attacked = scale (l2_normalize grad_Q) (1 / 2) \<and>
           embedding_P example_attacked = embedding_P example_model \<and>
           embedding_Q example_attacked = embedding_Q example_model)"
  using execute_adversarial_attack_builds_perturbations[OF example_attack] example_attack
  by simp

section \<open>Perturbations after adversarial training\<close>

text \<open>
  Claim C2 as stated fails for zero adversarial epochs: \<^verbatim>\<open>adversarial_train\<close> then returns
  the attacked example model as it is, with its perturbations in place.
\<close>

theorem adversarial_train_without_epochs_keeps_perturbations:
  "adversarial_train example_library 0 (1 / 2) example_attacked = Inr example_attacked \<and>
   \<not> perturbations_reset example_attacked"
proof -
  have "delta_P example_attacked \<noteq> zeros (num_users example_attacked) (embedding_size example_attacked)"
  proof
    assume "delta_P example_attacked = zeros (num_users example_attacked) (embedding_size example_attacked)"
    then have "delta_P example_attacked ! 0 ! 1 = zeros (Suc 0) 64 ! 0 ! 1"
      by (simp add: example_attacked_dims)
    then show False by (simp add: example_attacked_def zeros_def)
  qed
  then show ?thesis by (simp add: adversarial_train_def perturbations_reset_def)
qed

text \<open>
  Claim C2, amended. After a call of \<^verbatim>\<open>_adversarial_train_step\<close> that returns, and after
  \<^verbatim>\<open>adversarial_train\<close> returns from at least one epoch (any \<open>epsilon\<close>), both
  perturbations are zero matrices; with zero or fewer epochs \<^verbatim>\<open>adversarial_train\<close> returns
  the model as it is. Zero perturbations stay zero through every \<^verbatim>\<open>_train_step\<close>,
  \<^verbatim>\<open>train\<close> and \<^verbatim>\<open>adversarial_train\<close> that returns, and through every statement of the
  notebook other than the call of \<^verbatim>\<open>execute_adversarial_attack\<close>. A model with zero
  perturbations whose embedding matrices have the shapes \<open>(num_users, embedding_size)\<close> and
  \<open>(num_items, embedding_size)\<close> scores the unperturbed embeddings: \<^verbatim>\<open>get_inference\<close>,
  \<^verbatim>\<open>get_full_inference\<close> and the evaluation give what they give without the perturbations.
\<close>

theorem adversarial_training_resets_perturbations:
  "(adversarial_train_step lib m bs epsilon = Inr m' \<longrightarrow> perturbations_reset m') \<and>
   (0 < adversarial_epochs \<and> adversarial_train lib adversarial_epochs epsilon m = Inr m' \<longrightarrow>
      perturbations_reset m') \<and>
   (adversarial_epochs \<le> 0 \<longrightarrow> adversarial_train lib adversarial_epochs epsilon m = Inr m) \<and>
   (perturbations_reset m \<longrightarrow>
      (train_step lib m bs = Inr m' \<longrightarrow> perturbations_reset m') \<and>
      (train lib m = Inr m' \<longrightarrow> perturbations_reset m') \<and>
      (adversarial_train lib adversarial_epochs epsilon m = Inr m' \<longrightarrow> perturbations_reset m')) \<and>
   (c \<noteq> Call_execute_adversarial_attack \<and> model_reset s \<and> exec lib env c s = Inr s' \<longrightarrow>
      model_reset s') \<and>
   (perturbations_reset m \<and> shapes_consistent m \<longrightarrow>
      get_inference m user_input item_input =
        plain_inference (embedding_P m) (embedding_Q m) (h m) user_input item_input \<and>
      get_full_inference m = plain_full_inference (embedding_P m) (embedding_Q m) \<and>
      evaluator_evaluate env m =
        evaluate env (plain_inference (embedding_P m) (embedding_Q m) (h m))
          (plain_full_inference (embedding_P m) (embedding_Q m)) (data m) TOPK)"
proof (intro conjI impI)
  assume "adversarial_train_step lib m bs epsilon = Inr m'"
  then show "perturbations_reset m'" by (rule adversarial_train_step_reset)
next
  assume a: "0 < adversarial_epochs \<and> adversarial_train lib adversarial_epochs epsilon m = Inr m'"
  then have "[0 ..< nat adversarial_epochs] \<noteq> []" by simp
  from for_each_last[OF conjunct2[OF a, unfolded adversarial_train_def] this]
  show "perturbations_reset m'" by (auto dest: adversarial_train_epoch_reset)
next
  assume "adversarial_epochs \<le> 0"
  then show "adversarial_train lib adversarial_epochs epsilon m = Inr m"
    by (rule adversarial_train_no_epochs)
next
  assume "perturbations_reset m" "train_step lib m bs = Inr m'"
  then show "perturbations_reset m'" by (rule train_step_keeps_reset)
next
  assume "perturbations_reset m" "train lib m = Inr m'"
  then show "perturbations_reset m'" by (rule train_keeps_reset)
next
  assume "perturbations_reset m" "adversarial_train lib adversarial_epochs epsilon m = Inr m'"
  then show "perturbations_reset m'" by (rule adversarial_train_keeps_reset)
next
  assume "c \<noteq> Call_execute_adversarial_attack \<and> model_reset s \<and> exec lib env c s = Inr s'"
  then show "model_reset s'" using exec_keeps_reset by blast
next
  assume a: "perturbations_reset m \<and> shapes_consistent m"
  then show "get_inference m user_input item_input =
        plain_inference (embedding_P m) (embedding_Q m) (h m) user_input item_input"
    by (simp add: get_inference_reset)
  from a show "get_full_inference m = plain_full_inference (embedding_P m) (embedding_Q m)"
    by (simp add: get_full_inference_reset plain_full_inference_def)
  from a show "evaluator_evaluate env m =
        evaluate env (plain_inference (embedding_P m) (embedding_Q m) (h m))
          (plain_full_inference (embedding_P m) (embedding_Q m)) (data m) TOPK"
    by (simp add: evaluator_evaluate_reset)
qed

text \<open>
  Claim C2, amended, at the attacked example model: one step, one epoch, no epoch; after that
  epoch a \<^verbatim>\<open>train\<close>, a \<^verbatim>\<open>_train_step\<close> and another adversarial epoch; the statement \<^verbatim>\<open>train\<close>
  of the notebook; and the scores after the epoch.
\<close>

theorem adversarial_training_resets_perturbations_witness:
  "\<exists>m1 m2 m3 t4 t5 s'.
     adversarial_train_step example_library example_attacked example_batches (1 / 2) = Inr m1 \<and>
     perturbations_reset m1 \<and>
     (0::int) < 1 \<and> adversarial_train example_library 1 (1 / 2) example_attacked = Inr m2 \<and>
     perturbations_reset m2 \<and>
     (0::int) \<le> 0 \<and> adversarial_train example_library 0 (1 / 2) example_attacked = Inr example_attacked \<and>
     train example_library m2 = Inr m3 \<and> perturbations_reset m3 \<and>
     train_step example_library m2 example_batches = Inr t4 \<and> perturbations_reset t4 \<and>
     adversarial_train example_library 1 (1 / 2) m2 = Inr t5 \<and> perturbations_reset t5 \<and>
     Call_train \<noteq> Call_execute_adversarial_attack \<and> model_reset example_session \<and>
     exec example_library example_surroundings Call_train example_session = Inr s' \<and> model_reset s' \<and>
     shapes_consistent m2 \<and>
     get_inference m2 [[0]] [[1]] =
       plain_inference (embedding_P m2) (embedding_Q m2) (h m2) [[0]] [[1]] \<and>
     get_full_inference m2 = plain_full_inference (embedding_P m2) (embedding_Q m2) \<and>
     evaluator_evaluate example_surroundings m2 =
       evaluate example_surroundings (plain_inference (embedding_P m2) (embedding_Q m2) (h m2))
         (plain_full_inference (embedding_P m2) (embedding_Q m2)) (data m2) TOPK"
proof -
  note lib = example_library_shape_preserving
  have ok: "library_succeeds example_library (num_users example_attacked) (num_items example_attacked)
              (embedding_size example_attacked)"
    by (simp add: example_attacked_dims example_library_succeeds)
  have bok: "batches_ok (num_users example_attacked) (num_items example_attacked) example_batches"
    by (simp add: example_attacked_dims example_batches_ok)
  from adversarial_train_step_progress[OF example_attacked_ready lib ok bok, of "1 / 2"]
  obtain m1 where m1: "adversarial_train_step example_library example_attacked example_batches (1 / 2) = Inr m1"
    by blast
  from adversarial_train_progress[OF example_attacked_ready lib ok, of 1 "1 / 2"]
  obtain m2 where m2: "adversarial_train example_library 1 (1 / 2) example_attacked = Inr m2"
    "inference_ready m2" "configuration_kept example_attacked m2" by blast
  from m2(2) have s2: "shapes_consistent m2" by (simp add: inference_ready_def)
  have ok2: "library_succeeds example_library (num_users m2) (num_items m2) (embedding_size m2)"
    using ok configuration_keptD[OF m2(3)] by simp
  from train_progress[OF m2(2) lib ok2]
  obtain m3 where m3: "train example_library m2 = Inr m3" by blast
  have bok2: "batches_ok (num_users m2) (num_items m2) example_batches"
    using bok configuration_keptD[OF m2(3)] by simp
  from train_step_progress[OF m2(2) lib ok2 bok2]
  obtain t4 where t4: "train_step example_library m2 example_batches = Inr t4" by blast
  from adversarial_train_progress[OF m2(2) lib ok2, of 1 "1 / 2"]
  obtain t5 where t5: "adversarial_train example_library 1 (1 / 2) m2 = Inr t5" by blast
  from train_progress[OF example_model_ready lib example_model_succeeds(1)]
  obtain m4 where m4: "train example_library example_model = Inr m4" by blast
  let ?s = "example_session\<lparr>recommender_model := Some m4\<rparr>"
  have ex: "exec example_library example_surroundings Call_train example_session = Inr ?s"
    by (simp add: example_session_def m4)
  have mr: "model_reset example_session"
    by (simp add: model_reset_def example_session_def example_model_reset)
  note a = adversarial_training_resets_perturbations[of example_library example_attacked
      example_batches "1 / 2" m1 1]
  note b = adversarial_training_resets_perturbations[of example_library example_attacked
      example_batches "1 / 2" m2 1]
  note c = adversarial_training_resets_perturbations[of example_library example_attacked
      example_batches "1 / 2" _ 0]
  from a m1 have r1: "perturbations_reset m1" by simp
  from b m2(1) have r2: "perturbations_reset m2" by simp
  from c have z: "adversarial_train example_library 0 (1 / 2) example_attacked = Inr example_attacked"
    by simp
  note d = adversarial_training_resets_perturbations[of example_library m2 example_batches "1 / 2"
      m3 1 Call_train example_session example_surroundings ?s "[[0]]" "[[1]]"]
  from d r2 m3 have r3: "perturbations_reset m3" by simp
  from adversarial_training_resets_perturbations[of example_library m2 example_batches "1 / 2" t4] r2 t4
  have r4: "perturbations_reset t4" by simp
  from adversarial_training_resets_perturbations[of example_library m2 example_batches "1 / 2" t5 1]
    r2 t5
  have r5: "perturbations_reset t5" by simp
  from d mr ex have rs: "model_reset ?s" by simp
  from d r2 s2 have sc:
    "get_inference m2 [[0]] [[1]] =
       plain_inference (embedding_P m2) (embedding_Q m2) (h m2) [[0]] [[1]]"
    "get_full_inference m2 = plain_full_inference (embedding_P m2) (embedding_Q m2)"
    "evaluator_evaluate example_surroundings m2 =
       evaluate example_surroundings (plain_inference (embedding_P m2) (embedding_Q m2) (h m2))
         (plain_full_inference (embedding_P m2) (embedding_Q m2)) (data m2) TOPK"
    by simp_all
  from m1 r1 m2(1) r2 z m3 r3 t4 r4 t5 r5 mr ex rs s2 sc show ?thesis
    by (intro exI[of _ m1] exI[of _ m2] exI[of _ m3] exI[of _ t4] exI[of _ t5] exI[of _ ?s]) simp
qed

section \<open>The frame of a training step\<close>

text \<open>
  Claim C3. A call of \<^verbatim>\<open>_train_step\<close> that returns leaves \<open>delta_P\<close> and \<open>delta_Q\<close> as they
  were; of the whole object only the two embedding matrices and the state of the
  optimizer that updates them may differ.
\<close>

theorem train_step_leaves_perturbations:
  assumes "train_step lib m bs = Inr m'"
  shows "delta_P m' = delta_P m \<and> delta_Q m' = delta_Q m \<and> only_parameters_changed m m'"
proof -
  have "only_parameters_changed m m'"
    using assms unfolding train_step_def
    by (rule for_each_invariant[where I = "only_parameters_changed m"])
       (auto intro: only_parameters_changed_refl only_parameters_changed_trans train_batch_frame)
  moreover from this have "delta_P m' = delta_P m \<and> delta_Q m' = delta_Q m"
    by (simp add: only_parameters_changedD)
  ultimately show ?thesis by simp
qed

text \<open>Claim C3, at the attacked example model, whose perturbations are not zero.\<close>

theorem train_step_leaves_perturbations_witness:
  "\<exists>m'. train_step example_library example_attacked example_batches = Inr m' \<and>
     delta_P m' = delta_P example_attacked \<and> delta_Q m' = delta_Q example_attacked \<and>
     only_parameters_changed example_attacked m' \<and>
     delta_P m' = [0 # (- 1 / 2) # replicate 62 0]"
proof -
  have ok: "library_succeeds example_library (num_users example_attacked) (num_items example_attacked)
              (embedding_size example_attacked)"
    "batches_ok (num_users example_attacked) (num_items example_attacked) example_batches"
    by (simp_all add: example_attacked_dims example_library_succeeds example_batches_ok)
  from train_step_progress[OF example_attacked_ready example_library_shape_preserving ok]
  obtain m' where m': "train_step example_library example_attacked example_batches = Inr m'"
    by blast
  from train_step_leaves_perturbations[OF m'] m' show ?thesis
    by (auto simp: example_attacked_def)
qed

section \<open>The shape invariant\<close>

text \<open>
  Claim C4. With a tensor library that keeps its promises about shapes, the constructor
  yields perturbations shaped \<open>(num_users, embedding_size)\<close> and
  \<open>(num_items, embedding_size)\<close> like the embedding matrices, and from such a model
  \<^verbatim>\<open>initialize_perturbations\<close>, \<^verbatim>\<open>_train_step\<close>, \<^verbatim>\<open>_adversarial_train_step\<close>,
  \<^verbatim>\<open>execute_adversarial_attack\<close>, \<^verbatim>\<open>train\<close> and \<^verbatim>\<open>adversarial_train\<close> lead, when they
  return, to such a model again.
\<close>

theorem perturbations_keep_embedding_shapes:
  assumes "shape_preserving lib"
  shows "shapes_consistent (fst (BPRMF lib r dl path_result path_weight)) \<and>
         (shapes_consistent m \<longrightarrow>
            shapes_consistent (initialize_perturbations m) \<and>
            (\<forall>m'. train_step lib m bs = Inr m' \<longrightarrow> shapes_consistent m') \<and>
            (\<forall>m'. adversarial_train_step lib m bs epsilon = Inr m' \<longrightarrow> shapes_consistent m') \<and>
            (\<forall>m'. execute_adversarial_attack lib epsilon m = Inr m' \<longrightarrow> shapes_consistent m') \<and>
            (\<forall>m'. train lib m = Inr m' \<longrightarrow> shapes_consistent m') \<and>
            (\<forall>m'. adversarial_train lib adversarial_epochs epsilon m = Inr m' \<longrightarrow>
                   shapes_consistent m'))"
proof -
  have tr: "shapes_consistent m'" if "shapes_consistent m" "train lib m = Inr m'" for m'
    using that(2,1) unfolding train_def
    by (rule for_each_invariant) (rule train_epoch_shapes[OF assms])
  have atr: "shapes_consistent m'"
    if "shapes_consistent m" "adversarial_train lib adversarial_epochs epsilon m = Inr m'" for m'
    using that(2,1) unfolding adversarial_train_def
    by (rule for_each_invariant) (rule adversarial_train_epoch_shapes[OF assms])
  show ?thesis
    using BPRMF_shapes[OF assms] initialize_perturbations_shapes train_step_shapes[OF assms]
      adversarial_train_step_shapes[OF assms] execute_adversarial_attack_shapes(1)[OF assms] tr atr
    by blast
qed

text \<open>Claim C4, at the example library and model.\<close>

theorem perturbations_keep_embedding_shapes_witness:
  "shape_preserving example_library \<and>
   shapes_consistent (fst (BPRMF example_library 0 0 ''../rec_result/'' ''../rec_weights/'')) \<and>
   shapes_consistent example_model \<and>
   shapes_consistent (initialize_perturbations example_model) \<and>
   (\<exists>m'. train_step example_library example_model example_batches = Inr m' \<and> shapes_consistent m') \<and>
   (\<exists>m'. adversarial_train_step example_library example_model example_batches (1 / 2) = Inr m' \<and>
         shapes_consistent m') \<and>
   (\<exists>m'. execute_adversarial_attack example_library (1 / 2) example_model = Inr m' \<and>
         shapes_consistent m') \<and>
   (\<exists>m'. train example_library example_model = Inr m' \<and> shapes_consistent m') \<and>
   (\<exists>m'. adversarial_train example_library 1 (1 / 2) example_model = Inr m' \<and> shapes_consistent m')"
proof -
  note lib = example_library_shape_preserving
  note ready = example_model_ready
  note ok = example_model_succeeds
  from ready have s: "shapes_consistent example_model" by (simp add: inference_ready_def)
  note inst = perturbations_keep_embedding_shapes[OF lib, of 0 0 "''../rec_result/''"
      "''../rec_weights/''" example_model example_batches "1 / 2" 1]
  from train_step_progress[OF ready lib ok] obtain m1 where
    m1: "train_step example_library example_model example_batches = Inr m1" by blast
  from adversarial_train_step_progress[OF ready lib ok, of "1 / 2"] obtain m2 where
    m2: "adversarial_train_step example_library example_model example_batches (1 / 2) = Inr m2" by blast
  from execute_adversarial_attack_progress[OF ready lib ok(1), of "1 / 2"] obtain m3 where
    m3: "execute_adversarial_attack example_library (1 / 2) example_model = Inr m3" by blast
  from train_progress[OF ready lib ok(1)] obtain m4 where
    m4: "train example_library example_model = Inr m4" by blast
  from adversarial_train_progress[OF ready lib ok(1), of 1 "1 / 2"] obtain m5 where
    m5: "adversarial_train example_library 1 (1 / 2) example_model = Inr m5" by blast
  from inst s m1 m2 m3 m4 m5 lib show ?thesis by simp
qed

section \<open>The order of the notebook's steps\<close>

text \<open>
  Claim C8 as stated fails: the steps of the notebook's code cells are not the eight steps
  the specification lists.
\<close>

theorem notebook_steps_differ_from_spec:
  "steps notebook \<noteq> spec_steps"
  by (simp add: steps_def notebook_def notebook_cells_def spec_steps_def List.map_filter_def)

text \<open>
  Claim C8, amended. The notebook performs the specification's eight steps in that order
  (load data, construct the model, train, evaluate, perturb, evaluate, adversarially
  train, evaluate) and then two more: it perturbs the adversarially trained model and
  evaluates it again.
\<close>

theorem notebook_attacks_and_evaluates_once_more:
  "steps notebook = spec_steps @ [Perturb, Evaluate]"
  by (simp add: steps_def notebook_def notebook_cells_def spec_steps_def List.map_filter_def)

section \<open>The output paths\<close>

text \<open>
  Claim C9. The two output paths given to the constructor are only kept: running the
  notebook with any other two paths has the same outcome, the same error or the same
  final session but for the two path attributes of the model; and \<^verbatim>\<open>train\<close>,
  \<^verbatim>\<open>adversarial_train\<close>, \<^verbatim>\<open>execute_adversarial_attack\<close> and the evaluation neither depend on
  the two attributes nor change them.
\<close>

theorem output_paths_are_not_used:
  "run lib env (concat (notebook_cells path_result path_weight)) (fresh_session r) =
     map_sum id (session_with_paths path_result path_weight) (run lib env notebook (fresh_session r)) \<and>
   train lib (with_paths path_result path_weight m) =
     map_sum id (with_paths path_result path_weight) (train lib m) \<and>
   adversarial_train lib adversarial_epochs epsilon (with_paths path_result path_weight m) =
     map_sum id (with_paths path_result path_weight) (adversarial_train lib adversarial_epochs epsilon m) \<and>
   execute_adversarial_attack lib epsilon (with_paths path_result path_weight m) =
     map_sum id (with_paths path_result path_weight) (execute_adversarial_attack lib epsilon m) \<and>
   evaluator_evaluate env (with_paths path_result path_weight m) = evaluator_evaluate env m"
  by (simp only: run_notebook_paths train_paths adversarial_train_paths
      execute_adversarial_attack_paths evaluator_evaluate_paths simp_thms)

text \<open>Claim C9, at the example library and surroundings, where the notebook runs to its end.\<close>

theorem output_paths_are_not_used_witness:
  "\<exists>s. run example_library example_surroundings notebook (fresh_session 0) = Inr s \<and>
     run example_library example_surroundings (concat (notebook_cells ''/tmp/a/'' ''/tmp/b/''))
       (fresh_session 0) = Inr (session_with_paths ''/tmp/a/'' ''/tmp/b/'' s)"
proof -
  from example_notebook_runs obtain s where
    s: "run example_library example_surroundings notebook (fresh_session 0) = Inr s" by blast
  from output_paths_are_not_used[of example_library example_surroundings "''/tmp/a/''" "''/tmp/b/''" 0]
  show ?thesis by (simp add: s)
qed

section \<open>Errors\<close>

text \<open>
  Claim C10. No method handles an error: each one raises exactly when a call it makes
  raises, and then with the error of that call. \<^verbatim>\<open>train\<close> and \<^verbatim>\<open>adversarial_train\<close> raise \<open>e\<close>
  if and only if some epoch raises \<open>e\<close> after the epochs before it went through; an epoch
  raises \<open>e\<close> if and only if its shuffle does, or the shuffle returns and the step raises
  \<open>e\<close>; \<^verbatim>\<open>_train_step\<close> and \<^verbatim>\<open>_adversarial_train_step\<close> raise \<open>e\<close> if and only if the loop body
  raises \<open>e\<close> at some batch after the batches before it went through; the body of each
  loop and \<^verbatim>\<open>execute_adversarial_attack\<close> raise \<open>e\<close> if and only if one of their calls in
  turn (the forward pass, the attack, the gradient, the optimizer step) raises \<open>e\<close> after
  the calls before it returned; and \<^verbatim>\<open>get_inference\<close>, \<^verbatim>\<open>get_full_inference\<close> and the parts of
  the forward pass raise \<open>e\<close> if and only if one of their tensor operations or list
  indexings in turn does. So every error of \<^verbatim>\<open>train\<close>, \<^verbatim>\<open>adversarial_train\<close>,
  \<^verbatim>\<open>execute_adversarial_attack\<close> and the two inference methods is one a call returned; and
  on a well-shaped model, with a library that raises nothing, the three methods return.
\<close>

theorem errors_propagate_unchanged:
  "(train lib m = Inl e \<longleftrightarrow>
     (\<exists>epoch t. epoch < nat (epochs m) \<and> for_each (train_epoch lib) m [0 ..< epoch] = Inr t \<and>
        train_epoch lib t epoch = Inl e)) \<and>
   (train_epoch lib m epoch = Inl e \<longleftrightarrow>
     shuffle lib (data m) (batch_size m) = Inl e \<or>
     (\<exists>bs dl. shuffle lib (data m) (batch_size m) = Inr (bs, dl) \<and>
        train_step lib (m\<lparr>data := dl\<rparr>) bs = Inl e)) \<and>
   (train_step lib m bs = Inl e \<longleftrightarrow>
     (\<exists>batch_idx t. batch_idx < length (fst bs) \<and>
        for_each (train_batch lib bs) m [0 ..< batch_idx] = Inr t \<and>
        train_batch lib bs t batch_idx = Inl e)) \<and>
   (train_batch lib bs m batch_idx = Inl e \<longleftrightarrow>
     (let f = loss_opt (reg m) (delta_P m) (delta_Q m) (h m) bs batch_idx in
      f (embedding_P m) (embedding_Q m) = Inl e \<or>
      (\<exists>l. f (embedding_P m) (embedding_Q m) = Inr l \<and>
         (gradient lib f (embedding_P m) (embedding_Q m) = Inl e \<or>
          (\<exists>gP gQ. gradient lib f (embedding_P m) (embedding_Q m) = Inr (gP, gQ) \<and>
             apply_gradients lib (optimizer m) (gP, embedding_P m) (gQ, embedding_Q m) = Inl e))))) \<and>
   (execute_adversarial_attack lib epsilon m = Inl e \<longleftrightarrow>
     shuffle lib (data m) (user_input_len lib (data m)) = Inl e \<or>
     (\<exists>bs dl. shuffle lib (data m) (user_input_len lib (data m)) = Inr (bs, dl) \<and>
        (let f = loss_opt (reg m) (zeros (num_users m) (embedding_size m))
                   (zeros (num_items m) (embedding_size m)) (h m) bs 0 in
         f (embedding_P m) (embedding_Q m) = Inl e \<or>
         (\<exists>l. f (embedding_P m) (embedding_Q m) = Inr l \<and>
            gradient lib f (embedding_P m) (embedding_Q m) = Inl e)))) \<and>
   (adversarial_train lib adversarial_epochs epsilon m = Inl e \<longleftrightarrow>
     (\<exists>epoch t. epoch < nat adversarial_epochs \<and>
        for_each (adversarial_train_epoch lib epsilon) m [0 ..< epoch] = Inr t \<and>
        adversarial_train_epoch lib epsilon t epoch = Inl e)) \<and>
   (adversarial_train_epoch lib epsilon m epoch = Inl e \<longleftrightarrow>
     shuffle lib (data m) (batch_size m) = Inl e \<or>
     (\<exists>bs dl. shuffle lib (data m) (batch_size m) = Inr (bs, dl) \<and>
        adversarial_train_step lib (m\<lparr>data := dl\<rparr>) bs epsilon = Inl e)) \<and>
   (adversarial_train_step lib m bs epsilon = Inl e \<longleftrightarrow>
     (\<exists>batch_idx t. batch_idx < length (fst bs) \<and>
        for_each (adversarial_train_batch lib epsilon bs) m [0 ..< batch_idx] = Inr t \<and>
        adversarial_train_batch lib epsilon bs t batch_idx = Inl e)) \<and>
   (adversarial_train_batch lib epsilon bs m batch_idx = Inl e \<longleftrightarrow>
     loss_opt (reg m) (delta_P m) (delta_Q m) (h m) bs batch_idx (embedding_P m) (embedding_Q m) = Inl e \<or>
     (\<exists>bprmf_loss.
        loss_opt (reg m) (delta_P m) (delta_Q m) (h m) bs batch_idx (embedding_P m) (embedding_Q m) =
          Inr bprmf_loss \<and>
        (execute_adversarial_attack lib epsilon m = Inl e \<or>
         (\<exists>m1. execute_adversarial_attack lib epsilon m = Inr m1 \<and>
            (let f = amf_loss 1 (reg m) (delta_P m) (delta_Q m) (delta_P m1) (delta_Q m1) (h m1)
                       bs batch_idx in
             f (embedding_P m1) (embedding_Q m1) = Inl e \<or>
             (\<exists>l. f (embedding_P m1) (embedding_Q m1) = Inr l \<and>
                (gradient lib f (embedding_P m1) (embedding_Q m1) = Inl e \<or>
                 (\<exists>gP gQ. gradient lib f (embedding_P m1) (embedding_Q m1) = Inr (gP, gQ) \<and>
                    apply_gradients lib (optimizer m1) (gP, embedding_P m1) (gQ, embedding_Q m1) =
                      Inl e)))))))) \<and>
   (get_inference m user_input item_input = Inl e \<longleftrightarrow>
     inference (embedding_P m) (embedding_Q m) (delta_P m) (delta_Q m) (h m) user_input item_input = Inl e) \<and>
   (inference P Q dP dQ hh user_input item_input = Inl e \<longleftrightarrow>
     add P dP = Inl e \<or>
     (\<exists>P'. add P dP = Inr P' \<and>
        (embedding_lookup P' user_input = Inl e \<or>
         (\<exists>lp. embedding_lookup P' user_input = Inr lp \<and>
            (add Q dQ = Inl e \<or>
             (\<exists>Q'. add Q dQ = Inr Q' \<and>
                (embedding_lookup Q' item_input = Inl e \<or>
                 (\<exists>lq. embedding_lookup Q' item_input = Inr lq \<and>
                    (multiply (reduce_sum_1 (width P') lp) (reduce_sum_1 (width Q') lq) = Inl e \<or>
                     (\<exists>pq. multiply (reduce_sum_1 (width P') lp) (reduce_sum_1 (width Q') lq) = Inr pq \<and>
                        matmul pq hh = Inl e)))))))))) \<and>
   (get_full_inference m = Inl e \<longleftrightarrow>
     add (embedding_P m) (delta_P m) = Inl e \<or>
     (\<exists>P'. add (embedding_P m) (delta_P m) = Inr P' \<and>
        (add (embedding_Q m) (delta_Q m) = Inl e \<or>
         (\<exists>Q'. add (embedding_Q m) (delta_Q m) = Inr Q' \<and> matmul P' (transpose Q') = Inl e)))) \<and>
   (ranking_loss dP dQ hh (user_input_batches, item_input_pos, item_input_neg) batch_idx P Q = Inl e \<longleftrightarrow>
     getitem user_input_batches batch_idx = Inl e \<or>
     (\<exists>u. getitem user_input_batches batch_idx = Inr u \<and>
        (getitem item_input_pos batch_idx = Inl e \<or>
         (\<exists>ip. getitem item_input_pos batch_idx = Inr ip \<and>
            (inference P Q dP dQ hh u ip = Inl e \<or>
             (\<exists>output_pos embed_p_pos embed_q_pos.
                inference P Q dP dQ hh u ip = Inr (output_pos, embed_p_pos, embed_q_pos) \<and>
                (getitem item_input_neg batch_idx = Inl e \<or>
                 (\<exists>ineg. getitem item_input_neg batch_idx = Inr ineg \<and>
                    (inference P Q dP dQ hh u ineg = Inl e \<or>
                     (\<exists>output_neg embed_p_neg embed_q_neg.
                        inference P Q dP dQ hh u ineg = Inr (output_neg, embed_p_neg, embed_q_neg) \<and>
                        subtract output_pos output_neg = Inl e)))))))))) \<and>
   (reg_loss rg embed_p embed_q embed_q' = Inl e \<longleftrightarrow>
     add (square embed_p) (square embed_q) = Inl e \<or>
     (\<exists>s. add (square embed_p) (square embed_q) = Inr s \<and> add s (square embed_q') = Inl e)) \<and>
   (loss_opt rg dP dQ hh bs batch_idx P Q = Inl e \<longleftrightarrow>
     ranking_loss dP dQ hh bs batch_idx P Q = Inl e \<or>
     (\<exists>loss embed_p_pos embed_q_pos embed_q_neg.
        ranking_loss dP dQ hh bs batch_idx P Q = Inr (loss, embed_p_pos, embed_q_pos, embed_q_neg) \<and>
        reg_loss rg embed_p_pos embed_q_pos embed_q_neg = Inl e)) \<and>
   (amf_loss adv_reg rg dP dQ aP aQ hh bs batch_idx P Q = Inl e \<longleftrightarrow>
     loss_opt rg dP dQ hh bs batch_idx P Q = Inl e \<or>
     (\<exists>bprmf_loss. loss_opt rg dP dQ hh bs batch_idx P Q = Inr bprmf_loss \<and>
        ranking_loss aP aQ hh bs batch_idx P Q = Inl e)) \<and>
   ((train lib m = Inl e \<or> adversarial_train lib adversarial_epochs epsilon m = Inl e \<or>
     execute_adversarial_attack lib epsilon m = Inl e \<or>
     get_inference m user_input item_input = Inl e \<or>
     get_full_inference m = Inl e) \<longrightarrow> raised_by_a_call lib e) \<and>
   (inference_ready m \<and> shape_preserving lib \<and>
    library_succeeds lib (num_users m) (num_items m) (embedding_size m) \<longrightarrow>
      (\<exists>m'. train lib m = Inr m') \<and>
      (\<exists>m'. adversarial_train lib adversarial_epochs epsilon m = Inr m') \<and>
      (\<exists>m'. execute_adversarial_attack lib epsilon m = Inr m'))"
  apply (rule conjI, rule train_Inl_iff)
  apply (rule conjI, rule train_epoch_Inl_iff)
  apply (rule conjI, rule train_step_Inl_iff)
  apply (rule conjI, rule train_batch_Inl_iff)
  apply (rule conjI, rule execute_adversarial_attack_Inl_iff)
  apply (rule conjI, rule adversarial_train_Inl_iff)
  apply (rule conjI, rule adversarial_train_epoch_Inl_iff)
  apply (rule conjI, rule adversarial_train_step_Inl_iff)
  apply (rule conjI, rule adversarial_train_batch_Inl_iff)
  apply (rule conjI, rule get_inference_Inl_iff)
  apply (rule conjI, rule inference_Inl_iff)
  apply (rule conjI, rule get_full_inference_Inl_iff)
  apply (rule conjI, rule ranking_loss_Inl_iff)
  apply (rule conjI, rule reg_loss_Inl_iff)
  apply (rule conjI, rule loss_opt_Inl_iff)
  apply (rule conjI, rule amf_loss_Inl_iff)
  apply (rule conjI, rule methods_Inl_origin)
  apply (rule methods_progress)
  done

text \<open>
  Claim C10, at the example model. With a shuffle that raises from its second call on,
  \<^verbatim>\<open>train\<close> raises its error in the second epoch, \<^verbatim>\<open>adversarial_train\<close> raises it from the
  attack inside its first batch, and \<^verbatim>\<open>execute_adversarial_attack\<close> raises it on a data loader
  that has shuffled before. A gradient or an optimizer step that raises makes \<^verbatim>\<open>train\<close> raise
  the same error, a user index out of range makes \<^verbatim>\<open>get_inference\<close> raise the tensor
  library's error, and with the example library the three methods return.
\<close>

theorem errors_propagate_unchanged_witness:
  "train second_shuffle_fails example_model = Inl (LibraryError 4) \<and>
   adversarial_train second_shuffle_fails 1 (1 / 2) example_model = Inl (LibraryError 4) \<and>
   execute_adversarial_attack second_shuffle_fails (1 / 2) example_attacked = Inl (LibraryError 4) \<and>
   raised_by_a_call second_shuffle_fails (LibraryError 4) \<and>
   train gradient_fails example_model = Inl (LibraryError 2) \<and>
   train optimizer_fails example_model = Inl (LibraryError 3) \<and>
   get_inference example_model [[1]] [[0]] = Inl InvalidArgumentError \<and>
   (\<exists>m'. train example_library example_model = Inr m') \<and>
   (\<exists>m'. adversarial_train example_library 1 (1 / 2) example_model = Inr m') \<and>
   (\<exists>m'. execute_adversarial_attack example_library (1 / 2) example_model = Inr m')"
proof -
  note T = errors_propagate_unchanged
  note train_iff = T[THEN conjunct1]
  note T2 = T[THEN conjunct2]
  note train_epoch_iff = T2[THEN conjunct1]
  note T3 = T2[THEN conjunct2]
  note train_step_iff = T3[THEN conjunct1]
  note T4 = T3[THEN conjunct2]
  note train_batch_iff = T4[THEN conjunct1]
  note T5 = T4[THEN conjunct2]
  note attack_iff = T5[THEN conjunct1]
  note T6 = T5[THEN conjunct2]
  note adversarial_train_iff = T6[THEN conjunct1]
  note T7 = T6[THEN conjunct2]
  note adversarial_train_epoch_iff = T7[THEN conjunct1]
  note T8 = T7[THEN conjunct2]
  note adversarial_train_step_iff = T8[THEN conjunct1]
  note T9 = T8[THEN conjunct2]
  note adversarial_train_batch_iff = T9[THEN conjunct1]
  note T10 = T9[THEN conjunct2]
  note get_inference_iff = T10[THEN conjunct1]
  note T11 = T10[THEN conjunct2]
  note inference_iff = T11[THEN conjunct1]
  note T17 = T11[THEN conjunct2, THEN conjunct2, THEN conjunct2, THEN conjunct2, THEN conjunct2,
      THEN conjunct2]
  note origin = T17[THEN conjunct1]
  note progress = T17[THEN conjunct2]
  let ?L = second_shuffle_fails
  let ?e = "LibraryError 4"
  let ?m1 = "example_model\<lparr>data := Suc 0\<rparr>"
  have sh0: "shuffle ?L 0 b = Inr (example_batches, Suc 0)" for b
    by (simp add: second_shuffle_fails_def)
  have sh1: "shuffle ?L (Suc 0) b = Inl ?e" for b
    by (simp add: second_shuffle_fails_def)
  have d0: "data example_model = 0" "batch_size example_model = 512" "epochs example_model = 5"
    by (simp_all add: example_model_eq)
  from example_first_epoch obtain t where
    t: "train_epoch ?L example_model 0 = Inr t" "data t = Suc 0" "batch_size t = 512" by blast
  have "train_epoch ?L t 1 = Inl ?e"
    by (rule train_epoch_iff[THEN iffD2]) (simp add: t sh1)
  moreover have "for_each (train_epoch ?L) example_model [0 ..< 1] = Inr t" by (simp add: t)
  ultimately have
    "\<exists>epoch t. epoch < nat (epochs example_model) \<and>
       for_each (train_epoch ?L) example_model [0 ..< epoch] = Inr t \<and> train_epoch ?L t epoch = Inl ?e"
    by (intro exI[of _ 1] exI[of _ t]) (simp add: d0)
  then have w1: "train ?L example_model = Inl ?e" by (rule train_iff[THEN iffD2])
  have att: "execute_adversarial_attack ?L (1 / 2) m = Inl ?e" if "data m = Suc 0" for m
    by (rule attack_iff[THEN iffD2]) (simp add: that sh1)
  have w3: "execute_adversarial_attack ?L (1 / 2) example_attacked = Inl ?e"
    by (rule att) (simp add: example_attacked_def)
  from example_loss_at obtain v where
    v: "loss_opt (reg example_model) (delta_P example_model) (delta_Q example_model)
          (h example_model) example_batches 0 (embedding_P example_model) (embedding_Q example_model) =
        Inr v" by blast
  have "adversarial_train_batch ?L (1 / 2) example_batches ?m1 0 = Inl ?e"
    by (rule adversarial_train_batch_iff[THEN iffD2]) (simp add: v att)
  then have "\<exists>batch_idx t. batch_idx < length (fst example_batches) \<and>
        for_each (adversarial_train_batch ?L (1 / 2) example_batches) ?m1 [0 ..< batch_idx] = Inr t \<and>
        adversarial_train_batch ?L (1 / 2) example_batches t batch_idx = Inl ?e"
    by (intro exI[of _ 0] exI[of _ ?m1]) (simp add: example_batches_def)
  then have "adversarial_train_step ?L ?m1 example_batches (1 / 2) = Inl ?e"
    by (rule adversarial_train_step_iff[THEN iffD2])
  then have "adversarial_train_epoch ?L (1 / 2) example_model 0 = Inl ?e"
    by (intro adversarial_train_epoch_iff[THEN iffD2]) (simp add: d0 sh0)
  then have "\<exists>epoch t. epoch < nat 1 \<and>
        for_each (adversarial_train_epoch ?L (1 / 2)) example_model [0 ..< epoch] = Inr t \<and>
        adversarial_train_epoch ?L (1 / 2) t epoch = Inl ?e"
    by (intro exI[of _ 0] exI[of _ example_model]) simp
  then have w2: "adversarial_train ?L 1 (1 / 2) example_model = Inl ?e"
    by (rule adversarial_train_iff[THEN iffD2])
  from origin[of ?L example_model ?e] w1 have w4: "raised_by_a_call ?L ?e" by simp
  have tr: "train lib example_model = Inl e"
    if s: "shuffle lib 0 512 = Inr (example_batches, Suc 0)"
      and b: "train_batch lib example_batches ?m1 0 = Inl e" for lib :: "(nat, nat, nat) library" and e
  proof -
    from b have "\<exists>batch_idx t. batch_idx < length (fst example_batches) \<and>
        for_each (train_batch lib example_batches) ?m1 [0 ..< batch_idx] = Inr t \<and>
        train_batch lib example_batches t batch_idx = Inl e"
      by (intro exI[of _ 0] exI[of _ ?m1]) (simp add: example_batches_def)
    then have "train_step lib ?m1 example_batches = Inl e" by (rule train_step_iff[THEN iffD2])
    then have "train_epoch lib example_model 0 = Inl e"
      by (intro train_epoch_iff[THEN iffD2]) (simp add: d0 s)
    then have "\<exists>epoch t. epoch < nat (epochs example_model) \<and>
       for_each (train_epoch lib) example_model [0 ..< epoch] = Inr t \<and> train_epoch lib t epoch = Inl e"
      by (intro exI[of _ 0] exI[of _ example_model]) (simp add: d0)
    then show ?thesis by (rule train_iff[THEN iffD2])
  qed
  have "train_batch gradient_fails example_batches ?m1 0 = Inl (LibraryError 2)"
    by (rule train_batch_iff[THEN iffD2]) (simp add: Let_def v gradient_fails_def)
  then have w5: "train gradient_fails example_model = Inl (LibraryError 2)"
    by (intro tr) (simp_all add: gradient_fails_def example_library_def)
  have g: "gradient optimizer_fails f (embedding_P example_model) (embedding_Q example_model) =
             Inr (example_grad_P, example_grad_Q)" for f
    by (simp add: optimizer_fails_def example_library_def example_model_eq same_shape_def)
  have "train_batch optimizer_fails example_batches ?m1 0 = Inl (LibraryError 3)"
    by (rule train_batch_iff[THEN iffD2]) (simp add: Let_def v g, simp add: optimizer_fails_def)
  then have w6: "train optimizer_fails example_model = Inl (LibraryError 3)"
    by (intro tr) (simp_all add: optimizer_fails_def example_library_def)
  have a: "add example_P (zeros (Suc 0) 64) = Inr example_P"
    by (rule add_zeros[OF example_shapes(1)])
  have l: "embedding_lookup example_P [[1]] = Inl InvalidArgumentError"
    by (simp add: embedding_lookup_def lookup_row_def example_P_def)
  have "inference example_P example_Q (zeros (Suc 0) 64) (zeros 2 64) (tf_constant 1 64 (Suc 0))
          [[1]] [[0]] = Inl InvalidArgumentError"
    by (rule inference_iff[THEN iffD2]) (simp add: a l)
  then have w7: "get_inference example_model [[1]] [[0]] = Inl InvalidArgumentError"
    by (intro get_inference_iff[THEN iffD2]) (simp add: example_model_eq)
  note h = example_model_ready example_library_shape_preserving example_model_succeeds(1)
  from progress[of example_model example_library 1 "1 / 2"] h
  have w8: "\<exists>m'. train example_library example_model = Inr m'"
    "\<exists>m'. adversarial_train example_library 1 (1 / 2) example_model = Inr m'"
    "\<exists>m'. execute_adversarial_attack example_library (1 / 2) example_model = Inr m'"
    by simp_all
  from w1 w2 w3 w4 w5 w6 w7 w8 show ?thesis by simp
qed
end
